(* ===== verification/Bunny_Prelude.thy ===== *)
theory Bunny_Prelude
  imports Main "HOL-Library.Word" "HOL-Library.Multiset"
begin

text \<open>
  The vocabulary every component shares: the machine integers of the source, panics as
  values, the state-and-panic monad in which stateful code is written, the
  early-return operator \<^verbatim>\<open>?\<close> of Rust, the \<^verbatim>\<open>Poll\<close> type of futures, and a small
  library on transition systems (reachable states, invariants, refinement) on which the
  interleaving models of the later theories rest.
\<close>

named_theorems io_simps \<open>equations that run the state-and-panic monad\<close>

section \<open>Machine integers\<close>

type_synonym u8 = "8 word"
type_synonym u16 = "16 word"
type_synonym u32 = "32 word"
type_synonym u64 = "64 word"

text \<open>An \<^verbatim>\<open>i32\<close> is the same 32 bits, read by \<^const>\<open>sint\<close>.\<close>
type_synonym i32 = "32 word"
type_synonym i64 = "64 word"

text \<open>The target has 32-bit pointers, so \<^verbatim>\<open>usize\<close> is 32 bits wide.\<close>
type_synonym usize = "32 word"

abbreviation u32_MAX :: u32 where
  "u32_MAX \<equiv> 0xFFFFFFFF"

abbreviation i64_MAX :: i64 where
  "i64_MAX \<equiv> 0x7FFFFFFFFFFFFFFF"

lemma unat_u32_MAX [simp]: "unat u32_MAX = 4294967295"
  by simp

lemma unat_lt_u32_MAX: "x \<noteq> u32_MAX \<Longrightarrow> unat x < 4294967295" for x :: u32
proof -
  assume "x \<noteq> u32_MAX"
  then have "unat x \<noteq> 4294967295"
    by (metis unat_u32_MAX word_unat_eq_iff)
  moreover have "unat x < 2 ^ 32"
    using unsigned_less [of x] by simp
  ultimately show ?thesis by simp
qed

lemma unat_Suc_u32: "x \<noteq> u32_MAX \<Longrightarrow> unat (x + 1) = Suc (unat x)" for x :: u32
  using unat_lt_u32_MAX [of x] by (simp add: unat_word_ariths)

section \<open>Panics and results\<close>

text \<open>
  Rust's \<^verbatim>\<open>Result\<close> is a sum, \<^const>\<open>Inl\<close> the error and \<^const>\<open>Inr\<close> the value.
  A panic of the source is a value. The arithmetic of the source is that of the debug
  profile that \<^verbatim>\<open>run.sh\<close> builds: an overflowing addition, subtraction or negation panics.
\<close>

datatype panic =
    UnwrapNone              \<comment> \<open>\<^verbatim>\<open>unwrap()\<close> on \<^verbatim>\<open>None\<close>\<close>
  | UnwrapErr               \<comment> \<open>\<^verbatim>\<open>unwrap()\<close> on \<^verbatim>\<open>Err\<close>\<close>
  | Explicit string         \<comment> \<open>\<^verbatim>\<open>panic!(..)\<close>, \<^verbatim>\<open>expect(..)\<close>\<close>
  | Todo                    \<comment> \<open>\<^verbatim>\<open>todo!()\<close>\<close>
  | AssertFailed            \<comment> \<open>\<^verbatim>\<open>assert!\<close>, \<^verbatim>\<open>assert_eq!\<close>\<close>
  | Overflow                \<comment> \<open>arithmetic overflow with overflow checks on\<close>
  | OutOfBounds             \<comment> \<open>a raw copy outside of its buffers: undefined behaviour, the model stops\<close>

datatype (plugins del: size) 'a outcome = Val 'a | Panic panic

datatype (plugins del: size) 'a poll = Ready 'a | Pending

text \<open>A call that may block: in the given state it blocks, or it returns.\<close>

datatype (plugins del: size) 'a blocking = Blocks | Returns 'a

definition unwrap :: "'a option \<Rightarrow> 'a outcome" where
  "unwrap x = (case x of None \<Rightarrow> Panic UnwrapNone | Some a \<Rightarrow> Val a)"

definition unwrap_result :: "'e + 'a \<Rightarrow> 'a outcome" where
  "unwrap_result x = (case x of Inl _ \<Rightarrow> Panic UnwrapErr | Inr a \<Rightarrow> Val a)"

lemma unwrap_simps [simp, io_simps]:
  "unwrap None = Panic UnwrapNone" "unwrap (Some a) = Val a"
  "unwrap_result (Inl e) = Panic UnwrapErr" "unwrap_result (Inr a) = Val a"
  by (simp_all add: unwrap_def unwrap_result_def)

text \<open>\<^verbatim>\<open>x += 1\<close> on a \<^verbatim>\<open>u32\<close>, with overflow checks.\<close>

definition incr_u32 :: "u32 \<Rightarrow> u32 outcome" where
  "incr_u32 x = (if x = u32_MAX then Panic Overflow else Val (x + 1))"

text \<open>\<^verbatim>\<open>x + y\<close> on \<^verbatim>\<open>u32\<close>s, with overflow checks.\<close>

definition add_u32 :: "u32 \<Rightarrow> u32 \<Rightarrow> u32 outcome" where
  "add_u32 x y = (if unat x + unat y < 2 ^ 32 then Val (x + y) else Panic Overflow)"

lemma add_u32_Val: "add_u32 x y = Val z \<Longrightarrow> unat z = unat x + unat y"
  by (auto simp: add_u32_def unat_word_ariths split: if_splits)

text \<open>Negation of an \<^verbatim>\<open>i32\<close>, with overflow checks: \<^verbatim>\<open>i32::MIN\<close> has no negation.\<close>

abbreviation i32_MIN :: i32 where
  "i32_MIN \<equiv> 0x80000000"

definition neg_i32 :: "i32 \<Rightarrow> i32 outcome" where
  "neg_i32 x = (if x = i32_MIN then Panic Overflow else Val (- x))"

text \<open>\<^verbatim>\<open>x - 1\<close> on an \<^verbatim>\<open>i32\<close>, with overflow checks.\<close>

definition dec_i32 :: "i32 \<Rightarrow> i32 outcome" where
  "dec_i32 x = (if x = i32_MIN then Panic Overflow else Val (x - 1))"

lemma sint_i32_range: "- (2 ^ 31) \<le> sint x" "sint x < 2 ^ 31" for x :: i32
  using sint_ge [of x] sint_lt [of x] by simp_all

lemma sint_i32_MIN [simp]: "sint i32_MIN = - (2 ^ 31)"
  by simp

lemma i32_MIN_iff: "x = i32_MIN \<longleftrightarrow> sint x = - (2 ^ 31)" for x :: i32
  by (metis signed_word_eqI sint_i32_MIN)

lemma sint_neg_i32: "x \<noteq> i32_MIN \<Longrightarrow> sint (- x) = - sint x" for x :: i32
proof -
  assume "x \<noteq> i32_MIN"
  then have "- (2 ^ 31) < sint x"
    using sint_i32_range(1) [of x] i32_MIN_iff [of x] by linarith
  then show ?thesis
    using sint_i32_range(2) [of x]
    by (simp add: signed_take_bit_int_eq_self sint_word_ariths)
qed

lemma sint_dec_i32: "x \<noteq> i32_MIN \<Longrightarrow> sint (x - 1) = sint x - 1" for x :: i32
proof -
  assume "x \<noteq> i32_MIN"
  then have "- (2 ^ 31) < sint x"
    using sint_i32_range(1) [of x] i32_MIN_iff [of x] by linarith
  then show ?thesis
    using sint_i32_range(2) [of x]
    by (simp add: signed_take_bit_int_eq_self sint_word_ariths)
qed

section \<open>The state-and-panic monad\<close>

type_synonym ('w, 'a) io = "'w \<Rightarrow> 'a outcome \<times> 'w"

definition ret :: "'a \<Rightarrow> ('w, 'a) io" where
  "ret a = (\<lambda>w. (Val a, w))"

definition panic_with :: "panic \<Rightarrow> ('w, 'a) io" where
  "panic_with p = (\<lambda>w. (Panic p, w))"

definition lift_outcome :: "'a outcome \<Rightarrow> ('w, 'a) io" where
  "lift_outcome x = (\<lambda>w. (x, w))"

definition io_bind :: "('w, 'a) io \<Rightarrow> ('a \<Rightarrow> ('w, 'b) io) \<Rightarrow> ('w, 'b) io" where
  "io_bind m f = (\<lambda>w. case m w of (Val a, w') \<Rightarrow> f a w' | (Panic p, w') \<Rightarrow> (Panic p, w'))"

text \<open>The \<^verbatim>\<open>?\<close> operator: an error leaves the function at once.\<close>

definition try_bind :: "('w, 'e + 'a) io \<Rightarrow> ('a \<Rightarrow> ('w, 'e + 'b) io) \<Rightarrow> ('w, 'e + 'b) io" where
  "try_bind m f = io_bind m (\<lambda>r. case r of Inl e \<Rightarrow> ret (Inl e) | Inr a \<Rightarrow> f a)"

lemma io_run [simp, io_simps]:
  "ret a w = (Val a, w)"
  "panic_with p w = (Panic p, w)"
  "lift_outcome x w = (x, w)"
  by (simp_all add: ret_def panic_with_def lift_outcome_def)

lemma io_bind_run [io_simps]:
  "io_bind m f w = (case m w of (Val a, w') \<Rightarrow> f a w' | (Panic p, w') \<Rightarrow> (Panic p, w'))"
  by (simp add: io_bind_def)

lemma try_bind_run [io_simps]:
  "try_bind m f w =
     (case m w of (Val (Inr a), w') \<Rightarrow> f a w'
      | (Val (Inl e), w') \<Rightarrow> (Val (Inl e), w') | (Panic p, w') \<Rightarrow> (Panic p, w'))"
  by (simp add: try_bind_def io_bind_def split: prod.split outcome.split sum.split)

lemma io_bind_ret [simp]: "io_bind (ret a) f = f a" "io_bind m ret = m"
  by (auto simp: io_bind_def fun_eq_iff split: prod.split outcome.split)

lemma io_bind_assoc: "io_bind (io_bind m f) g = io_bind m (\<lambda>x. io_bind (f x) g)"
  by (auto simp: io_bind_def fun_eq_iff split: prod.split outcome.split)

lemma io_bind_ValE:
  assumes "io_bind m f w = (Val b, w')"
  obtains a w1 where "m w = (Val a, w1)" "f a w1 = (Val b, w')"
  using assms by (auto simp: io_bind_def split: prod.splits outcome.splits)

lemma try_bind_InrE:
  assumes "try_bind m f w = (Val (Inr b), w')"
  obtains a w1 where "m w = (Val (Inr a), w1)" "f a w1 = (Val (Inr b), w')"
  using assms by (auto simp: try_bind_run split: prod.splits outcome.splits sum.splits)

section \<open>Transition systems\<close>

text \<open>
  Interleaving models are step relations; the states they reach from a start state are the
  least set closed under steps.
\<close>

inductive reachable :: "('s \<Rightarrow> bool) \<Rightarrow> ('s \<Rightarrow> 's \<Rightarrow> bool) \<Rightarrow> 's \<Rightarrow> bool"
  for start step where
  reach_start: "start s \<Longrightarrow> reachable start step s"
| reach_step: "reachable start step s \<Longrightarrow> step s t \<Longrightarrow> reachable start step t"

text \<open>A state in which no component can move.\<close>

definition stuck :: "('s \<Rightarrow> 's \<Rightarrow> bool) \<Rightarrow> 's \<Rightarrow> bool" where
  "stuck step s \<longleftrightarrow> (\<forall>t. \<not> step s t)"

lemma stuckD: "stuck step s \<Longrightarrow> step s t \<Longrightarrow> P"
  by (simp add: stuck_def)

text \<open>
  The contract of an inductive invariant: every component that is modelled as a step
  relation interprets this locale with its own start states, steps and invariant.
\<close>

locale inductive_invariant =
  fixes start :: "'s \<Rightarrow> bool" and step :: "'s \<Rightarrow> 's \<Rightarrow> bool" and inv :: "'s \<Rightarrow> bool"
  assumes inv_start: "start s \<Longrightarrow> inv s"
    and inv_step: "inv s \<Longrightarrow> step s t \<Longrightarrow> inv t"
begin

lemma reachable_inv: "reachable start step s \<Longrightarrow> inv s"
  by (induction rule: reachable.induct) (auto intro: inv_start inv_step)

lemma reachable_stuck: "reachable start step s \<Longrightarrow> (\<And>s. inv s \<Longrightarrow> \<not> P s \<Longrightarrow> \<exists>t. step s t)
    \<Longrightarrow> stuck step s \<Longrightarrow> P s"
  using reachable_inv by (auto simp: stuck_def)

end

text \<open>A run is a sequence of steps; what a run reaches from a reachable state is reachable.\<close>

lemma reachable_run: "step\<^sup>*\<^sup>* s t \<Longrightarrow> reachable start step s \<Longrightarrow> reachable start step t"
  by (induction rule: rtranclp_induct) (auto intro: reach_step)

text \<open>
  The contract of a refinement between code and a step system: each operation of the code, seen
  through the relation, is a run of the step system. What holds in the reachable states of
  the step system then holds in the states the code reaches.
\<close>

locale step_refinement =
  fixes cstart :: "'c \<Rightarrow> bool" and cstep :: "'c \<Rightarrow> 'c \<Rightarrow> bool"
    and astart :: "'s \<Rightarrow> bool" and astep :: "'s \<Rightarrow> 's \<Rightarrow> bool" and rel :: "'c \<Rightarrow> 's \<Rightarrow> bool"
  assumes sim_start: "cstart c \<Longrightarrow> \<exists>s. astart s \<and> rel c s"
    and sim_step: "rel c s \<Longrightarrow> cstep c c' \<Longrightarrow> \<exists>s'. astep\<^sup>*\<^sup>* s s' \<and> rel c' s'"
begin

lemma reachable_sim: "reachable cstart cstep c \<Longrightarrow> \<exists>s. reachable astart astep s \<and> rel c s"
proof (induction rule: reachable.induct)
  case (reach_start c)
  then show ?case using sim_start by (blast intro: reachable.reach_start)
next
  case (reach_step c d)
  then show ?case using sim_step by (blast intro: reachable_run)
qed

end

end
