(* ===== verification/Err.thy ===== *)
theory Err
  imports Bunny_Prelude
begin

text \<open>
  \<^verbatim>\<open>src/err.rs\<close>: the error type of the crate, the table that turns the socket service's
  negative codes into \<^verbatim>\<open>errno\<close> values, and \<^verbatim>\<open>net_try\<close>. The constants of the \<^verbatim>\<open>libc\<close>
  crate are an argument: \<open>libc name\<close> is the value of \<^verbatim>\<open>libc::name\<close> on the target.
\<close>

section \<open>Errors\<close>

text \<open>
  \<^verbatim>\<open>ctru::error::Error\<close> is an enum of another crate. The source builds and matches the
  variants \<^verbatim>\<open>Os\<close>, \<^verbatim>\<open>Libc\<close> and \<^verbatim>\<open>Other\<close>; whatever else it has is the type parameter.
\<close>

datatype (plugins del: size) 'x ctru_error = Os i32 | CtruLibc string | CtruOther string | CtruRest 'x

datatype (plugins del: size) 'x bunny_error = Ctru "'x ctru_error" | Libc i32 | Other string

type_synonym ('x, 'a) bunny_result = "'x bunny_error + 'a"

text \<open>\<^verbatim>\<open>From<ctru::error::Error> for BunnyError\<close>.\<close>

definition bunny_from_ctru :: "'x ctru_error \<Rightarrow> 'x bunny_error" where
  "bunny_from_ctru value = Ctru value"

text \<open>
  \<^verbatim>\<open>From<BunnyError> for ctru::error::Error\<close>; \<open>strerror\<close> is the C library's function with
  its lossy conversion to a Rust string.
\<close>

definition ctru_from_bunny :: "(i32 \<Rightarrow> string) \<Rightarrow> 'x bunny_error \<Rightarrow> 'x ctru_error" where
  "ctru_from_bunny strerror value =
     (case value of
        Ctru error \<Rightarrow> error
      | Libc libc_no \<Rightarrow> CtruLibc (strerror libc_no)
      | Other v \<Rightarrow> CtruOther v)"

text \<open>\<^verbatim>\<open>Display for BunnyError\<close>; \<open>ctru_fmt\<close> is the other crate's own \<^verbatim>\<open>Display\<close>.\<close>

definition BunnyError_fmt :: "('x ctru_error \<Rightarrow> string) \<Rightarrow> (i32 \<Rightarrow> string) \<Rightarrow> 'x bunny_error \<Rightarrow> string" where
  "BunnyError_fmt ctru_fmt strerror self =
     (case self of
        Ctru error \<Rightarrow> ctru_fmt error
      | Libc libc_no \<Rightarrow> ''libc: '' @ strerror libc_no
      | Other v \<Rightarrow> v)"

text \<open>\<^verbatim>\<open>std::error::Error\<close> and \<^verbatim>\<open>embedded_io_async::Error\<close> for \<^verbatim>\<open>BunnyError\<close>.\<close>

definition BunnyError_source :: "'x bunny_error \<Rightarrow> 'x bunny_error option" where
  "BunnyError_source self = None"

definition BunnyError_cause :: "'x bunny_error \<Rightarrow> 'x bunny_error option" where
  "BunnyError_cause self = BunnyError_source self"

definition BunnyError_description :: "'x bunny_error \<Rightarrow> string" where
  "BunnyError_description self = ''description() is deprecated; use Display''"

lemma ctru_bunny_ctru [simp]: "ctru_from_bunny strerror (bunny_from_ctru e) = e"
  by (simp add: bunny_from_ctru_def ctru_from_bunny_def)

section \<open>Error codes of the socket service\<close>

definition ERROR_MAP :: "(string \<Rightarrow> i32) \<Rightarrow> i32 list" where
  "ERROR_MAP libc =
    [0, libc ''E2BIG'', libc ''EACCES'', libc ''EADDRINUSE'',
     libc ''EADDRNOTAVAIL'', libc ''EAFNOSUPPORT'', libc ''EAGAIN'', libc ''EALREADY'',
     libc ''EBADF'', libc ''EBADMSG'', libc ''EBUSY'', libc ''ECANCELED'',
     libc ''ECHILD'', libc ''ECONNABORTED'', libc ''ECONNREFUSED'', libc ''ECONNRESET'',
     libc ''EDEADLK'', libc ''EDESTADDRREQ'', libc ''EDOM'', libc ''EDQUOT'',
     libc ''EEXIST'', libc ''EFAULT'', libc ''EFBIG'', libc ''EHOSTUNREACH'',
     libc ''EIDRM'', libc ''EILSEQ'', libc ''EINPROGRESS'', libc ''EINTR'',
     libc ''EINVAL'', libc ''EIO'', libc ''EISCONN'', libc ''EISDIR'',
     libc ''ELOOP'', libc ''EMFILE'', libc ''EMLINK'', libc ''EMSGSIZE'',
     libc ''EMULTIHOP'', libc ''ENAMETOOLONG'', libc ''ENETDOWN'', libc ''ENETRESET'',
     libc ''ENETUNREACH'', libc ''ENFILE'', libc ''ENOBUFS'', libc ''ENODATA'',
     libc ''ENODEV'', libc ''ENOENT'', libc ''ENOEXEC'', libc ''ENOLCK'',
     libc ''ENOLINK'', libc ''ENOMEM'', libc ''ENOMSG'', libc ''ENOPROTOOPT'',
     libc ''ENOSPC'', libc ''ENOSR'', libc ''ENOSTR'', libc ''ENOSYS'',
     libc ''ENOTCONN'', libc ''ENOTDIR'', libc ''ENOTEMPTY'', libc ''ENOTSOCK'',
     libc ''ENOTSUP'', libc ''ENOTTY'', libc ''ENXIO'', libc ''EOPNOTSUPP'',
     libc ''EOVERFLOW'', libc ''EPERM'', libc ''EPIPE'', libc ''EPROTO'',
     libc ''EPROTONOSUPPORT'', libc ''EPROTOTYPE'', libc ''ERANGE'', libc ''EROFS'',
     libc ''ESPIPE'', libc ''ESRCH'', libc ''ESTALE'', libc ''ETIME'',
     libc ''ETIMEDOUT'']"

lemma length_ERROR_MAP [simp]: "length (ERROR_MAP libc) = 77"
  by (simp add: ERROR_MAP_def)

text \<open>
  \<^verbatim>\<open>net_try\<close>: a non-negative code is success; a negative one is looked up by its absolute
  value, and a code beyond the table reaches \<^verbatim>\<open>todo!\<close>.
\<close>

definition net_try :: "(string \<Rightarrow> i32) \<Rightarrow> i32 \<Rightarrow> ('x, unit) bunny_result outcome" where
  "net_try libc ret_val =
     (if 0 \<le> sint ret_val then Val (Inr ())
      else case neg_i32 ret_val of
             Panic p \<Rightarrow> Panic p
           | Val r \<Rightarrow>
               (if unat r < length (ERROR_MAP libc)
                then Val (Inl (Libc (ERROR_MAP libc ! unat r)))
                else Panic Todo))"

lemma neg_i32_unat:
  assumes "sint x < 0" "x \<noteq> i32_MIN"
  shows "unat (- x) = nat (- sint x)"
proof -
  have "sint (- x) = - sint x"
    using assms(2) by (rule sint_neg_i32)
  moreover have "0 \<le> sint (- x)"
    using assms(1) calculation by simp
  then have "uint (- x) = sint (- x)"
    using sint_i32_range(2) [of "- x"] by (simp add: uint_sint take_bit_int_eq_self)
  ultimately show ?thesis
    by (metis unat_eq_nat_uint)
qed

lemma net_try_ok: "0 \<le> sint c \<Longrightarrow> net_try libc c = Val (Inr ())"
  by (simp add: net_try_def)

lemma net_try_known:
  assumes "-77 < sint c" "sint c < 0"
  shows "net_try libc c = Val (Inl (Libc (ERROR_MAP libc ! nat (- sint c))))"
proof -
  have "c \<noteq> i32_MIN"
    using assms(1) by (auto simp: i32_MIN_iff)
  with assms show ?thesis
    by (simp add: net_try_def neg_i32_def neg_i32_unat nat_less_iff)
qed

lemma net_try_unknown:
  assumes "sint c \<le> -77"
  shows "net_try libc c = Panic (if c = i32_MIN then Overflow else Todo)"
proof -
  have "sint c < 0" using assms by simp
  with assms show ?thesis
    by (cases "c = i32_MIN") (simp_all add: net_try_def neg_i32_def neg_i32_unat nat_less_iff)
qed

lemma net_try_Inr_iff: "net_try libc c = Val (Inr ()) \<longleftrightarrow> 0 \<le> sint c"
  by (cases "sint c \<le> -77"; cases "0 \<le> sint c")
     (simp_all add: net_try_ok net_try_known net_try_unknown)

section \<open>All codes\<close>

text \<open>\<^verbatim>\<open>net_try\<close> on every 32-bit code. A non-negative code is success, a code from -76 to -1 is the
  \<^verbatim>\<open>libc\<close> error at that place of the table, and any other code makes it panic, the smallest one
  by overflow of the negation.\<close>

lemma net_try_total:
  "net_try libc c =
     (if 0 \<le> sint c then Val (Inr ())
      else if -77 < sint c then Val (Inl (Libc (ERROR_MAP libc ! nat (- sint c))))
      else Panic (if sint c = - (2 ^ 31) then Overflow else Todo))"
  using net_try_ok [of c libc] net_try_known [of c libc] net_try_unknown [of c libc] i32_MIN_iff [of c]
  by auto

end
