(* ===== verification/Externals.thy ===== *)
theory Externals
  imports Err
begin

text \<open>
  The interfaces of code that is not in the repository, each as a record of functions that
  the model takes as an argument, with the documented behaviour the code relies on as a
  named predicate. The predicates are hypotheses of the properties that need them. A concrete
  record satisfying each predicate is given beside it and is used only to show that the
  hypotheses can hold.
\<close>

section \<open>The map of the litemap crate\<close>

record ('m, 'k, 'v) lite_map =
  lm_new :: "'m"
  lm_get :: "'m \<Rightarrow> 'k \<Rightarrow> 'v option"
  lm_insert :: "'k \<Rightarrow> 'v \<Rightarrow> 'm \<Rightarrow> 'm"
  lm_remove :: "'k \<Rightarrow> 'm \<Rightarrow> 'v option \<times> 'm"
  lm_set :: "'k \<Rightarrow> 'v \<Rightarrow> 'm \<Rightarrow> 'm"            \<comment> \<open>a write through \<^verbatim>\<open>get_mut\<close>\<close>
  lm_entry_or :: "'k \<Rightarrow> 'v \<Rightarrow> 'm \<Rightarrow> 'm"       \<comment> \<open>\<^verbatim>\<open>entry(k).or_insert(v)\<close>\<close>

definition lite_map_laws :: "('m, 'k, 'v) lite_map \<Rightarrow> bool" where
  "lite_map_laws L \<longleftrightarrow>
     lm_get L (lm_new L) = Map.empty \<and>
     (\<forall>k v m. lm_get L (lm_insert L k v m) = (lm_get L m)(k \<mapsto> v)) \<and>
     (\<forall>k m. fst (lm_remove L k m) = lm_get L m k \<and>
            lm_get L (snd (lm_remove L k m)) = (lm_get L m)(k := None)) \<and>
     (\<forall>k v m. lm_get L m k \<noteq> None \<longrightarrow> lm_get L (lm_set L k v m) = (lm_get L m)(k \<mapsto> v)) \<and>
     (\<forall>k v m. lm_get L (lm_entry_or L k v m) =
                (if lm_get L m k = None then (lm_get L m)(k \<mapsto> v) else lm_get L m))"

lemma lite_map_lawsD:
  assumes "lite_map_laws L"
  shows "lm_get L (lm_new L) = Map.empty"
    and "lm_get L (lm_insert L k v m) = (lm_get L m)(k \<mapsto> v)"
    and "fst (lm_remove L k m) = lm_get L m k"
    and "lm_get L (snd (lm_remove L k m)) = (lm_get L m)(k := None)"
    and "lm_get L m k \<noteq> None \<Longrightarrow> lm_get L (lm_set L k v m) = (lm_get L m)(k \<mapsto> v)"
    and "lm_get L (lm_entry_or L k v m) =
           (if lm_get L m k = None then (lm_get L m)(k \<mapsto> v) else lm_get L m)"
  using assms by (simp_all add: lite_map_laws_def)

definition fun_lite_map :: "('k \<rightharpoonup> 'v, 'k, 'v) lite_map" where
  "fun_lite_map = \<lparr> lm_new = Map.empty, lm_get = (\<lambda>m. m), lm_insert = (\<lambda>k v m. m(k \<mapsto> v)),
     lm_remove = (\<lambda>k m. (m k, m(k := None))), lm_set = (\<lambda>k v m. m(k \<mapsto> v)),
     lm_entry_or = (\<lambda>k v m. if m k = None then m(k \<mapsto> v) else m) \<rparr>"

lemma fun_lite_map_laws: "lite_map_laws fun_lite_map"
  by (simp add: lite_map_laws_def fun_lite_map_def)

section \<open>The vector of the smallvec crate\<close>

record ('v, 'a) small_vec =
  sv_new :: "'v"
  sv_push :: "'a \<Rightarrow> 'v \<Rightarrow> 'v"
  sv_is_empty :: "'v \<Rightarrow> bool"
  sv_remove :: "nat \<Rightarrow> 'v \<Rightarrow> 'a \<times> 'v"
  sv_list :: "'v \<Rightarrow> 'a list"                  \<comment> \<open>the elements, in order\<close>

definition small_vec_laws :: "('v, 'a) small_vec \<Rightarrow> bool" where
  "small_vec_laws V \<longleftrightarrow>
     sv_list V (sv_new V) = [] \<and>
     (\<forall>a v. sv_list V (sv_push V a v) = sv_list V v @ [a]) \<and>
     (\<forall>v. sv_is_empty V v = (sv_list V v = [])) \<and>
     (\<forall>i v. i < length (sv_list V v) \<longrightarrow>
        fst (sv_remove V i v) = sv_list V v ! i \<and>
        sv_list V (snd (sv_remove V i v)) = take i (sv_list V v) @ drop (Suc i) (sv_list V v))"

lemma small_vec_lawsD:
  assumes "small_vec_laws V"
  shows "sv_list V (sv_new V) = []"
    and "sv_list V (sv_push V a v) = sv_list V v @ [a]"
    and "sv_is_empty V v = (sv_list V v = [])"
    and "sv_list V v = x # xs \<Longrightarrow> fst (sv_remove V 0 v) = x"
    and "sv_list V v = x # xs \<Longrightarrow> sv_list V (snd (sv_remove V 0 v)) = xs"
  using assms by (auto simp: small_vec_laws_def)

definition list_small_vec :: "('a list, 'a) small_vec" where
  "list_small_vec = \<lparr> sv_new = [], sv_push = (\<lambda>a v. v @ [a]), sv_is_empty = (\<lambda>v. v = []),
     sv_remove = (\<lambda>i v. (v ! i, take i v @ drop (Suc i) v)), sv_list = (\<lambda>v. v) \<rparr>"

lemma list_small_vec_laws: "small_vec_laws list_small_vec"
  by (simp add: small_vec_laws_def list_small_vec_def)

section \<open>Kernel semaphores\<close>

text \<open>
  The system calls on semaphores, over an opaque kernel state. A wait that would block in the
  given state is \<^const>\<open>None\<close>; otherwise it returns its result code (and, for the wait on
  several handles, the index of the handle that was signalled).
\<close>

record 'k kernel =
  svcCreateSemaphore :: "i32 \<Rightarrow> i32 \<Rightarrow> 'k \<Rightarrow> (i32 \<times> u32) \<times> 'k"
  svcReleaseSemaphore :: "u32 \<Rightarrow> i32 \<Rightarrow> 'k \<Rightarrow> (i32 \<times> i32) \<times> 'k"
  svcWaitSynchronization :: "u32 \<Rightarrow> i64 \<Rightarrow> 'k \<Rightarrow> (i32 \<times> 'k) option"
  svcWaitSynchronizationN :: "u32 list \<Rightarrow> bool \<Rightarrow> i64 \<Rightarrow> 'k \<Rightarrow> ((i32 \<times> i32) \<times> 'k) option"
  sem_count :: "'k \<Rightarrow> u32 \<Rightarrow> nat"                \<comment> \<open>the permits a semaphore holds\<close>
  sem_max :: "'k \<Rightarrow> u32 \<Rightarrow> nat"                  \<comment> \<open>its maximum; 0 where there is none\<close>

definition release_law :: "'k kernel \<Rightarrow> bool" where
  "release_law K \<longleftrightarrow> (\<forall>h k.
     sem_count K (snd (svcReleaseSemaphore K h 1 k)) =
       (sem_count K k)(h := (if sem_count K k h < sem_max K k h
                             then Suc (sem_count K k h) else sem_count K k h)) \<and>
     sem_max K (snd (svcReleaseSemaphore K h 1 k)) = sem_max K k)"

definition wait_law :: "'k kernel \<Rightarrow> bool" where
  "wait_law K \<longleftrightarrow> (\<forall>h k. case svcWaitSynchronization K h i64_MAX k of
       None \<Rightarrow> sem_count K k h = 0
     | Some (r, k') \<Rightarrow> r = 0 \<and> 0 < sem_count K k h \<and>
         sem_count K k' = (sem_count K k)(h := sem_count K k h - 1) \<and> sem_max K k' = sem_max K k)"

definition wait_any_law :: "'k kernel \<Rightarrow> bool" where
  "wait_any_law K \<longleftrightarrow> (\<forall>h0 h1 k. case svcWaitSynchronizationN K [h0, h1] False i64_MAX k of
       None \<Rightarrow> sem_count K k h0 = 0 \<and> sem_count K k h1 = 0
     | Some ((r, i), k') \<Rightarrow> (i = 0 \<or> i = 1) \<and>
         (let h = (if i = 0 then h0 else h1) in
          0 < sem_count K k h \<and>
          sem_count K k' = (sem_count K k)(h := sem_count K k h - 1) \<and> sem_max K k' = sem_max K k))"

definition create_law :: "'k kernel \<Rightarrow> bool" where
  "create_law K \<longleftrightarrow> (\<forall>c m k. case svcCreateSemaphore K c m k of ((r, h), k') \<Rightarrow>
     r = 0 \<and> 0 < sint m \<longrightarrow>
     sem_max K k h = 0 \<and> sem_count K k' = (sem_count K k)(h := nat (sint c)) \<and>
     sem_max K k' = (sem_max K k)(h := nat (sint m)))"

lemma create_lawD:
  assumes "create_law K" "svcCreateSemaphore K c m k = ((0, h), k')" "0 < sint m"
  shows "sem_max K k h = 0" "sem_count K k' = (sem_count K k)(h := nat (sint c))"
    "sem_max K k' = (sem_max K k)(h := nat (sint m))"
  using assms(1) [unfolded create_law_def, THEN spec, of c, THEN spec, of m, THEN spec, of k] assms(2,3)
  by simp_all

lemma release_lawD:
  assumes "release_law K"
  shows "sem_count K (snd (svcReleaseSemaphore K h 1 k)) =
       (sem_count K k)(h := (if sem_count K k h < sem_max K k h
                             then Suc (sem_count K k h) else sem_count K k h))"
    and "sem_max K (snd (svcReleaseSemaphore K h 1 k)) = sem_max K k"
  using assms by (simp_all add: release_law_def)

lemma release_positive:
  assumes "release_law K" "0 < sem_max K k h"
  shows "0 < sem_count K (snd (svcReleaseSemaphore K h 1 k)) h"
  using assms by (auto simp: release_lawD)

lemma wait_law_None: "wait_law K \<Longrightarrow> svcWaitSynchronization K h i64_MAX k = None \<Longrightarrow> sem_count K k h = 0"
  unfolding wait_law_def by (drule spec [of _ h], drule spec [of _ k]) simp

lemma wait_law_Some:
  assumes "wait_law K" "svcWaitSynchronization K h i64_MAX k = Some (r, k')"
  shows "r = 0" "0 < sem_count K k h" "sem_count K k' = (sem_count K k)(h := sem_count K k h - 1)"
    "sem_max K k' = sem_max K k"
  using assms(1) [unfolded wait_law_def, THEN spec, of h, THEN spec, of k] assms(2)
  by simp_all

lemma wait_law_returns: "wait_law K \<Longrightarrow> 0 < sem_count K k h \<Longrightarrow> svcWaitSynchronization K h i64_MAX k \<noteq> None"
  using wait_law_None by fastforce

lemma wait_any_law_None:
  assumes "wait_any_law K" "svcWaitSynchronizationN K [h0, h1] False i64_MAX k = None"
  shows "sem_count K k h0 = 0" "sem_count K k h1 = 0"
  using assms(1) [unfolded wait_any_law_def, THEN spec, of h0, THEN spec, of h1, THEN spec, of k] assms(2)
  by simp_all

lemma wait_any_law_Some:
  assumes "wait_any_law K" "svcWaitSynchronizationN K [h0, h1] False i64_MAX k = Some ((r, i), k')"
  shows "i = 0 \<or> i = 1"
    and "sem_count K k' = (sem_count K k)((if i = 0 then h0 else h1) :=
           sem_count K k (if i = 0 then h0 else h1) - 1)"
    and "sem_max K k' = sem_max K k"
    and "0 < sem_count K k (if i = 0 then h0 else h1)"
  using assms(1) [unfolded wait_any_law_def, THEN spec, of h0, THEN spec, of h1, THEN spec, of k] assms(2)
  by (simp_all add: Let_def)

text \<open>A kernel that satisfies the laws: handles are numbered, each with a count and a maximum.\<close>

record sim_kernel_state =
  sk_next :: u32
  sk_count :: "u32 \<Rightarrow> nat"
  sk_max :: "u32 \<Rightarrow> nat"

definition sk_boot :: sim_kernel_state where
  "sk_boot = \<lparr> sk_next = 0, sk_count = (\<lambda>_. 0), sk_max = (\<lambda>_. 0) \<rparr>"

definition sk_take :: "u32 \<Rightarrow> sim_kernel_state \<Rightarrow> sim_kernel_state" where
  "sk_take h k = k\<lparr>sk_count := (sk_count k)(h := sk_count k h - 1)\<rparr>"

definition sim_kernel :: "sim_kernel_state kernel" where
  "sim_kernel = \<lparr>
     svcCreateSemaphore = (\<lambda>c m k. ((if sk_max k (sk_next k) = 0 then 0 else 1, sk_next k),
        k\<lparr>sk_next := sk_next k + 1, sk_count := (sk_count k)(sk_next k := nat (sint c)),
          sk_max := (sk_max k)(sk_next k := nat (sint m))\<rparr>)),
     svcReleaseSemaphore = (\<lambda>h n k. ((0, of_nat (sk_count k h)),
        if sk_count k h < sk_max k h then k\<lparr>sk_count := (sk_count k)(h := Suc (sk_count k h))\<rparr> else k)),
     svcWaitSynchronization = (\<lambda>h t k. if 0 < sk_count k h then Some (0, sk_take h k) else None),
     svcWaitSynchronizationN = (\<lambda>hs all t k.
        if 0 < sk_count k (hs ! 0) then Some ((0, 0), sk_take (hs ! 0) k)
        else if 0 < sk_count k (hs ! 1) then Some ((0, 1), sk_take (hs ! 1) k) else None),
     sem_count = sk_count, sem_max = sk_max \<rparr>"

lemma sim_kernel_laws:
  "release_law sim_kernel" "wait_law sim_kernel" "wait_any_law sim_kernel" "create_law sim_kernel"
  by (simp_all add: release_law_def wait_law_def wait_any_law_def create_law_def sim_kernel_def sk_take_def)

section \<open>Result codes of the system library\<close>

text \<open>
  \<^verbatim>\<open>R_FAILED\<close>, \<^verbatim>\<open>R_SUMMARY\<close> and \<^verbatim>\<open>RS_SUCCESS\<close> of \<^verbatim>\<open>ctru_sys\<close>, and the macro \<^verbatim>\<open>ds_try!\<close> of
  \<^verbatim>\<open>ds_ipc\<close>: \<^const>\<open>None\<close> where the macro continues, \<^const>\<open>Some\<close> of the error it returns.
\<close>

record 'x ctru =
  R_FAILED :: "i32 \<Rightarrow> bool"
  R_SUMMARY :: "i32 \<Rightarrow> i32"
  RS_SUCCESS :: "i32"
  ds_try :: "i32 \<Rightarrow> 'x bunny_error option"

text \<open>The macro lets 0 pass and reports a refused code as an OS error that carries the code.\<close>

definition ds_try_law :: "'x ctru \<Rightarrow> bool" where
  "ds_try_law C \<longleftrightarrow> ds_try C 0 = None \<and>
     (\<forall>r e. ds_try C r = Some e \<longrightarrow> e = Ctru (Os r))"

text \<open>A code the macro refuses is one the result-code predicates see as a failure.\<close>

definition result_code_law :: "'x ctru \<Rightarrow> bool" where
  "result_code_law C \<longleftrightarrow> \<not> R_FAILED C 0 \<and> R_SUMMARY C 0 = RS_SUCCESS C \<and>
     (\<forall>r. ds_try C r \<noteq> None \<longrightarrow> R_FAILED C r \<or> R_SUMMARY C r \<noteq> RS_SUCCESS C)"

definition ds_try_io :: "'x ctru \<Rightarrow> i32 \<Rightarrow> ('w, 'x bunny_error + unit) io" where
  "ds_try_io C r = ret (case ds_try C r of None \<Rightarrow> Inr () | Some e \<Rightarrow> Inl e)"

text \<open>The codes of libctru: negative is failed, bits 21 to 26 are the summary, 0 is success.\<close>

definition sim_ctru :: "'x ctru" where
  "sim_ctru = \<lparr> R_FAILED = (\<lambda>r. sint r < 0), R_SUMMARY = (\<lambda>r. drop_bit 21 r mod 64),
     RS_SUCCESS = 0, ds_try = (\<lambda>r. if sint r < 0 then Some (Ctru (Os r)) else None) \<rparr>"

lemma sim_ctru_laws: "ds_try_law sim_ctru" "result_code_law sim_ctru"
  by (simp_all add: ds_try_law_def result_code_law_def sim_ctru_def)

section \<open>Ports and sessions of ds\_ipc\<close>

text \<open>
  A port makes sessions, and a session answers requests. What the service writes into the
  buffers of a request is part of the reply type of the session at hand.
\<close>

record ('k, 'x) ipc_port =
  make_session :: "u32 \<Rightarrow> 'k \<Rightarrow> ('x ctru_error + u32) \<times> 'k"

record ('q, 'r, 'k, 'x) ipc_session =
  ipc_request :: "u32 \<Rightarrow> 'q \<Rightarrow> 'k \<Rightarrow> ('x ctru_error + 'r) \<times> 'k"

text \<open>The part of a server that its handler calls: one more handle to wait on.\<close>

record 's ipc_server =
  add_handle_to_list :: "u32 \<Rightarrow> 's \<Rightarrow> 's"

end
