(* ===== verification/Sync_Queue.thy ===== *)
theory Sync_Queue
  imports Externals
begin

text \<open>
  \<^verbatim>\<open>src/ctru_utils.rs\<close>: the counting semaphore and the event built on libctru's light
  primitives, and \<^verbatim>\<open>SyncQueue\<close>, the vector with an OS semaphore through which every
  thread hands work to the executor, to the file workers and to the socket workers.
  The last section models producers and the workers of a pool step by step.
\<close>

section \<open>Semaphore and WaitSignal\<close>

text \<open>
  libctru's light semaphores and events, over opaque values: an acquire or a wait that would
  block is \<^const>\<open>None\<close>.
\<close>

record ('s, 'e) light =
  LightSemaphore_zero :: "'s"                      \<comment> \<open>the struct with its three fields 0\<close>
  LightSemaphore_Init :: "'s \<Rightarrow> 16 word \<Rightarrow> 16 word \<Rightarrow> 's"
  LightSemaphore_Acquire :: "'s \<Rightarrow> i32 \<Rightarrow> 's option"
  LightSemaphore_Release :: "'s \<Rightarrow> i32 \<Rightarrow> 's"
  light_count :: "'s \<Rightarrow> int"                       \<comment> \<open>the permits it holds\<close>
  LightEvent_zero :: "'e"
  LightEvent_Init :: "'e \<Rightarrow> 'e"                    \<comment> \<open>with \<^verbatim>\<open>RESET_ONESHOT\<close>\<close>
  LightEvent_Wait :: "'e \<Rightarrow> 'e option"
  LightEvent_Signal :: "'e \<Rightarrow> 'e"

text \<open>Documented: the initial count is what was asked for, an acquire takes permits and blocks
  while there are too few, a release gives them back.\<close>

definition light_semaphore_law :: "('s, 'e, 'z) light_scheme \<Rightarrow> bool" where
  "light_semaphore_law L \<longleftrightarrow>
     (\<forall>s c m. light_count L (LightSemaphore_Init L s c m) = sint c) \<and>
     (\<forall>s n. 0 \<le> sint n \<longrightarrow> (case LightSemaphore_Acquire L s n of
          None \<Rightarrow> light_count L s < sint n
        | Some s' \<Rightarrow> sint n \<le> light_count L s \<and> light_count L s' = light_count L s - sint n)) \<and>
     (\<forall>s n. 0 \<le> sint n \<longrightarrow> light_count L (LightSemaphore_Release L s n) = light_count L s + sint n)"

text \<open>Documented: a one-shot event lets exactly one wait pass per signal.\<close>

definition light_event_law :: "('s, 'e, 'z) light_scheme \<Rightarrow> bool" where
  "light_event_law L \<longleftrightarrow>
     (\<forall>e. LightEvent_Wait L (LightEvent_Init L e) = None) \<and>
     (\<forall>e. \<exists>e'. LightEvent_Wait L (LightEvent_Signal L e) = Some e' \<and> LightEvent_Wait L e' = None)"

record 's semaphore =
  semaphore :: 's

definition Semaphore_new :: "('s, 'e, 'z) light_scheme \<Rightarrow> 16 word \<Rightarrow> 's semaphore" where
  "Semaphore_new L max_count = \<lparr> semaphore = LightSemaphore_Init L (LightSemaphore_zero L) 0 max_count \<rparr>"

definition Semaphore_acquire_permits ::
  "('s, 'e, 'z) light_scheme \<Rightarrow> 's semaphore \<Rightarrow> i32 \<Rightarrow> (i32 \<times> 's semaphore) option" where
  "Semaphore_acquire_permits L self permits =
     (case LightSemaphore_Acquire L (semaphore self) permits of
        None \<Rightarrow> None
      | Some s \<Rightarrow> Some (permits, self\<lparr>semaphore := s\<rparr>))"

definition Semaphore_add_permits :: "('s, 'e, 'z) light_scheme \<Rightarrow> 's semaphore \<Rightarrow> i32 \<Rightarrow> 's semaphore" where
  "Semaphore_add_permits L self permits =
     self\<lparr>semaphore := LightSemaphore_Release L (semaphore self) permits\<rparr>"

text \<open>A permit is the number of permits it stands for.\<close>

definition SemaphorePermit_release :: "('s, 'e, 'z) light_scheme \<Rightarrow> 's semaphore \<Rightarrow> i32 \<Rightarrow> 's semaphore" where
  "SemaphorePermit_release L sem permit = Semaphore_add_permits L sem permit"

record 'e wait_signal =
  event :: 'e

definition WaitSignal_new :: "('s, 'e, 'z) light_scheme \<Rightarrow> 'e wait_signal" where
  "WaitSignal_new L = \<lparr> event = LightEvent_Init L (LightEvent_zero L) \<rparr>"

definition WaitSignal_wait :: "('s, 'e, 'z) light_scheme \<Rightarrow> 'e wait_signal \<Rightarrow> 'e wait_signal option" where
  "WaitSignal_wait L self = map_option (\<lambda>e. self\<lparr>event := e\<rparr>) (LightEvent_Wait L (event self))"

definition WaitSignal_signal :: "('s, 'e, 'z) light_scheme \<Rightarrow> 'e wait_signal \<Rightarrow> 'e wait_signal" where
  "WaitSignal_signal L self = self\<lparr>event := LightEvent_Signal L (event self)\<rparr>"

text \<open>Values that satisfy the laws: a count, and a flag.\<close>

definition sim_light :: "(int, bool) light" where
  "sim_light = \<lparr> LightSemaphore_zero = 0, LightSemaphore_Init = (\<lambda>s c m. sint c),
     LightSemaphore_Acquire = (\<lambda>s n. if sint n \<le> s then Some (s - sint n) else None),
     LightSemaphore_Release = (\<lambda>s n. s + sint n), light_count = (\<lambda>s. s),
     LightEvent_zero = False, LightEvent_Init = (\<lambda>e. False),
     LightEvent_Wait = (\<lambda>e. if e then Some False else None), LightEvent_Signal = (\<lambda>e. True) \<rparr>"

lemma sim_light_laws: "light_semaphore_law sim_light" "light_event_law sim_light"
  by (auto simp: light_semaphore_law_def light_event_law_def sim_light_def)

lemma WaitSignal_new_blocks: "light_event_law L \<Longrightarrow> WaitSignal_wait L (WaitSignal_new L) = None"
  by (simp add: light_event_law_def WaitSignal_wait_def WaitSignal_new_def)

lemma WaitSignal_signal_wait:
  assumes "light_event_law L"
  obtains s where "WaitSignal_wait L (WaitSignal_signal L w) = Some s" "WaitSignal_wait L s = None"
proof -
  obtain e where "LightEvent_Wait L (LightEvent_Signal L (event w)) = Some e" "LightEvent_Wait L e = None"
    using assms unfolding light_event_law_def by blast
  then show thesis
    using that [of "w\<lparr>event := e\<rparr>"] by (simp add: WaitSignal_wait_def WaitSignal_signal_def)
qed

section \<open>SyncQueue\<close>

record 'a sync_queue =
  semaphore_handle :: u32
  vals :: "'a list"

text \<open>\<^verbatim>\<open>vals.lock().push_back(val)\<close> and \<^verbatim>\<open>vals.lock().pop_back()\<close>, each under the lock.\<close>

definition push_back :: "'a \<Rightarrow> 'a sync_queue \<Rightarrow> 'a sync_queue" where
  "push_back val q = q\<lparr>vals := vals q @ [val]\<rparr>"

definition SyncQueue_remove :: "'a sync_queue \<Rightarrow> 'a option \<times> 'a sync_queue" where
  "SyncQueue_remove q =
     (case vals q of
        [] \<Rightarrow> (None, q)
      | _ \<Rightarrow> (Some (last (vals q)), q\<lparr>vals := butlast (vals q)\<rparr>))"

text \<open>The result of \<^verbatim>\<open>svcCreateSemaphore\<close> is not looked at.\<close>

definition SyncQueue_new :: "('k, 'z) kernel_scheme \<Rightarrow> 'k \<Rightarrow> 'a sync_queue \<times> 'k" where
  "SyncQueue_new K k =
     (case svcCreateSemaphore K 0 255 k of
        ((_, handle), k') \<Rightarrow> (\<lparr> semaphore_handle = handle, vals = [] \<rparr>, k'))"

definition release_one :: "('k, 'z) kernel_scheme \<Rightarrow> u32 \<Rightarrow> 'k \<Rightarrow> 'k" where
  "release_one K h k = snd (svcReleaseSemaphore K h 1 k)"

definition SyncQueue_add :: "('k, 'z) kernel_scheme \<Rightarrow> 'a \<Rightarrow> 'a sync_queue \<Rightarrow> 'k \<Rightarrow> 'a sync_queue \<times> 'k" where
  "SyncQueue_add K val q k = (push_back val q, release_one K (semaphore_handle q) k)"

definition SyncQueue_wait ::
  "('k, 'z) kernel_scheme \<Rightarrow> 'x ctru \<Rightarrow> i64 \<Rightarrow> 'a sync_queue \<Rightarrow> 'k \<Rightarrow> (('x, unit) bunny_result \<times> 'k) option" where
  "SyncQueue_wait K C timeout q k =
     (case svcWaitSynchronization K (semaphore_handle q) timeout k of
        None \<Rightarrow> None
      | Some (r, k') \<Rightarrow> Some (case ds_try C r of None \<Rightarrow> Inr () | Some e \<Rightarrow> Inl e, k'))"

lemma semaphore_handle_simps [simp]:
  "semaphore_handle (push_back v q) = semaphore_handle q"
  "semaphore_handle (snd (SyncQueue_remove q)) = semaphore_handle q"
  "vals (push_back v q) = vals q @ [v]"
  by (simp_all add: push_back_def SyncQueue_remove_def split: list.split)

lemma SyncQueue_remove_Nil [simp]: "vals q = [] \<Longrightarrow> SyncQueue_remove q = (None, q)"
  by (simp add: SyncQueue_remove_def)

lemma SyncQueue_remove_snoc [simp]: "vals q = xs @ [x] \<Longrightarrow> SyncQueue_remove q = (Some x, q\<lparr>vals := xs\<rparr>)"
  by (cases xs) (simp_all add: SyncQueue_remove_def)

lemma SyncQueue_remove_NoneD: "SyncQueue_remove q = (None, q') \<Longrightarrow> vals q = [] \<and> q' = q"
  by (auto simp: SyncQueue_remove_def split: list.splits)

lemma SyncQueue_remove_SomeD: "SyncQueue_remove q = (Some x, q') \<Longrightarrow> q = push_back x q'"
  by (auto simp: SyncQueue_remove_def push_back_def split: list.splits)

lemma SyncQueue_remove_push: "SyncQueue_remove (push_back v q) = (Some v, q)"
  by (simp add: push_back_def)

subsection \<open>What a consumer may rely on: a bag\<close>

text \<open>
  The consumers (the executor, the file workers, the socket workers) need of a queue only
  that it is a bag: an element that was put in comes out once. They use no order.
\<close>

locale bag_queue =
  fixes push :: "'a \<Rightarrow> 'q \<Rightarrow> 'q" and pop :: "'q \<Rightarrow> 'a option \<times> 'q" and bag :: "'q \<Rightarrow> 'a multiset"
  assumes bag_push: "bag (push x q) = add_mset x (bag q)"
    and pop_None: "pop q = (None, q') \<Longrightarrow> bag q = {#} \<and> q' = q"
    and pop_Some: "pop q = (Some x, q') \<Longrightarrow> bag q = add_mset x (bag q')"
begin

lemma pop_None_iff: "fst (pop q) = None \<longleftrightarrow> bag q = {#}"
proof
  assume "fst (pop q) = None"
  then show "bag q = {#}" using pop_None [of q "snd (pop q)"] by (metis prod.collapse)
next
  assume "bag q = {#}"
  then show "fst (pop q) = None"
    using pop_Some [of q] by (cases "fst (pop q)"; cases "pop q") simp_all
qed

lemma pop_size: "pop q = (Some x, q') \<Longrightarrow> size (bag q) = Suc (size (bag q'))"
  by (simp add: pop_Some)

lemma pop_decreases: "pop q = (Some x, q') \<Longrightarrow> size (bag q') < size (bag q)"
  by (simp add: pop_size)

end

interpretation sq: bag_queue push_back SyncQueue_remove "\<lambda>q. mset (vals q)"
proof unfold_locales
  fix q q' :: "'a sync_queue" and x
  show "mset (vals (push_back x q)) = add_mset x (mset (vals q))" by simp
  show "SyncQueue_remove q = (None, q') \<Longrightarrow> mset (vals q) = {#} \<and> q' = q"
    by (auto dest: SyncQueue_remove_NoneD)
  show "SyncQueue_remove q = (Some x, q') \<Longrightarrow> mset (vals q) = add_mset x (mset (vals q'))"
    by (auto dest: SyncQueue_remove_SomeD)
qed

section \<open>Properties\<close>

text \<open>What \<open>n\<close> calls of \<^verbatim>\<open>remove\<close> return.\<close>

primrec remove_n :: "nat \<Rightarrow> 'a sync_queue \<Rightarrow> 'a option list \<times> 'a sync_queue" where
  "remove_n 0 q = ([], q)"
| "remove_n (Suc n) q =
     (let (x, q1) = SyncQueue_remove q; (xs, q2) = remove_n n q1 in (x # xs, q2))"

lemma fold_push_back: "fold push_back xs q = q\<lparr>vals := vals q @ xs\<rparr>"
  by (induction xs arbitrary: q) (simp_all add: push_back_def)

lemma remove_n_all:
  "vals q = xs \<Longrightarrow> remove_n (Suc (length xs)) q = (map Some (rev xs) @ [None], q\<lparr>vals := []\<rparr>)"
proof (induction xs arbitrary: q rule: rev_induct)
  case Nil
  then show ?case by (cases q) simp
next
  case (snoc x xs)
  have "remove_n (Suc (length xs)) (q\<lparr>vals := xs\<rparr>) = (map Some (rev xs) @ [None], q\<lparr>vals := []\<rparr>)"
    using snoc.IH [of "q\<lparr>vals := xs\<rparr>"] by simp
  with snoc.prems show ?case by (simp del: remove_n.simps add: remove_n.simps(2) [of "Suc (length xs)"])
qed

text \<open>The queue is last-in first-out: after any sequence of additions to an empty queue, the
  same number of calls of \<^verbatim>\<open>remove\<close> returns every value once, newest first, and the next call
  returns \<^verbatim>\<open>None\<close>.\<close>

lemma sync_queue_is_lifo:
  assumes "vals q = []"
  shows "remove_n (Suc (length xs)) (fold push_back xs q) = (map Some (rev xs) @ [None], q)"
  using remove_n_all [of "fold push_back xs q" xs] assms
  by (simp add: fold_push_back del: remove_n.simps)

text \<open>A semaphore starts without permits: right after \<^verbatim>\<open>Semaphore::new(max)\<close> every acquisition of
  at least one permit blocks, whatever \<open>max\<close> is; after \<^verbatim>\<open>add_permits(n)\<close> an acquisition of up to
  \<open>n\<close> permits succeeds, and releasing the permit restores the count.\<close>

lemma semaphore_permits:
  assumes law: "light_semaphore_law L" and n: "0 < sint m" "sint m \<le> sint n"
  shows "Semaphore_acquire_permits L (Semaphore_new L c) m = None \<and>
    (\<exists>s. Semaphore_acquire_permits L (Semaphore_add_permits L (Semaphore_new L c) n) m = Some (m, s) \<and>
       light_count L (semaphore s) = sint n - sint m \<and>
       light_count L (semaphore (SemaphorePermit_release L s m)) = sint n)"
proof -
  let ?s = "LightSemaphore_Init L (LightSemaphore_zero L) 0 c"
  have init: "light_count L ?s = 0" and rel: "\<And>s k. 0 \<le> sint k \<Longrightarrow>
      light_count L (LightSemaphore_Release L s k) = light_count L s + sint k"
    and acq: "\<And>s. case LightSemaphore_Acquire L s m of None \<Rightarrow> light_count L s < sint m
        | Some s' \<Rightarrow> sint m \<le> light_count L s \<and> light_count L s' = light_count L s - sint m"
    using law n by (simp_all add: light_semaphore_law_def)
  have "LightSemaphore_Acquire L ?s m = None"
    using acq [of ?s] init n by (auto split: option.splits)
  moreover obtain s' where "LightSemaphore_Acquire L (LightSemaphore_Release L ?s n) m = Some s'"
      "light_count L s' = sint n - sint m"
    using acq [of "LightSemaphore_Release L ?s n"] rel [of n ?s] init n by (auto split: option.splits)
  ultimately show ?thesis
    using rel [of m s'] n
    by (simp add: Semaphore_acquire_permits_def Semaphore_new_def Semaphore_add_permits_def
        SemaphorePermit_release_def)
qed

end
