(* ===== verification/Executor.thy ===== *)
theory Executor
  imports Sync_Queue
begin

text \<open>
  \<^verbatim>\<open>src/executor.rs\<close>, the scheduler: task tokens and wakers, the two global queues, the
  handler with its \<^verbatim>\<open>spawn\<close>, \<^verbatim>\<open>wake\<close> and main loop. The future of a task is opaque: how
  it is polled is an argument. The loop is then modelled step by step against any number of
  threads that add to the queues, and the code of the loop is shown to be a run of that model
  whatever cooperative futures it polls.
\<close>

section \<open>Tokens, wakers and the global queues\<close>

type_synonym task_token = u32

text \<open>A \<^verbatim>\<open>RawWaker\<close> of this crate carries the token as its data pointer.\<close>

record waker =
  waker_data :: u32

definition make_waker :: "task_token \<Rightarrow> waker" where
  "make_waker task = \<lparr> waker_data = task \<rparr>"

definition clone_waker :: "waker \<Rightarrow> waker" where
  "clone_waker data = \<lparr> waker_data = waker_data data \<rparr>"

definition TaskToken_from_waker :: "waker \<Rightarrow> task_token" where
  "TaskToken_from_waker w = waker_data w"

lemma token_of_waker [simp]:
  "TaskToken_from_waker (make_waker t) = t"
  "TaskToken_from_waker (clone_waker w) = TaskToken_from_waker w"
  by (simp_all add: TaskToken_from_waker_def make_waker_def clone_waker_def)

text \<open>
  The part of the process state the scheduler works on: the kernel and the statics
  \<^verbatim>\<open>TASK_QUEUE\<close>, \<^verbatim>\<open>WAKE_QUEUE\<close>, \<^verbatim>\<open>EXECUTOR_PORT\<close> and \<^verbatim>\<open>REACTOR_PORT\<close>, each a \<^verbatim>\<open>OnceLock\<close>.
\<close>

record ('f, 'k) runtime =
  kern :: 'k
  TASK_QUEUE :: "'f sync_queue option"
  WAKE_QUEUE :: "task_token sync_queue option"
  EXECUTOR_PORT :: "u32 option"
  REACTOR_PORT :: "u32 option"

text \<open>A call that only concerns the kernel and the services behind it.\<close>

definition on_kern :: "('k, 'a) io \<Rightarrow> (('f, 'k, 'z) runtime_scheme, 'a) io" where
  "on_kern f w = (case f (kern w) of (r, k) \<Rightarrow> (r, w\<lparr>kern := k\<rparr>))"

text \<open>\<^verbatim>\<open>WAKE_QUEUE.get().unwrap().add(task)\<close>, and the same for \<^verbatim>\<open>TASK_QUEUE\<close>.\<close>

definition wake_queue_add :: "'k kernel \<Rightarrow> task_token \<Rightarrow> (('f, 'k, 'z) runtime_scheme, unit) io" where
  "wake_queue_add K task w =
     (case WAKE_QUEUE w of
        None \<Rightarrow> (Panic UnwrapNone, w)
      | Some q \<Rightarrow> (let (q', k') = SyncQueue_add K task q (kern w) in
                  (Val (), w\<lparr>WAKE_QUEUE := Some q', kern := k'\<rparr>)))"

definition task_queue_add :: "'k kernel \<Rightarrow> 'f \<Rightarrow> (('f, 'k, 'z) runtime_scheme, unit) io" where
  "task_queue_add K fut w =
     (case TASK_QUEUE w of
        None \<Rightarrow> (Panic UnwrapNone, w)
      | Some q \<Rightarrow> (let (q', k') = SyncQueue_add K fut q (kern w) in
                  (Val (), w\<lparr>TASK_QUEUE := Some q', kern := k'\<rparr>)))"

definition wake_queue_remove :: "(('f, 'k, 'z) runtime_scheme, task_token option) io" where
  "wake_queue_remove w =
     (case WAKE_QUEUE w of
        None \<Rightarrow> (Panic UnwrapNone, w)
      | Some q \<Rightarrow> (let (x, q') = SyncQueue_remove q in (Val x, w\<lparr>WAKE_QUEUE := Some q'\<rparr>)))"

definition task_queue_remove :: "(('f, 'k, 'z) runtime_scheme, 'f option) io" where
  "task_queue_remove w =
     (case TASK_QUEUE w of
        None \<Rightarrow> (Panic UnwrapNone, w)
      | Some q \<Rightarrow> (let (x, q') = SyncQueue_remove q in (Val x, w\<lparr>TASK_QUEUE := Some q'\<rparr>)))"

text \<open>The waker's \<^verbatim>\<open>wake\<close> and \<^verbatim>\<open>wake_by_ref\<close>, and \<^verbatim>\<open>ExecutorSession::wake\<close>.\<close>

definition Waker_wake :: "'k kernel \<Rightarrow> waker \<Rightarrow> (('f, 'k, 'z) runtime_scheme, unit) io" where
  "Waker_wake K data = wake_queue_add K (waker_data data)"

definition Waker_wake_by_ref :: "'k kernel \<Rightarrow> waker \<Rightarrow> (('f, 'k, 'z) runtime_scheme, unit) io" where
  "Waker_wake_by_ref K data = Waker_wake K data"

definition ExecutorSession_wake ::
  "'k kernel \<Rightarrow> task_token \<Rightarrow> (('f, 'k, 'z) runtime_scheme, ('x, unit) bunny_result) io" where
  "ExecutorSession_wake K task = io_bind (wake_queue_add K task) (\<lambda>_. ret (Inr ()))"

lemma wake_queue_add_run [io_simps]:
  "WAKE_QUEUE w = Some q \<Longrightarrow> wake_queue_add K t w =
     (Val (), w\<lparr>WAKE_QUEUE := Some (push_back t q), kern := release_one K (semaphore_handle q) (kern w)\<rparr>)"
  "WAKE_QUEUE w = None \<Longrightarrow> wake_queue_add K t w = (Panic UnwrapNone, w)"
  by (simp_all add: wake_queue_add_def SyncQueue_add_def)

lemma wake_queue_remove_run [io_simps]:
  "WAKE_QUEUE w = Some q \<Longrightarrow> wake_queue_remove w =
     (Val (fst (SyncQueue_remove q)), w\<lparr>WAKE_QUEUE := Some (snd (SyncQueue_remove q))\<rparr>)"
  by (simp add: wake_queue_remove_def split: prod.split)

section \<open>The handler\<close>

record 'm executor_handler =
  task_counter :: u32
  tasks :: 'm
  task_semaphore :: u32
  wake_semaphore :: u32

text \<open>How a boxed future is polled: it may use the whole runtime, wake tasks and spawn others.\<close>

type_synonym ('f, 'k, 'z) poll_fn =
  "'f \<Rightarrow> waker \<Rightarrow> (('f, 'k, 'z) runtime_scheme, unit poll \<times> 'f) io"

definition ExecutorHandler_spawn ::
  "('m, task_token, 'f) lite_map \<Rightarrow> ('f, 'k, 'z) poll_fn \<Rightarrow> 'm executor_handler \<Rightarrow> 'f \<Rightarrow>
   (('f, 'k, 'z) runtime_scheme, task_token option \<times> 'm executor_handler) io" where
  "ExecutorHandler_spawn L poll_fut self fut =
     (let task_key = task_counter self in
      io_bind (lift_outcome (incr_u32 (task_counter self))) (\<lambda>c.
      let self = self\<lparr>task_counter := c\<rparr> in
      io_bind (poll_fut fut (make_waker task_key)) (\<lambda>(r, fut').
        case r of
          Ready _ \<Rightarrow> ret (None, self)
        | Pending \<Rightarrow>
            ret (Some task_key, self\<lparr>tasks := lm_insert L task_key fut' (tasks self)\<rparr>))))"

definition ExecutorHandler_wake ::
  "('m, task_token, 'f) lite_map \<Rightarrow> ('f, 'k, 'z) poll_fn \<Rightarrow> 'm executor_handler \<Rightarrow> task_token \<Rightarrow>
   (('f, 'k, 'z) runtime_scheme, 'm executor_handler) io" where
  "ExecutorHandler_wake L poll_fut self task =
     (case lm_get L (tasks self) task of
        None \<Rightarrow> ret self
      | Some task_fut \<Rightarrow>
          io_bind (poll_fut task_fut (make_waker task)) (\<lambda>(r, fut').
            case r of
              Ready _ \<Rightarrow> ret (self\<lparr>tasks := snd (lm_remove L task (lm_set L task fut' (tasks self)))\<rparr>)
            | Pending \<Rightarrow> ret (self\<lparr>tasks := lm_set L task fut' (tasks self)\<rparr>)))"

text \<open>
  The two inner loops of \<^verbatim>\<open>run\<close>. A poll may add to the queue that is being emptied, so
  they need not end: \<^const>\<open>None\<close> is a loop that runs forever.
\<close>

partial_function (option) drain_wake ::
  "('m, task_token, 'f) lite_map \<Rightarrow> ('f, 'k, 'z) poll_fn \<Rightarrow> 'm executor_handler \<Rightarrow>
   ('f, 'k, 'z) runtime_scheme \<Rightarrow> ('m executor_handler outcome \<times> ('f, 'k, 'z) runtime_scheme) option" where
  "drain_wake L poll_fut self w =
     (case wake_queue_remove w of
        (Panic p, w1) \<Rightarrow> Some (Panic p, w1)
      | (Val None, w1) \<Rightarrow> Some (Val self, w1)
      | (Val (Some task), w1) \<Rightarrow>
          (case ExecutorHandler_wake L poll_fut self task w1 of
             (Panic p, w2) \<Rightarrow> Some (Panic p, w2)
           | (Val self', w2) \<Rightarrow> drain_wake L poll_fut self' w2))"

partial_function (option) drain_tasks ::
  "('m, task_token, 'f) lite_map \<Rightarrow> ('f, 'k, 'z) poll_fn \<Rightarrow> 'm executor_handler \<Rightarrow>
   ('f, 'k, 'z) runtime_scheme \<Rightarrow> ('m executor_handler outcome \<times> ('f, 'k, 'z) runtime_scheme) option" where
  "drain_tasks L poll_fut self w =
     (case task_queue_remove w of
        (Panic p, w1) \<Rightarrow> Some (Panic p, w1)
      | (Val None, w1) \<Rightarrow> Some (Val self, w1)
      | (Val (Some task), w1) \<Rightarrow>
          (case ExecutorHandler_spawn L poll_fut self task w1 of
             (Panic p, w2) \<Rightarrow> Some (Panic p, w2)
           | (Val (_, self'), w2) \<Rightarrow> drain_tasks L poll_fut self' w2))"

text \<open>One round of the loop of \<^verbatim>\<open>run\<close>: wait for either semaphore, then empty its queue.\<close>

definition ExecutorHandler_run_round ::
  "'k kernel \<Rightarrow> ('m, task_token, 'f) lite_map \<Rightarrow> ('f, 'k, 'z) poll_fn \<Rightarrow> 'm executor_handler \<Rightarrow>
   ('f, 'k, 'z) runtime_scheme \<Rightarrow>
   ('m executor_handler outcome \<times> ('f, 'k, 'z) runtime_scheme) option blocking" where
  "ExecutorHandler_run_round K L poll_fut self w =
     (case svcWaitSynchronizationN K [task_semaphore self, wake_semaphore self] False i64_MAX (kern w) of
        None \<Rightarrow> Blocks
      | Some ((_, idx), k') \<Rightarrow>
          (let w' = w\<lparr>kern := k'\<rparr> in
           Returns (if idx = 1 then drain_wake L poll_fut self w'
                    else if idx = 0 then drain_tasks L poll_fut self w'
                    else Some (Val self, w'))))"

section \<open>Properties of the handler\<close>

text \<open>Every live task has a token the counter has already passed.\<close>

definition handler_wf :: "('m, task_token, 'f) lite_map \<Rightarrow> 'm executor_handler \<Rightarrow> bool" where
  "handler_wf L h \<longleftrightarrow> (\<forall>t. lm_get L (tasks h) t \<noteq> None \<longrightarrow> t < task_counter h)"

lemma incr_u32_Val: "incr_u32 x = Val y \<longleftrightarrow> x \<noteq> u32_MAX \<and> y = x + 1"
  by (auto simp: incr_u32_def)

lemma less_incr_u32: "x \<noteq> u32_MAX \<Longrightarrow> y < x + 1 \<longleftrightarrow> y \<le> x" for x y :: u32
  by (simp add: word_less_nat_alt word_le_nat_alt unat_Suc_u32 less_Suc_eq_le)

lemma spawn_run [io_simps]:
  "ExecutorHandler_spawn L pf h fut w =
     (if task_counter h = u32_MAX then (Panic Overflow, w)
      else case pf fut (make_waker (task_counter h)) w of
             (Panic p, w') \<Rightarrow> (Panic p, w')
           | (Val (Ready _, _), w') \<Rightarrow> (Val (None, h\<lparr>task_counter := task_counter h + 1\<rparr>), w')
           | (Val (Pending, fut'), w') \<Rightarrow>
               (Val (Some (task_counter h), h\<lparr>task_counter := task_counter h + 1,
                  tasks := lm_insert L (task_counter h) fut' (tasks h)\<rparr>), w'))"
  by (simp add: ExecutorHandler_spawn_def io_bind_run incr_u32_def Let_def
           split: prod.split outcome.split poll.split)

lemma wake_run [io_simps]:
  "ExecutorHandler_wake L pf h t w =
     (case lm_get L (tasks h) t of
        None \<Rightarrow> (Val h, w)
      | Some fut \<Rightarrow>
          (case pf fut (make_waker t) w of
             (Panic p, w') \<Rightarrow> (Panic p, w')
           | (Val (Ready _, fut'), w') \<Rightarrow>
               (Val (h\<lparr>tasks := snd (lm_remove L t (lm_set L t fut' (tasks h)))\<rparr>), w')
           | (Val (Pending, fut'), w') \<Rightarrow> (Val (h\<lparr>tasks := lm_set L t fut' (tasks h)\<rparr>), w')))"
  by (simp add: ExecutorHandler_wake_def io_bind_run split: option.split prod.split outcome.split poll.split)

lemma spawn_cases:
  assumes "ExecutorHandler_spawn L pf h fut w = (Val (r, h'), w')"
  obtains (done_at_once) fut' where "task_counter h \<noteq> u32_MAX"
      "pf fut (make_waker (task_counter h)) w = (Val (Ready (), fut'), w')"
      "r = None" "h' = h\<lparr>task_counter := task_counter h + 1\<rparr>"
  | (live) fut' where "task_counter h \<noteq> u32_MAX"
      "pf fut (make_waker (task_counter h)) w = (Val (Pending, fut'), w')" "r = Some (task_counter h)"
      "h' = h\<lparr>task_counter := task_counter h + 1, tasks := lm_insert L (task_counter h) fut' (tasks h)\<rparr>"
  using assms by (auto simp: spawn_run split: if_splits prod.splits outcome.splits poll.splits)

lemma wake_cases:
  assumes "ExecutorHandler_wake L pf h t w = (Val h', w')"
  obtains (dead) "lm_get L (tasks h) t = None" "h' = h" "w' = w"
  | (finished) fut fut' where "lm_get L (tasks h) t = Some fut"
      "pf fut (make_waker t) w = (Val (Ready (), fut'), w')"
      "h' = h\<lparr>tasks := snd (lm_remove L t (lm_set L t fut' (tasks h)))\<rparr>"
  | (pending) fut fut' where "lm_get L (tasks h) t = Some fut"
      "pf fut (make_waker t) w = (Val (Pending, fut'), w')"
      "h' = h\<lparr>tasks := lm_set L t fut' (tasks h)\<rparr>"
  using assms by (auto simp: wake_run split: option.splits prod.splits outcome.splits poll.splits)

text \<open>What a completed wake does to the table of tasks: nothing but to the task itself.\<close>

lemma wake_tasks:
  assumes L: "lite_map_laws L" and w: "ExecutorHandler_wake L pf h t w = (Val h', w')"
  shows "task_counter h' = task_counter h"
    and "u \<noteq> t \<Longrightarrow> lm_get L (tasks h') u = lm_get L (tasks h) u"
    and "lm_get L (tasks h) u = None \<Longrightarrow> lm_get L (tasks h') u = None"
proof -
  show "task_counter h' = task_counter h"
    by (rule wake_cases [OF w]) simp_all
  show "u \<noteq> t \<Longrightarrow> lm_get L (tasks h') u = lm_get L (tasks h) u"
    by (rule wake_cases [OF w]) (simp_all add: lite_map_lawsD(4,5) [OF L])
  then show "lm_get L (tasks h) u = None \<Longrightarrow> lm_get L (tasks h') u = None"
    by (rule_tac wake_cases [OF w]) (auto simp add: lite_map_lawsD(4,5) [OF L])
qed

lemma spawn_wf:
  assumes "lite_map_laws L" "handler_wf L h" "ExecutorHandler_spawn L pf h fut w = (Val (r, h'), w')"
  shows "handler_wf L h'"
  using assms(3)
proof (cases rule: spawn_cases)
  case (done_at_once fut')
  with assms(2) show ?thesis by (auto simp: handler_wf_def less_incr_u32)
next
  case (live fut')
  with assms(2) show ?thesis by (auto simp: handler_wf_def less_incr_u32 lite_map_lawsD(2) [OF assms(1)])
qed

lemma wake_wf:
  assumes "lite_map_laws L" "handler_wf L h" "ExecutorHandler_wake L pf h t w = (Val h', w')"
  shows "handler_wf L h'"
  using assms(2) wake_tasks(1,3) [OF assms(1,3)] unfolding handler_wf_def by metis

lemma drain_wake_rule [consumes 1, case_names unset empty poll_panic step]:
  assumes ret: "drain_wake L pf h w = Some x"
    and unset: "\<And>h w p w1. wake_queue_remove w = (Panic p, w1) \<Longrightarrow> P h w (Panic p, w1)"
    and empty: "\<And>h w w1. wake_queue_remove w = (Val None, w1) \<Longrightarrow> P h w (Val h, w1)"
    and poll_panic: "\<And>h w t w1 p w2. wake_queue_remove w = (Val (Some t), w1) \<Longrightarrow>
       ExecutorHandler_wake L pf h t w1 = (Panic p, w2) \<Longrightarrow> P h w (Panic p, w2)"
    and step: "\<And>h w t w1 h' w2 x. wake_queue_remove w = (Val (Some t), w1) \<Longrightarrow>
       ExecutorHandler_wake L pf h t w1 = (Val h', w2) \<Longrightarrow> drain_wake L pf h' w2 = Some x \<Longrightarrow> P h' w2 x \<Longrightarrow> P h w x"
  shows "P h w x"
proof -
  have "drain_wake L pf h w = Some x \<and> (L = L \<longrightarrow> pf = pf \<longrightarrow> P h w x)"
  proof (rule drain_wake.raw_induct [where P = "\<lambda>L' pf' h w x.
      drain_wake L' pf' h w = Some x \<and> (L' = L \<longrightarrow> pf' = pf \<longrightarrow> P h w x)", OF _ ret], goal_cases)
    case (1 f L' pf' h w x)
    note IH = 1(1)
    from 1(2) show ?case
      by (auto simp: drain_wake.simps [of L' pf' h w]
               split: prod.splits outcome.splits option.splits
               dest: IH intro: unset empty poll_panic step)
  qed
  then show ?thesis by simp
qed

lemma drain_tasks_rule [consumes 1, case_names unset empty poll_panic step]:
  assumes ret: "drain_tasks L pf h w = Some x"
    and unset: "\<And>h w p w1. task_queue_remove w = (Panic p, w1) \<Longrightarrow> P h w (Panic p, w1)"
    and empty: "\<And>h w w1. task_queue_remove w = (Val None, w1) \<Longrightarrow> P h w (Val h, w1)"
    and poll_panic: "\<And>h w t w1 p w2. task_queue_remove w = (Val (Some t), w1) \<Longrightarrow>
       ExecutorHandler_spawn L pf h t w1 = (Panic p, w2) \<Longrightarrow> P h w (Panic p, w2)"
    and step: "\<And>h w t w1 r h' w2 x. task_queue_remove w = (Val (Some t), w1) \<Longrightarrow>
       ExecutorHandler_spawn L pf h t w1 = (Val (r, h'), w2) \<Longrightarrow> drain_tasks L pf h' w2 = Some x \<Longrightarrow> P h' w2 x \<Longrightarrow> P h w x"
  shows "P h w x"
proof -
  have "drain_tasks L pf h w = Some x \<and> (L = L \<longrightarrow> pf = pf \<longrightarrow> P h w x)"
  proof (rule drain_tasks.raw_induct [where P = "\<lambda>L' pf' h w x.
      drain_tasks L' pf' h w = Some x \<and> (L' = L \<longrightarrow> pf' = pf \<longrightarrow> P h w x)", OF _ ret], goal_cases)
    case (1 f L' pf' h w x)
    note IH = 1(1)
    from 1(2) show ?case
      by (auto simp: drain_tasks.simps [of L' pf' h w]
               split: prod.splits outcome.splits option.splits
               dest: IH intro: unset empty poll_panic step)
  qed
  then show ?thesis by simp
qed


lemma drain_wake_wf:
  assumes L: "lite_map_laws L" and ret: "drain_wake L pf h w = Some (Val h', w')" and wf: "handler_wf L h"
  shows "handler_wf L h'"
  using ret wf
  by (induction "(Val h', w')" rule: drain_wake_rule) (auto dest: wake_wf [OF L])

lemma drain_tasks_wf:
  assumes L: "lite_map_laws L" and ret: "drain_tasks L pf h w = Some (Val h', w')" and wf: "handler_wf L h"
  shows "handler_wf L h'"
  using ret wf
  by (induction "(Val h', w')" rule: drain_tasks_rule) (auto dest: spawn_wf [OF L])

text \<open>The tokens that wait in the queue of wakes.\<close>

definition queued_wakes :: "('f, 'k, 'z) runtime_scheme \<Rightarrow> task_token list" where
  "queued_wakes w = (case WAKE_QUEUE w of None \<Rightarrow> [] | Some q \<Rightarrow> vals q)"

lemma wake_queue_remove_Some:
  assumes "wake_queue_remove w = (Val (Some t), w1)"
  shows "queued_wakes w = queued_wakes w1 @ [t]" "\<exists>q. w1 = w\<lparr>WAKE_QUEUE := q\<rparr>"
  using assms
  by (auto simp: wake_queue_remove_def queued_wakes_def split: option.splits prod.splits
           dest: SyncQueue_remove_SomeD)

lemma drain_wake_empties:
  assumes "drain_wake L pf h w = Some (Val h', w')"
  shows "queued_wakes w' = []"
  using assms
  by (induction "(Val h', w')" rule: drain_wake_rule)
     (auto simp: wake_queue_remove_def queued_wakes_def split: option.splits prod.splits
           dest: SyncQueue_remove_NoneD)

text \<open>
  Termination: the loop ends when the tasks can be given a budget that pays for every token
  their polls add to the queue.
\<close>

lemma drain_wake_returns:
  fixes pot :: "'m executor_handler \<Rightarrow> ('f, 'k, 'z) runtime_scheme \<Rightarrow> nat"
  assumes pot_queue: "\<And>h w q. pot h (w\<lparr>WAKE_QUEUE := q\<rparr>) = pot h w"
    and pays: "\<And>h t w h' w'. ExecutorHandler_wake L pf h t w = (Val h', w') \<Longrightarrow>
      pot h' w' + length (queued_wakes w') \<le> pot h w + length (queued_wakes w)"
  shows "\<exists>x. drain_wake L pf h w = Some x"
proof (induction "pot h w + length (queued_wakes w)" arbitrary: h w rule: less_induct)
  case less
  obtain r w1 where rm: "wake_queue_remove w = (r, w1)" by fastforce
  show ?case
  proof (cases "\<exists>t h' w2. r = Val (Some t) \<and> ExecutorHandler_wake L pf h t w1 = (Val h', w2)")
    case True
    then obtain t h' w2 where step: "r = Val (Some t)" "ExecutorHandler_wake L pf h t w1 = (Val h', w2)"
      by blast
    have "pot h w1 + length (queued_wakes w1) < pot h w + length (queued_wakes w)"
      using wake_queue_remove_Some [of w t w1] rm step(1) by (auto simp: pot_queue)
    with pays [OF step(2)] have "pot h' w2 + length (queued_wakes w2) < pot h w + length (queued_wakes w)"
      by linarith
    then have "\<exists>x. drain_wake L pf h' w2 = Some x" by (rule less.hyps)
    with rm step show ?thesis by (simp add: drain_wake.simps [of L pf h w])
  next
    case False
    with rm show ?thesis
      by (auto simp: drain_wake.simps [of L pf h w] split: outcome.splits option.splits prod.splits)
  qed
qed

text \<open>
  A task that wakes itself and stays pending, as a cooperative yield does, is taken out of
  the queue again before anything else: the loop never ends.
\<close>

definition yields :: "'k kernel \<Rightarrow> ('f, 'k, 'z) poll_fn \<Rightarrow> 'f \<Rightarrow> task_token \<Rightarrow> bool" where
  "yields K pf fut t \<longleftrightarrow>
     pf fut (make_waker t) = io_bind (Waker_wake_by_ref K (make_waker t)) (\<lambda>_. ret (Pending, fut))"

lemma wake_yields:
  assumes L: "lite_map_laws L" and "yields K pf fut t" "lm_get L (tasks h) t = Some fut"
    and "WAKE_QUEUE w = Some q" "ExecutorHandler_wake L pf h t w = (Val h', w')"
  shows "lm_get L (tasks h') t = Some fut" "WAKE_QUEUE w' = Some (push_back t q)"
  using assms(2-)
  by (auto simp: wake_run yields_def io_bind_run Waker_wake_by_ref_def Waker_wake_def wake_queue_add_run
           make_waker_def lite_map_lawsD(5) [OF L])

lemma drain_wake_starves:
  assumes L: "lite_map_laws L" and y: "yields K pf fut t" and live: "lm_get L (tasks h) t = Some fut"
    and queue: "WAKE_QUEUE w = Some (push_back t q)"
  shows "drain_wake L pf h w = None"
proof (rule ccontr)
  assume "drain_wake L pf h w \<noteq> None"
  then obtain x where "drain_wake L pf h w = Some x" by blast
  then show False using live queue
  proof (induction arbitrary: q rule: drain_wake_rule)
    case (step h w u w1 h' w2 x)
    from step.hyps(1) step.prems(2) have u: "u = t" "WAKE_QUEUE w1 = Some q"
      by (auto simp: wake_queue_remove_run SyncQueue_remove_push)
    with wake_yields [OF L y step.prems(1), of w1 q h' w2] step.hyps(2) show ?case
      by (auto intro: step.IH)
  next
    case (poll_panic h w u w1 p w2)
    then show ?case
      using y
      by (auto simp: wake_queue_remove_run SyncQueue_remove_push wake_run yields_def io_bind_run
               Waker_wake_by_ref_def Waker_wake_def wake_queue_add_run make_waker_def split: prod.splits)
  qed (auto simp: wake_queue_remove_run SyncQueue_remove_push)
qed

section \<open>The loop against concurrent producers\<close>

text \<open>
  The executor thread and any number of threads (and polls of the executor itself) that call
  \<^verbatim>\<open>add\<close> on the two queues. \<^verbatim>\<open>add\<close> is two steps: the push under the lock, then the release of
  the semaphore; \<open>wake_adds\<close> and \<open>task_adds\<close> count the calls that are between the two. All
  else that goes on in the process may change the kernel as long as it takes no permit of the
  two semaphores, on which only the executor waits.
\<close>

definition keeps_permits :: "'k kernel \<Rightarrow> 'k \<Rightarrow> 'k \<Rightarrow> u32 set \<Rightarrow> bool" where
  "keeps_permits K k k' H \<longleftrightarrow>
     (\<forall>h \<in> H. sem_count K k h \<le> sem_count K k' h \<and> sem_max K k' h = sem_max K k h)"

datatype exec_pc = AtWait | InWakeLoop | InTaskLoop

record ('f, 'k) exec_sys =
  es_kern :: 'k
  es_tasks :: "'f sync_queue"
  es_wakes :: "task_token sync_queue"
  task_adds :: nat
  wake_adds :: nat
  es_pc :: exec_pc

text \<open>\<^verbatim>\<open>Executor::new\<close> creates the queues, the one of tasks first.\<close>

definition exec_boot :: "'k kernel \<Rightarrow> 'k \<Rightarrow> ('f, 'k) exec_sys" where
  "exec_boot K k =
     (let (tq, k1) = SyncQueue_new K k; (wq, k2) = SyncQueue_new K k1 in
      \<lparr> es_kern = k2, es_tasks = tq, es_wakes = wq, task_adds = 0, wake_adds = 0, es_pc = AtWait \<rparr>)"

text \<open>Both semaphores could be created.\<close>

definition exec_start :: "'k kernel \<Rightarrow> ('f, 'k) exec_sys \<Rightarrow> bool" where
  "exec_start K s \<longleftrightarrow> (\<exists>k. s = exec_boot K k \<and>
     fst (fst (svcCreateSemaphore K 0 255 k)) = 0 \<and>
     fst (fst (svcCreateSemaphore K 0 255 (snd (svcCreateSemaphore K 0 255 k)))) = 0)"

inductive exec_step :: "'k kernel \<Rightarrow> ('f, 'k) exec_sys \<Rightarrow> ('f, 'k) exec_sys \<Rightarrow> bool" for K where
  wake_push: "exec_step K s (s\<lparr>es_wakes := push_back t (es_wakes s), wake_adds := Suc (wake_adds s)\<rparr>)"
| wake_release: "wake_adds s = Suc n \<Longrightarrow> exec_step K s
     (s\<lparr>es_kern := release_one K (semaphore_handle (es_wakes s)) (es_kern s), wake_adds := n\<rparr>)"
| task_push: "exec_step K s (s\<lparr>es_tasks := push_back f (es_tasks s), task_adds := Suc (task_adds s)\<rparr>)"
| task_release: "task_adds s = Suc n \<Longrightarrow> exec_step K s
     (s\<lparr>es_kern := release_one K (semaphore_handle (es_tasks s)) (es_kern s), task_adds := n\<rparr>)"
| wait_return: "es_pc s = AtWait \<Longrightarrow>
     svcWaitSynchronizationN K [semaphore_handle (es_tasks s), semaphore_handle (es_wakes s)] False i64_MAX
       (es_kern s) = Some ((r, idx), k') \<Longrightarrow>
     exec_step K s (s\<lparr>es_kern := k', es_pc := (if idx = 1 then InWakeLoop else if idx = 0 then InTaskLoop else AtWait)\<rparr>)"
| wake_pop: "es_pc s = InWakeLoop \<Longrightarrow> SyncQueue_remove (es_wakes s) = (Some t, q) \<Longrightarrow>
     exec_step K s (s\<lparr>es_wakes := q\<rparr>)"
| wake_done: "es_pc s = InWakeLoop \<Longrightarrow> SyncQueue_remove (es_wakes s) = (None, q) \<Longrightarrow>
     exec_step K s (s\<lparr>es_pc := AtWait\<rparr>)"
| task_pop: "es_pc s = InTaskLoop \<Longrightarrow> SyncQueue_remove (es_tasks s) = (Some f, tq) \<Longrightarrow>
     exec_step K s (s\<lparr>es_tasks := tq\<rparr>)"
| task_done: "es_pc s = InTaskLoop \<Longrightarrow> SyncQueue_remove (es_tasks s) = (None, tq) \<Longrightarrow>
     exec_step K s (s\<lparr>es_pc := AtWait\<rparr>)"
| elsewhere: "keeps_permits K (es_kern s) k' {semaphore_handle (es_tasks s), semaphore_handle (es_wakes s)} \<Longrightarrow>
     exec_step K s (s\<lparr>es_kern := k'\<rparr>)"

text \<open>
  The handshake: unless the executor is emptying a queue, an element in it is announced by the
  semaphore or about to be.
\<close>

definition announced :: "'k kernel \<Rightarrow> 'k \<Rightarrow> 'a sync_queue \<Rightarrow> nat \<Rightarrow> bool" where
  "announced K k q adds \<longleftrightarrow> vals q = [] \<or> 0 < adds \<or> 0 < sem_count K k (semaphore_handle q)"

lemma keeps_permitsD:
  assumes "keeps_permits K k k' H" "h \<in> H"
  shows "sem_count K k h \<le> sem_count K k' h" "sem_max K k' h = sem_max K k h"
  using assms by (auto simp: keeps_permits_def)

lemma keeps_announced:
  "keeps_permits K k k' H \<Longrightarrow> semaphore_handle q \<in> H \<Longrightarrow> announced K k q n \<Longrightarrow> announced K k' q n"
  unfolding announced_def using keeps_permitsD(1) by fastforce

definition exec_inv :: "'k kernel \<Rightarrow> ('f, 'k) exec_sys \<Rightarrow> bool" where
  "exec_inv K s \<longleftrightarrow>
     semaphore_handle (es_tasks s) \<noteq> semaphore_handle (es_wakes s) \<and>
     0 < sem_max K (es_kern s) (semaphore_handle (es_tasks s)) \<and>
     0 < sem_max K (es_kern s) (semaphore_handle (es_wakes s)) \<and>
     (es_pc s = InTaskLoop \<or> announced K (es_kern s) (es_tasks s) (task_adds s)) \<and>
     (es_pc s = InWakeLoop \<or> announced K (es_kern s) (es_wakes s) (wake_adds s))"

definition exec_laws :: "'k kernel \<Rightarrow> bool" where
  "exec_laws K \<longleftrightarrow> create_law K \<and> release_law K \<and> wait_any_law K"

lemma exec_inv_start:
  assumes "exec_laws K" "exec_start K s"
  shows "exec_inv K s"
proof -
  from assms(2) obtain k where s: "s = exec_boot K k"
    and ok: "fst (fst (svcCreateSemaphore K 0 255 k)) = 0"
      "fst (fst (svcCreateSemaphore K 0 255 (snd (svcCreateSemaphore K 0 255 k)))) = 0"
    by (auto simp: exec_start_def)
  obtain h1 k1 where 1: "svcCreateSemaphore K 0 255 k = ((0, h1), k1)"
    using ok(1) by (metis prod.collapse)
  obtain h2 k2 where 2: "svcCreateSemaphore K 0 255 k1 = ((0, h2), k2)"
    using ok(2) 1 by (metis prod.collapse snd_conv)
  have C: "create_law K" using assms(1) by (simp add: exec_laws_def)
  show ?thesis
    using create_lawD [OF C 1] create_lawD [OF C 2]
    by (auto simp: s exec_inv_def exec_boot_def SyncQueue_new_def 1 2 announced_def)
qed

lemmas release_one_law = release_lawD [folded release_one_def]

lemma exec_inv_step:
  assumes laws: "exec_laws K" and step: "exec_step K s t" and inv: "exec_inv K s"
  shows "exec_inv K t"
proof -
  have R: "release_law K" and W: "wait_any_law K" using laws by (simp_all add: exec_laws_def)
  from step inv show ?thesis
  proof (cases rule: exec_step.cases)
    case (wait_return r idx k')
    with inv wait_any_law_Some [OF W wait_return(3)] show ?thesis
      by (auto simp: exec_inv_def announced_def split: if_splits)
  next
    case (elsewhere k')
    with inv show ?thesis
      using keeps_permitsD(2) [OF elsewhere(2)] elsewhere(1)
        keeps_announced [OF elsewhere(2), of "es_tasks s"] keeps_announced [OF elsewhere(2), of "es_wakes s"]
      by (auto simp: exec_inv_def)
  qed (auto simp: exec_inv_def announced_def release_one_law [OF R]
            dest: SyncQueue_remove_NoneD SyncQueue_remove_SomeD)
qed

interpretation exec: inductive_invariant "exec_start K" "exec_step K" "\<lambda>s. exec_laws K \<longrightarrow> exec_inv K s" for K
  by unfold_locales (auto intro: exec_inv_start exec_inv_step)

section \<open>The code of the loop is a run of the system\<close>

text \<open>
  What a poll, or another thread, may do to the state the scheduler rests on: add to the
  queues, and change anything else as long as no permit of the two semaphores is taken.
\<close>

definition queue_semaphores :: "('f, 'k, 'z) runtime_scheme \<Rightarrow> u32 option \<times> u32 option" where
  "queue_semaphores w = (map_option semaphore_handle (TASK_QUEUE w), map_option semaphore_handle (WAKE_QUEUE w))"

inductive produces :: "'k kernel \<Rightarrow> ('f, 'k, 'z) runtime_scheme \<Rightarrow> ('f, 'k, 'z) runtime_scheme \<Rightarrow> bool" for K where
  adds_wake: "wake_queue_add K t w = (Val (), w') \<Longrightarrow> produces K w w'"
| adds_task: "task_queue_add K fut w = (Val (), w') \<Longrightarrow> produces K w w'"
| works_elsewhere: "TASK_QUEUE w' = TASK_QUEUE w \<Longrightarrow> WAKE_QUEUE w' = WAKE_QUEUE w \<Longrightarrow>
     keeps_permits K (kern w) (kern w')
       (set_option (fst (queue_semaphores w)) \<union> set_option (snd (queue_semaphores w))) \<Longrightarrow> produces K w w'"

text \<open>
  Code that acts on that state only in this way. It is closed under sequencing, so that the
  contract of an operation follows from those of its parts.
\<close>

definition behaves :: "'k kernel \<Rightarrow> (('f, 'k, 'z) runtime_scheme, 'a) io \<Rightarrow> bool" where
  "behaves K m \<longleftrightarrow> (\<forall>w. (produces K)\<^sup>*\<^sup>* w (snd (m w)))"

text \<open>The contract of a future: its polls act on the state in this way.\<close>

definition cooperative :: "'k kernel \<Rightarrow> (waker \<Rightarrow> 'u \<Rightarrow> (('f, 'k, 'z) runtime_scheme, 'r) io) \<Rightarrow> bool" where
  "cooperative K poll \<longleftrightarrow> (\<forall>cx fut. behaves K (poll cx fut))"

text \<open>A kernel call, or a request to a service, that takes no permit of any semaphore.\<close>

definition quiet :: "'k kernel \<Rightarrow> ('k \<Rightarrow> 'a \<times> 'k) \<Rightarrow> bool" where
  "quiet K f \<longleftrightarrow> (\<forall>k. keeps_permits K k (snd (f k)) UNIV)"

lemma keeps_permits_refl: "keeps_permits K k k H"
  by (simp add: keeps_permits_def)

lemma keeps_permits_trans: "keeps_permits K k1 k2 H \<Longrightarrow> keeps_permits K k2 k3 H \<Longrightarrow> keeps_permits K k1 k3 H"
  unfolding keeps_permits_def by (metis order_trans)

lemma release_keeps_permits: "release_law K \<Longrightarrow> keeps_permits K k (release_one K h k) H"
  by (simp add: keeps_permits_def release_one_def release_lawD)

lemma quietD: "quiet K f \<Longrightarrow> f k = (x, k') \<Longrightarrow> keeps_permits K k k' H"
  unfolding quiet_def keeps_permits_def by (metis UNIV_I snd_conv)

lemma quiet_same: "quiet K f \<Longrightarrow> (\<And>k. snd (g k) \<in> {k, snd (f k)}) \<Longrightarrow> quiet K g"
  unfolding quiet_def by (metis insertE keeps_permits_refl singletonD)

text \<open>A session whose requests take none.\<close>

definition quiet_session :: "'k kernel \<Rightarrow> ('q, 'r, 'k, 'x) ipc_session \<Rightarrow> bool" where
  "quiet_session K S \<longleftrightarrow> (\<forall>h q. quiet K (ipc_request S h q))"

lemma quiet_sessionD: "quiet_session K S \<Longrightarrow> quiet K (ipc_request S h q)"
  by (simp add: quiet_session_def)

lemma quiet_request: "quiet_session K S \<Longrightarrow> keeps_permits K k (snd (ipc_request S h q k)) H"
  by (auto simp: quiet_session_def quiet_def keeps_permits_def)

lemma quiet_requestD: "quiet_session K S \<Longrightarrow> ipc_request S h q k = (x, k') \<Longrightarrow> keeps_permits K k k' H"
  using quiet_request [of K S k h q H] by simp

text \<open>Code that takes no permit, again closed under sequencing.\<close>

definition permits_kept :: "'k kernel \<Rightarrow> (('f, 'k, 'z) runtime_scheme, 'a) io \<Rightarrow> bool" where
  "permits_kept K m \<longleftrightarrow> (\<forall>w H. keeps_permits K (kern w) (kern (snd (m w))) H)"

lemma permits_kept_bind:
  assumes "permits_kept K m" "\<And>x. permits_kept K (f x)"
  shows "permits_kept K (io_bind m f)"
  unfolding permits_kept_def
proof (intro allI)
  fix w H
  obtain r w1 where m: "m w = (r, w1)" by force
  with assms(1) have "keeps_permits K (kern w) (kern w1) H" unfolding permits_kept_def by (metis snd_conv)
  moreover from this have "keeps_permits K (kern w) (kern (snd (f x w1))) H" for x
    using assms(2) [of x] unfolding permits_kept_def by (blast intro: keeps_permits_trans)
  ultimately show "keeps_permits K (kern w) (kern (snd (io_bind m f w))) H" by (simp add: io_bind_run m split: outcome.split)
qed

lemma permits_kept_basic:
  "permits_kept K (ret x)" "permits_kept K (panic_with p)" "permits_kept K (lift_outcome y)"
  "quiet K f \<Longrightarrow> permits_kept K (on_kern f)" "release_law K \<Longrightarrow> permits_kept K (wake_queue_add K t)"
  by (auto simp: permits_kept_def on_kern_def wake_queue_add_def SyncQueue_add_def keeps_permits_refl release_keeps_permits
      split: prod.split option.split intro: quietD)

lemma produces_kern:
  assumes "TASK_QUEUE w' = TASK_QUEUE w" "WAKE_QUEUE w' = WAKE_QUEUE w" "\<And>H. keeps_permits K (kern w) (kern w') H"
  shows "(produces K)\<^sup>*\<^sup>* w w'"
  using works_elsewhere [OF assms(1,2) assms(3)] by blast

lemma behaves_same:
  assumes "\<And>w. TASK_QUEUE (snd (m w)) = TASK_QUEUE w \<and> WAKE_QUEUE (snd (m w)) = WAKE_QUEUE w"
    and "\<And>w H. keeps_permits K (kern w) (kern (snd (m w))) H"
  shows "behaves K m"
  unfolding behaves_def using assms by (blast intro: produces_kern)

lemma behaves_bind:
  assumes "behaves K m" "\<And>x. behaves K (f x)"
  shows "behaves K (io_bind m f)"
proof -
  have "(produces K)\<^sup>*\<^sup>* w (snd (io_bind m f w))" for w
  proof (cases "m w")
    case (Pair r w1)
    with assms(1) have "(produces K)\<^sup>*\<^sup>* w w1" unfolding behaves_def by (metis snd_conv)
    moreover have "(produces K)\<^sup>*\<^sup>* w1 (snd (f x w1))" for x using assms(2) by (simp add: behaves_def)
    ultimately show ?thesis
      by (cases r) (auto simp: io_bind_run Pair intro: rtranclp_trans)
  qed
  then show ?thesis by (simp add: behaves_def)
qed

lemma behaves_pure: "behaves K (ret x)" "behaves K (panic_with p)" "behaves K (lift_outcome y)"
  by (simp_all add: behaves_def)

lemma behaves_on_kern: "quiet K f \<Longrightarrow> behaves K (on_kern f)"
  by (rule behaves_same) (auto simp: on_kern_def split: prod.split intro: quietD)

lemma behaves_wake: "behaves K (wake_queue_add K t)"
  unfolding behaves_def
proof
  show "(produces K)\<^sup>*\<^sup>* w (snd (wake_queue_add K t w))" for w
    using adds_wake [of K t w "snd (wake_queue_add K t w)"]
    by (cases "WAKE_QUEUE w") (auto simp: wake_queue_add_run)
qed

text \<open>
  The task \<^verbatim>\<open>async { fut.await; }\<close>: it is polled by polling the future it awaits. The contract of a
  future, under the laws of the services it uses, passes to such a task.
\<close>

definition awaiting ::
  "(waker \<Rightarrow> 'f \<Rightarrow> (('f, 'k, 'z) runtime_scheme, 'r poll \<times> 'f) io) \<Rightarrow> ('f, 'k, 'z) poll_fn" where
  "awaiting poll fut cx =
     io_bind (poll cx fut) (\<lambda>(r, fut'). ret (case r of Ready _ \<Rightarrow> Ready () | Pending \<Rightarrow> Pending, fut'))"

lemma awaiting_run:
  "awaiting poll fut cx w =
     (case poll cx fut w of
        (Val (Ready _, fut'), w') \<Rightarrow> (Val (Ready (), fut'), w')
      | (Val (Pending, fut'), w') \<Rightarrow> (Val (Pending, fut'), w')
      | (Panic p, w') \<Rightarrow> (Panic p, w'))"
  by (simp add: awaiting_def io_bind_run split: prod.split outcome.split poll.split)

lemma awaiting_state [simp]: "snd (awaiting poll fut cx w) = snd (poll cx fut w)"
  by (simp add: awaiting_run split: prod.split outcome.split poll.split)

locale cooperative_future =
  fixes laws :: bool and K :: "'k kernel"
    and poll :: "waker \<Rightarrow> 'f \<Rightarrow> (('f, 'k, 'z) runtime_scheme, 'r poll \<times> 'f) io"
  assumes cooperates: "laws \<Longrightarrow> cooperative K poll"
begin

lemma task_cooperates: "laws \<Longrightarrow> cooperative K (\<lambda>cx fut. awaiting poll fut cx)"
  using cooperates by (simp add: cooperative_def behaves_def)

end

text \<open>The state of the system that the world shows while the executor is at a given point of its loop.\<close>

definition displays :: "exec_pc \<Rightarrow> ('f, 'k, 'z) runtime_scheme \<Rightarrow> ('f, 'k) exec_sys \<Rightarrow> bool" where
  "displays pc w s \<longleftrightarrow> (\<exists>tq wq. TASK_QUEUE w = Some tq \<and> WAKE_QUEUE w = Some wq \<and>
     s = \<lparr> es_kern = kern w, es_tasks = tq, es_wakes = wq, task_adds = 0, wake_adds = 0, es_pc = pc \<rparr>)"

definition moves :: "'k kernel \<Rightarrow> exec_pc \<Rightarrow> exec_pc \<Rightarrow> ('f, 'k, 'z) runtime_scheme \<Rightarrow> ('f, 'k, 'z) runtime_scheme \<Rightarrow> bool" where
  "moves K pc pc' w w' \<longleftrightarrow> queue_semaphores w' = queue_semaphores w \<and>
     (\<forall>s. displays pc w s \<longrightarrow> (\<exists>s'. (exec_step K)\<^sup>*\<^sup>* s s' \<and> displays pc' w' s'))"

lemma moves_refl: "moves K pc pc w w"
  by (auto simp: moves_def)

lemma moves_trans: "moves K p q u v \<Longrightarrow> moves K q r v w \<Longrightarrow> moves K p r u w"
  unfolding moves_def by (metis rtranclp_trans)

lemma moves_step:
  assumes "queue_semaphores w' = queue_semaphores w"
    and "\<And>s. displays pc w s \<Longrightarrow> \<exists>s'. exec_step K s s' \<and> displays pc' w' s'"
  shows "moves K pc pc' w w'"
  using assms unfolding moves_def by blast

lemma wake_add_run:
  "(exec_step K)\<^sup>*\<^sup>* s (s\<lparr>es_kern := release_one K (semaphore_handle (es_wakes s)) (es_kern s),
     es_wakes := push_back t (es_wakes s)\<rparr>)"
proof -
  let ?s = "s\<lparr>es_wakes := push_back t (es_wakes s), wake_adds := Suc (wake_adds s)\<rparr>"
  have "exec_step K ?s (s\<lparr>es_kern := release_one K (semaphore_handle (es_wakes s)) (es_kern s),
     es_wakes := push_back t (es_wakes s)\<rparr>)"
    using wake_release [of ?s "wake_adds s" K] by (cases s) simp
  with wake_push [of K s t] show ?thesis by (meson r_into_rtranclp rtranclp_trans)
qed

lemma task_add_run:
  "(exec_step K)\<^sup>*\<^sup>* s (s\<lparr>es_kern := release_one K (semaphore_handle (es_tasks s)) (es_kern s),
     es_tasks := push_back f (es_tasks s)\<rparr>)"
proof -
  let ?s = "s\<lparr>es_tasks := push_back f (es_tasks s), task_adds := Suc (task_adds s)\<rparr>"
  have "exec_step K ?s (s\<lparr>es_kern := release_one K (semaphore_handle (es_tasks s)) (es_kern s),
     es_tasks := push_back f (es_tasks s)\<rparr>)"
    using task_release [of ?s "task_adds s" K] by (cases s) simp
  with task_push [of K s f] show ?thesis by (meson r_into_rtranclp rtranclp_trans)
qed

lemma wake_add_moves:
  assumes "wake_queue_add K t w = (Val (), w')"
  shows "moves K pc pc w w'"
proof -
  obtain q where q: "WAKE_QUEUE w = Some q"
    and w': "w' = w\<lparr>WAKE_QUEUE := Some (push_back t q), kern := release_one K (semaphore_handle q) (kern w)\<rparr>"
    using assms by (cases "WAKE_QUEUE w") (auto simp: wake_queue_add_run)
  have "\<exists>s'. (exec_step K)\<^sup>*\<^sup>* s s' \<and> displays pc w' s'" if "displays pc w s" for s
    using that wake_add_run [of K s t] by (auto simp: displays_def w' q)
  then show ?thesis unfolding moves_def using q by (simp add: w' queue_semaphores_def)
qed

lemma task_add_moves:
  assumes "task_queue_add K f w = (Val (), w')"
  shows "moves K pc pc w w'"
proof -
  obtain q where q: "TASK_QUEUE w = Some q"
    and w': "w' = w\<lparr>TASK_QUEUE := Some (push_back f q), kern := release_one K (semaphore_handle q) (kern w)\<rparr>"
    using assms by (cases "TASK_QUEUE w") (auto simp: task_queue_add_def SyncQueue_add_def)
  have "\<exists>s'. (exec_step K)\<^sup>*\<^sup>* s s' \<and> displays pc w' s'" if "displays pc w s" for s
    using that task_add_run [of K s f] by (auto simp: displays_def w' q)
  then show ?thesis unfolding moves_def using q by (simp add: w' queue_semaphores_def)
qed

lemma produces_moves: "produces K w w' \<Longrightarrow> moves K pc pc w w'"
proof (induction rule: produces.induct)
  case (works_elsewhere w' w)
  show ?case
  proof (rule moves_step)
    fix s assume s: "displays pc w s"
    with works_elsewhere exec_step.elsewhere [of K s "kern w'"]
    show "\<exists>s'. exec_step K s s' \<and> displays pc w' s'"
      by (intro exI [of _ "s\<lparr>es_kern := kern w'\<rparr>"]) (auto simp: displays_def queue_semaphores_def insert_commute)
  qed (use works_elsewhere in \<open>simp add: queue_semaphores_def\<close>)
qed (auto intro: wake_add_moves task_add_moves)

lemma runs_move: "(produces K)\<^sup>*\<^sup>* w w' \<Longrightarrow> moves K pc pc w w'"
  by (induction rule: rtranclp_induct) (blast intro: moves_refl moves_trans produces_moves)+

lemma cooperative_moves: "cooperative K (\<lambda>cx fut. pf fut cx) \<Longrightarrow> pf fut cx w = (r, w') \<Longrightarrow> moves K pc pc w w'"
  unfolding cooperative_def behaves_def by (metis runs_move snd_conv)

lemma wake_moves:
  assumes "cooperative K (\<lambda>cx fut. pf fut cx)" "ExecutorHandler_wake L pf h t w = (Val h', w')"
  shows "moves K pc pc w w'" "task_semaphore h' = task_semaphore h" "wake_semaphore h' = wake_semaphore h"
  using assms(2) by (cases rule: wake_cases; auto intro: moves_refl cooperative_moves [OF assms(1)])+

lemma spawn_moves:
  assumes "cooperative K (\<lambda>cx fut. pf fut cx)" "ExecutorHandler_spawn L pf h fut w = (Val (r, h'), w')"
  shows "moves K pc pc w w'" "task_semaphore h' = task_semaphore h" "wake_semaphore h' = wake_semaphore h"
  using assms(2) by (cases rule: spawn_cases; auto intro: cooperative_moves [OF assms(1)])+

lemma wake_remove_moves:
  assumes "wake_queue_remove w = (Val x, w')"
  shows "moves K InWakeLoop (if x = None then AtWait else InWakeLoop) w w'"
proof -
  obtain q q' where q: "WAKE_QUEUE w = Some q" "SyncQueue_remove q = (x, q')" and w': "w' = w\<lparr>WAKE_QUEUE := Some q'\<rparr>"
    using assms by (auto simp: wake_queue_remove_def split: option.splits prod.splits)
  have h: "semaphore_handle q' = semaphore_handle q" using q(2) by (auto simp: SyncQueue_remove_def split: list.splits)
  show ?thesis
  proof (rule moves_step)
    fix s assume "displays InWakeLoop w s"
    then show "\<exists>s'. exec_step K s s' \<and> displays (if x = None then AtWait else InWakeLoop) w' s'"
      using q wake_pop [of s _ q' K] wake_done [of s q' K]
      by (cases x) (fastforce simp: displays_def w' dest: SyncQueue_remove_NoneD)+
  qed (use q h in \<open>simp add: queue_semaphores_def w'\<close>)
qed

lemma task_remove_moves:
  assumes "task_queue_remove w = (Val x, w')"
  shows "moves K InTaskLoop (if x = None then AtWait else InTaskLoop) w w'"
proof -
  obtain q q' where q: "TASK_QUEUE w = Some q" "SyncQueue_remove q = (x, q')" and w': "w' = w\<lparr>TASK_QUEUE := Some q'\<rparr>"
    using assms by (auto simp: task_queue_remove_def split: option.splits prod.splits)
  have h: "semaphore_handle q' = semaphore_handle q" using q(2) by (auto simp: SyncQueue_remove_def split: list.splits)
  show ?thesis
  proof (rule moves_step)
    fix s assume "displays InTaskLoop w s"
    then show "\<exists>s'. exec_step K s s' \<and> displays (if x = None then AtWait else InTaskLoop) w' s'"
      using q task_pop [of s _ q' K] task_done [of s q' K]
      by (cases x) (fastforce simp: displays_def w' dest: SyncQueue_remove_NoneD)+
  qed (use q h in \<open>simp add: queue_semaphores_def w'\<close>)
qed

lemma drain_wake_moves:
  assumes "cooperative K (\<lambda>cx fut. pf fut cx)" "drain_wake L pf h w = Some (Val h', w')"
  shows "moves K InWakeLoop AtWait w w' \<and> task_semaphore h' = task_semaphore h \<and> wake_semaphore h' = wake_semaphore h"
  using assms(2)
proof (induction "(Val h', w')" rule: drain_wake_rule)
  case (step h w t w1 h1 w2)
  then show ?case
    using wake_remove_moves [OF step.hyps(1), of K] wake_moves [OF assms(1) step.hyps(2)]
    by (auto intro: moves_trans)
qed (auto dest: wake_remove_moves)

lemma drain_tasks_moves:
  assumes "cooperative K (\<lambda>cx fut. pf fut cx)" "drain_tasks L pf h w = Some (Val h', w')"
  shows "moves K InTaskLoop AtWait w w' \<and> task_semaphore h' = task_semaphore h \<and> wake_semaphore h' = wake_semaphore h"
  using assms(2)
proof (induction "(Val h', w')" rule: drain_tasks_rule)
  case (step h w t w1 r h1 w2)
  then show ?case
    using task_remove_moves [OF step.hyps(1), of K] spawn_moves [OF assms(1) step.hyps(2)]
    by (auto intro: moves_trans)
qed (auto dest: task_remove_moves)

text \<open>
  The executor with all its tasks and all other threads, at the level of the code: rounds of
  the loop, between which anything may be produced.
\<close>

inductive exec_life :: "'k kernel \<Rightarrow> ('m, task_token, 'f) lite_map \<Rightarrow> ('f, 'k, 'z) poll_fn \<Rightarrow>
   'm executor_handler \<times> ('f, 'k, 'z) runtime_scheme \<Rightarrow> 'm executor_handler \<times> ('f, 'k, 'z) runtime_scheme \<Rightarrow> bool"
  for K L pf where
  round: "ExecutorHandler_run_round K L pf h w = Returns (Some (Val h', w')) \<Longrightarrow> exec_life K L pf (h, w) (h', w')"
| between: "produces K w w' \<Longrightarrow> exec_life K L pf (h, w) (h, w')"

fun code_displays :: "'m executor_handler \<times> ('f, 'k, 'z) runtime_scheme \<Rightarrow> ('f, 'k) exec_sys \<Rightarrow> bool" where
  "code_displays (h, w) s \<longleftrightarrow> displays AtWait w s \<and> queue_semaphores w = (Some (task_semaphore h), Some (wake_semaphore h))"

text \<open>The loop is entered with the two new queues and their semaphores.\<close>

definition life_start :: "'k kernel \<Rightarrow> 'm executor_handler \<times> ('f, 'k, 'z) runtime_scheme \<Rightarrow> bool" where
  "life_start K c \<longleftrightarrow> (\<exists>s. exec_start K s \<and> code_displays c s)"

lemma round_moves:
  assumes C: "cooperative K (\<lambda>cx fut. pf fut cx)"
    and r: "ExecutorHandler_run_round K L pf h w = Returns (Some (Val h', w'))"
    and q: "queue_semaphores w = (Some (task_semaphore h), Some (wake_semaphore h))"
  shows "moves K AtWait AtWait w w'" "task_semaphore h' = task_semaphore h \<and> wake_semaphore h' = wake_semaphore h"
proof -
  obtain rc idx k where k: "svcWaitSynchronizationN K [task_semaphore h, wake_semaphore h] False i64_MAX (kern w) = Some ((rc, idx), k)"
    using r by (auto simp: ExecutorHandler_run_round_def split: option.splits)
  let ?pc = "if idx = 1 then InWakeLoop else if idx = 0 then InTaskLoop else AtWait"
  have "moves K AtWait ?pc w (w\<lparr>kern := k\<rparr>)"
  proof (rule moves_step)
    fix s assume "displays AtWait w s"
    then show "\<exists>s'. exec_step K s s' \<and> displays ?pc (w\<lparr>kern := k\<rparr>) s'"
      using k q wait_return [of s K rc idx k] by (force simp: displays_def queue_semaphores_def)
  qed (simp add: queue_semaphores_def)
  moreover have "moves K ?pc AtWait (w\<lparr>kern := k\<rparr>) w' \<and> task_semaphore h' = task_semaphore h \<and> wake_semaphore h' = wake_semaphore h"
    using r k drain_wake_moves [OF C, of L h "w\<lparr>kern := k\<rparr>" h' w'] drain_tasks_moves [OF C, of L h "w\<lparr>kern := k\<rparr>" h' w']
    by (auto simp: ExecutorHandler_run_round_def Let_def moves_refl split: if_splits)
  ultimately show "moves K AtWait AtWait w w'" "task_semaphore h' = task_semaphore h \<and> wake_semaphore h' = wake_semaphore h"
    by (blast intro: moves_trans)+
qed

lemma exec_life_sim:
  assumes C: "cooperative K (\<lambda>cx fut. pf fut cx)" and rel: "code_displays c s" and step: "exec_life K L pf c c'"
  shows "\<exists>s'. (exec_step K)\<^sup>*\<^sup>* s s' \<and> code_displays c' s'"
  using step
proof cases
  case (round h w h' w')
  with rel round_moves [OF C round(3)] show ?thesis by (fastforce simp: moves_def)
next
  case (between w w' h)
  with rel produces_moves [OF between(3), of AtWait] show ?thesis by (fastforce simp: moves_def)
qed

interpretation exec_code: step_refinement "life_start K" "exec_life K L pf" "exec_start K" "exec_step K"
  "\<lambda>c s. cooperative K (\<lambda>cx fut. pf fut cx) \<longrightarrow> code_displays c s" for K L pf
  by unfold_locales (auto simp: life_start_def dest: exec_life_sim)

text \<open>Where the wait would block, nothing is queued: of the system, and so of the code.\<close>

lemma exec_inv_blocked:
  assumes "exec_laws K" "exec_inv K s" "es_pc s = AtWait" "task_adds s = 0" "wake_adds s = 0"
    and "svcWaitSynchronizationN K [semaphore_handle (es_tasks s), semaphore_handle (es_wakes s)] False i64_MAX
           (es_kern s) = None"
  shows "vals (es_tasks s) = [] \<and> vals (es_wakes s) = []"
proof -
  have "wait_any_law K" using assms(1) by (simp add: exec_laws_def)
  with assms show ?thesis
    using wait_any_law_None [OF _ assms(6)] by (auto simp: exec_inv_def announced_def)
qed

definition queued_tasks :: "('f, 'k, 'z) runtime_scheme \<Rightarrow> 'f list" where
  "queued_tasks w = (case TASK_QUEUE w of None \<Rightarrow> [] | Some q \<Rightarrow> vals q)"

lemma life_blocked:
  assumes laws: "exec_laws K" and C: "cooperative K (\<lambda>cx fut. pf fut cx)"
    and reach: "reachable (life_start K) (exec_life K L pf) (h, w)"
    and blocks: "ExecutorHandler_run_round K L pf h w = Blocks"
  shows "queued_tasks w = [] \<and> queued_wakes w = []"
proof -
  obtain s where s: "reachable (exec_start K) (exec_step K) s" "code_displays (h, w) s"
    using exec_code.reachable_sim [OF reach] C by blast
  have "exec_inv K s" using exec.reachable_inv [OF s(1)] laws by blast
  moreover have "svcWaitSynchronizationN K [semaphore_handle (es_tasks s), semaphore_handle (es_wakes s)] False i64_MAX (es_kern s) = None"
    using blocks s(2) by (auto simp: ExecutorHandler_run_round_def Let_def displays_def queue_semaphores_def split: option.splits)
  ultimately show ?thesis
    using exec_inv_blocked [OF laws, of s] s(2) by (auto simp: displays_def queued_tasks_def queued_wakes_def)
qed

section \<open>Properties\<close>

text \<open>C1: The executor never sleeps on pending work. Whatever the interleaving of pushes, releases
  and the executor's own steps, if the executor is at its wait, the wait would block and no
  call of \<^verbatim>\<open>add\<close> is between its push and its release, then both queues are empty.\<close>

theorem executor_sleeps_only_when_idle:
  assumes "exec_laws K" "reachable (exec_start K) (exec_step K) s"
    and "es_pc s = AtWait" "task_adds s = 0" "wake_adds s = 0"
    and "svcWaitSynchronizationN K [semaphore_handle (es_tasks s), semaphore_handle (es_wakes s)] False i64_MAX
           (es_kern s) = None"
  shows "vals (es_tasks s) = [] \<and> vals (es_wakes s) = []"
proof -
  have "exec_inv K s" using exec.reachable_inv [OF assms(2)] assms(1) by blast
  with assms(1) show ?thesis using assms(3-) by (rule exec_inv_blocked)
qed

lemma sim_exec_laws: "exec_laws sim_kernel"
  by (simp add: exec_laws_def sim_kernel_laws)

lemmas sim_exec_eval = exec_boot_def SyncQueue_new_def sim_kernel_def sk_boot_def sk_take_def push_back_def
  release_one_def SyncQueue_remove_def

text \<open>A run of the scheduler: a task is woken, the executor takes the token and returns to its wait.\<close>

definition one_wake :: "nat \<Rightarrow> (unit, sim_kernel_state) exec_sys" where
  "one_wake n = (let b = exec_boot sim_kernel sk_boot; q = push_back 7 (es_wakes b);
       k = release_one sim_kernel (semaphore_handle q) (es_kern b) in
     [b, b\<lparr>es_wakes := q, wake_adds := 1\<rparr>, b\<lparr>es_wakes := q, es_kern := k\<rparr>,
      b\<lparr>es_wakes := q, es_kern := sk_take 1 k, es_pc := InWakeLoop\<rparr>,
      b\<lparr>es_kern := sk_take 1 k, es_pc := InWakeLoop\<rparr>, b\<lparr>es_kern := sk_take 1 k\<rparr>] ! n)"

lemma one_wake_reachable: "reachable (exec_start sim_kernel) (exec_step sim_kernel) (one_wake 5)"
proof -
  let ?R = "reachable (exec_start sim_kernel) (exec_step sim_kernel)"
  have "exec_start sim_kernel (one_wake 0)"
    unfolding exec_start_def one_wake_def by (rule exI [of _ sk_boot]) (simp add: sim_kernel_def sk_boot_def Let_def)
  then have 0: "?R (one_wake 0)" by (rule reach_start)
  have 1: "?R (one_wake 1)"
    using reach_step [OF 0 wake_push [of sim_kernel "one_wake 0" 7]] by (simp add: one_wake_def Let_def sim_exec_eval)
  have 2: "?R (one_wake 2)"
    using reach_step [OF 1 wake_release [of "one_wake 1" 0 sim_kernel]] by (simp add: one_wake_def Let_def sim_exec_eval)
  have 3: "?R (one_wake 3)"
    using reach_step [OF 2 wait_return [of "one_wake 2" sim_kernel 0 1 "es_kern (one_wake 3)"]]
    by (simp add: one_wake_def Let_def sim_exec_eval)
  have 4: "?R (one_wake 4)"
    using reach_step [OF 3 wake_pop [of "one_wake 3" 7 "es_wakes (one_wake 4)" sim_kernel]]
    by (simp add: one_wake_def Let_def sim_exec_eval)
  show ?thesis
    using reach_step [OF 4 wake_done [of "one_wake 4" "es_wakes (one_wake 4)" sim_kernel]]
    by (simp add: one_wake_def Let_def sim_exec_eval)
qed

theorem executor_sleeps_only_when_idle_witness:
  "vals (es_tasks (one_wake 5)) = [] \<and> vals (es_wakes (one_wake 5)) = []"
  by (rule executor_sleeps_only_when_idle [OF sim_exec_laws one_wake_reachable])
     (simp_all add: one_wake_def Let_def sim_exec_eval)

text \<open>C21: Tokens are never reused. When \<^verbatim>\<open>spawn\<close> keeps a task, its token was not in the table, is
  in it afterwards, no other entry changes, the table stays well formed, and the token is not
  \<^verbatim>\<open>u32::MAX\<close>, the value by which \<^verbatim>\<open>DSMutex\<close> marks a waiting thread.\<close>

theorem spawn_fresh_token:
  assumes "lite_map_laws L" "handler_wf L h"
    and "ExecutorHandler_spawn L pf h fut w = (Val (Some t, h'), w')"
  shows "t \<noteq> u32_MAX \<and> lm_get L (tasks h) t = None \<and>
    (\<exists>fut'. lm_get L (tasks h') = (lm_get L (tasks h))(t \<mapsto> fut')) \<and> handler_wf L h'"
  using assms(3)
proof (cases rule: spawn_cases)
  case (live fut')
  moreover have "lm_get L (tasks h) (task_counter h) = None"
    using assms(2) by (force simp: handler_wf_def)
  ultimately show ?thesis
    using spawn_wf [OF assms] by (auto simp: lite_map_lawsD(2) [OF assms(1)])
qed simp

definition idle_world :: "(unit, sim_kernel_state) runtime" where
  "idle_world = \<lparr> kern = sk_boot, TASK_QUEUE = Some \<lparr>semaphore_handle = 0, vals = []\<rparr>,
     WAKE_QUEUE = Some \<lparr>semaphore_handle = 1, vals = []\<rparr>, EXECUTOR_PORT = None, REACTOR_PORT = None \<rparr>"

definition empty_handler :: "u32 \<Rightarrow> (u32 \<rightharpoonup> unit) executor_handler" where
  "empty_handler c = \<lparr> task_counter = c, tasks = Map.empty, task_semaphore = 0, wake_semaphore = 1 \<rparr>"

theorem spawn_fresh_token_witness:
  "(5 :: u32) \<noteq> u32_MAX \<and> tasks (empty_handler 5) 5 = None"
  using spawn_fresh_token [OF fun_lite_map_laws, of "empty_handler 5" "\<lambda>f wk. ret (Pending, f)" "()" idle_world 5
      "(empty_handler 5)\<lparr>task_counter := 6, tasks := [5 \<mapsto> ()]\<rparr>" idle_world]
  by (simp add: handler_wf_def fun_lite_map_def empty_handler_def spawn_run)

text \<open>C22: \<^verbatim>\<open>wake\<close> refines an update of the task map: a token without a task changes nothing, a task
  that is polled to \<^verbatim>\<open>Ready\<close> leaves the table, one that stays \<^verbatim>\<open>Pending\<close> keeps its place with its
  new state, and no other task is touched.\<close>

theorem wake_refines_map_update:
  assumes "lite_map_laws L" "ExecutorHandler_wake L pf h t w = (Val h', w')"
  shows "lm_get L (tasks h') = (lm_get L (tasks h))(t :=
     Option.bind (lm_get L (tasks h) t) (\<lambda>fut.
       case pf fut (make_waker t) w of (Val (Pending, fut'), _) \<Rightarrow> Some fut' | _ \<Rightarrow> None))"
  using assms(2)
  by (cases rule: wake_cases) (simp_all add: lite_map_lawsD(4,5) [OF assms(1)] fun_eq_iff)

theorem wake_refines_map_update_witness:
  "ExecutorHandler_wake fun_lite_map (\<lambda>f wk. ret (Ready (), f)) ((empty_handler 5)\<lparr>tasks := [3 \<mapsto> (), 4 \<mapsto> ()]\<rparr>)
     3 idle_world = (Val ((empty_handler 5)\<lparr>tasks := [4 \<mapsto> ()]\<rparr>), idle_world) \<and>
   tasks ((empty_handler 5)\<lparr>tasks := [4 \<mapsto> ()]\<rparr>) 3 = None"
proof -
  have run: "ExecutorHandler_wake fun_lite_map (\<lambda>f wk. ret (Ready (), f))
      ((empty_handler 5)\<lparr>tasks := [3 \<mapsto> (), 4 \<mapsto> ()]\<rparr>) 3 idle_world
      = (Val ((empty_handler 5)\<lparr>tasks := [4 \<mapsto> ()]\<rparr>), idle_world)"
    by (simp add: wake_run fun_lite_map_def fun_eq_iff)
  from wake_refines_map_update [OF fun_lite_map_laws run] run show ?thesis
    by (simp add: fun_lite_map_def)
qed

text \<open>C30: The loop of wakes ends, and leaves its queue empty, whenever the tasks have a budget that
  pays for the tokens their polls add: each poll may queue tokens only against a decrease of
  the budget.\<close>

theorem wake_loop_terminates:
  fixes pot :: "'m executor_handler \<Rightarrow> ('f, 'k, 'z) runtime_scheme \<Rightarrow> nat"
  assumes "\<And>h w q. pot h (w\<lparr>WAKE_QUEUE := q\<rparr>) = pot h w"
    and "\<And>h t w h' w'. ExecutorHandler_wake L pf h t w = (Val h', w') \<Longrightarrow>
      pot h' w' + length (queued_wakes w') \<le> pot h w + length (queued_wakes w)"
  shows "\<exists>r w'. drain_wake L pf h w = Some (r, w') \<and> (\<forall>h'. r = Val h' \<longrightarrow> queued_wakes w' = [])"
proof -
  obtain r w' where "drain_wake L pf h w = Some (r, w')"
    using drain_wake_returns [of pot L pf h w] assms by auto
  then show ?thesis using drain_wake_empties by blast
qed

theorem wake_loop_terminates_witness:
  "\<exists>r w'. drain_wake fun_lite_map (\<lambda>f wk. ret (Ready (), f)) (empty_handler 1) idle_world = Some (r, w') \<and>
     (\<forall>h'. r = Val h' \<longrightarrow> queued_wakes w' = [])"
  by (rule wake_loop_terminates [where pot = "\<lambda>_ _. 0"])
     (auto simp: wake_run split: option.splits)

text \<open>C38: A task that yields starves everything else. If a live task answers a poll by waking itself
  and staying \<^verbatim>\<open>Pending\<close>, and its token is the last of the queue, the loop of wakes never
  returns: the queue is last-in first-out, so neither the tokens below it nor the queue of new
  tasks is ever looked at again.\<close>

theorem yielding_task_starves_executor:
  assumes "lite_map_laws L" "yields K pf fut t" "lm_get L (tasks h) t = Some fut"
    and "WAKE_QUEUE w = Some (push_back t q)"
  shows "drain_wake L pf h w = None"
  using assms by (rule drain_wake_starves)

theorem yielding_task_starves_executor_witness:
  "drain_wake fun_lite_map (\<lambda>f wk. io_bind (Waker_wake_by_ref sim_kernel wk) (\<lambda>_. ret (Pending, f)))
     ((empty_handler 2)\<lparr>tasks := [0 \<mapsto> (), 1 \<mapsto> ()]\<rparr>)
     (idle_world\<lparr>WAKE_QUEUE := Some \<lparr>semaphore_handle = 1, vals = [1, 0]\<rparr>\<rparr>) = None"
  by (rule yielding_task_starves_executor [OF fun_lite_map_laws, of sim_kernel _ "()" 0 _ _
        "\<lparr>semaphore_handle = 1, vals = [1]\<rparr>"])
     (simp_all add: yields_def push_back_def fun_lite_map_def)

text \<open>C31: A round of the executor's loop keeps the table of tasks well formed.\<close>

theorem run_round_keeps_wf:
  assumes "lite_map_laws L" "handler_wf L h"
    and "ExecutorHandler_run_round K L pf h w = Returns (Some (Val h', w'))"
  shows "handler_wf L h'"
  using assms(2,3) drain_wake_wf [OF assms(1)] drain_tasks_wf [OF assms(1)]
  by (auto simp: ExecutorHandler_run_round_def Let_def split: option.splits prod.splits if_splits)

theorem run_round_keeps_wf_witness:
  "handler_wf fun_lite_map ((empty_handler 5)\<lparr>task_counter := 6, tasks := [5 \<mapsto> ()]\<rparr>)"
proof (rule run_round_keeps_wf [OF fun_lite_map_laws, of "empty_handler 5"])
  let ?w = "idle_world\<lparr>TASK_QUEUE := Some \<lparr>semaphore_handle = 0, vals = [()]\<rparr>, kern := sk_boot\<lparr>sk_count := (\<lambda>_. 1)\<rparr>\<rparr>"
  show "handler_wf fun_lite_map (empty_handler 5)"
    by (simp add: handler_wf_def fun_lite_map_def empty_handler_def)
  show "ExecutorHandler_run_round sim_kernel fun_lite_map (\<lambda>f wk. ret (Pending, f)) (empty_handler 5) ?w =
    Returns (Some (Val ((empty_handler 5)\<lparr>task_counter := 6, tasks := [5 \<mapsto> ()]\<rparr>),
      idle_world\<lparr>kern := sk_take 0 (sk_boot\<lparr>sk_count := (\<lambda>_. 1)\<rparr>)\<rparr>))"
    by (simp add: ExecutorHandler_run_round_def sim_kernel_def idle_world_def Let_def empty_handler_def
        drain_tasks.simps task_queue_remove_def SyncQueue_remove_def spawn_run fun_lite_map_def)
qed

end
