(* ===== verification/Oneshot.thy ===== *)
theory Oneshot
  imports Executor
begin

text \<open>
  \<^verbatim>\<open>src/sync.rs\<close>, the oneshot channel: first its operations as the code has them, then the
  sender's thread and the receiving task step by step, one step per access to shared memory,
  interleaved in any order (the memory itself is sequentially consistent).
\<close>

section \<open>The channel\<close>

record 't oneshot =
  os_value :: "'t option"
  os_state :: bool
  rx_task :: "task_token option"

definition oneshot_new :: "'t oneshot" where
  "oneshot_new = \<lparr> os_value = None, os_state = False, rx_task = None \<rparr>"

type_synonym ('t, 'f, 'k, 'z, 'a) osio = "('t oneshot \<times> ('f, 'k, 'z) runtime_scheme, 'a) io"

text \<open>\<^verbatim>\<open>if let Some(task) = rx_task.get() { WAKE_QUEUE.get().unwrap().add(*task) }\<close>\<close>

definition wake_receiver :: "'k kernel \<Rightarrow> ('t, 'f, 'k, 'z, unit) osio" where
  "wake_receiver K = (\<lambda>(c, w).
     case rx_task c of
       None \<Rightarrow> (Val (), (c, w))
     | Some task \<Rightarrow> (case wake_queue_add K task w of (r, w') \<Rightarrow> (r, (c, w'))))"

definition OneshotState_send :: "'k kernel \<Rightarrow> 't \<Rightarrow> ('t, 'f, 'k, 'z, bool) osio" where
  "OneshotState_send K value = (\<lambda>(c, w).
     if os_state c then (Val False, (c, w))
     else io_bind (wake_receiver K) (\<lambda>_. ret True) (c\<lparr>os_value := Some value, os_state := True\<rparr>, w))"

definition OneshotSender_drop :: "'k kernel \<Rightarrow> ('t, 'f, 'k, 'z, unit) osio" where
  "OneshotSender_drop K = (\<lambda>(c, w). wake_receiver K (c\<lparr>os_state := True\<rparr>, w))"

text \<open>\<^verbatim>\<open>OneshotSender::send\<close> takes the sender by value, so it is dropped when \<^verbatim>\<open>send\<close> returns.\<close>

definition OneshotSender_send :: "'k kernel \<Rightarrow> 't \<Rightarrow> ('t, 'f, 'k, 'z, bool) osio" where
  "OneshotSender_send K value =
     io_bind (OneshotState_send K value) (\<lambda>r. io_bind (OneshotSender_drop K) (\<lambda>_. ret r))"

text \<open>\<^verbatim>\<open>OnceLock::set\<close> keeps the first value.\<close>

definition once_set :: "'a \<Rightarrow> 'a option \<Rightarrow> 'a option" where
  "once_set x c = (case c of None \<Rightarrow> Some x | Some _ \<Rightarrow> c)"

definition OneshotReceiver_poll :: "waker \<Rightarrow> 't oneshot \<Rightarrow> 't option poll \<times> 't oneshot" where
  "OneshotReceiver_poll cx c =
     (let c1 = c\<lparr>rx_task := once_set (TaskToken_from_waker cx) (rx_task c)\<rparr> in
      if os_state c1 then (Ready (os_value c1), c1\<lparr>os_value := None\<rparr>) else (Pending, c1))"

lemma once_set_simps [simp]: "once_set x None = Some x" "once_set x (Some y) = Some y"
  by (simp_all add: once_set_def)

section \<open>Sender and receiver, interleaved\<close>

datatype sender_pc =
    SLoad                    \<comment> \<open>about to load the state in \<^verbatim>\<open>send\<close>\<close>
  | SValue                   \<comment> \<open>about to write the value\<close>
  | SState                   \<comment> \<open>about to store the state\<close>
  | SGet                     \<comment> \<open>about to read the receiver's token\<close>
  | SAdd task_token          \<comment> \<open>about to queue it\<close>
  | SDropStore | SDropGet | SDropAdd task_token   \<comment> \<open>the same in \<^verbatim>\<open>drop\<close>\<close>
  | SDone

datatype receiver_pc =
    RIdle                    \<comment> \<open>not polled yet\<close>
  | RSet                     \<comment> \<open>in \<^verbatim>\<open>poll\<close>, about to register its token\<close>
  | RLoad                    \<comment> \<open>about to load the state\<close>
  | RTake                    \<comment> \<open>about to take the value\<close>
  | RParked                  \<comment> \<open>the poll returned \<^verbatim>\<open>Pending\<close>\<close>
  | RFinished                \<comment> \<open>the poll returned \<^verbatim>\<open>Ready\<close>\<close>

record 't os_sys =
  cell :: "'t oneshot"
  wakes :: "task_token sync_queue"
  s_pc :: sender_pc
  r_pc :: receiver_pc
  r_out :: "'t option option"

text \<open>One step of the sender; \<open>msg\<close> is the value it sends.\<close>

definition sender_micro :: "'t \<Rightarrow> 't os_sys \<Rightarrow> 't os_sys" where
  "sender_micro msg s =
     (case s_pc s of
        SLoad \<Rightarrow> s\<lparr>s_pc := (if os_state (cell s) then SDropStore else SValue)\<rparr>
      | SValue \<Rightarrow> s\<lparr>cell := (cell s)\<lparr>os_value := Some msg\<rparr>, s_pc := SState\<rparr>
      | SState \<Rightarrow> s\<lparr>cell := (cell s)\<lparr>os_state := True\<rparr>, s_pc := SGet\<rparr>
      | SGet \<Rightarrow> s\<lparr>s_pc := (case rx_task (cell s) of None \<Rightarrow> SDropStore | Some task \<Rightarrow> SAdd task)\<rparr>
      | SAdd task \<Rightarrow> s\<lparr>wakes := push_back task (wakes s), s_pc := SDropStore\<rparr>
      | SDropStore \<Rightarrow> s\<lparr>cell := (cell s)\<lparr>os_state := True\<rparr>, s_pc := SDropGet\<rparr>
      | SDropGet \<Rightarrow> s\<lparr>s_pc := (case rx_task (cell s) of None \<Rightarrow> SDone | Some task \<Rightarrow> SDropAdd task)\<rparr>
      | SDropAdd task \<Rightarrow> s\<lparr>wakes := push_back task (wakes s), s_pc := SDone\<rparr>
      | SDone \<Rightarrow> s)"

text \<open>One step of a poll of the receiver by the task with token \<open>me\<close>.\<close>

definition receiver_micro :: "task_token \<Rightarrow> 't os_sys \<Rightarrow> 't os_sys" where
  "receiver_micro me s =
     (case r_pc s of
        RSet \<Rightarrow> s\<lparr>cell := (cell s)\<lparr>rx_task := once_set me (rx_task (cell s))\<rparr>, r_pc := RLoad\<rparr>
      | RLoad \<Rightarrow> s\<lparr>r_pc := (if os_state (cell s) then RTake else RParked)\<rparr>
      | RTake \<Rightarrow> s\<lparr>r_out := Some (os_value (cell s)), cell := (cell s)\<lparr>os_value := None\<rparr>, r_pc := RFinished\<rparr>
      | _ \<Rightarrow> s)"

text \<open>The executor has taken token \<open>t\<close>, leaving queue \<open>q\<close>: it polls the task if it is the receiver's.\<close>

definition executor_micro :: "task_token \<Rightarrow> task_token \<Rightarrow> task_token sync_queue \<Rightarrow> 't os_sys \<Rightarrow> 't os_sys" where
  "executor_micro me t q s =
     s\<lparr>wakes := q, r_pc := (if t = me \<and> r_pc s = RParked then RSet else r_pc s)\<rparr>"

text \<open>
  The executor polls the task once after it was spawned, and then whenever it takes its token
  from the queue; it takes no token while a poll is running.
\<close>

inductive os_step :: "task_token \<Rightarrow> 't \<Rightarrow> 't os_sys \<Rightarrow> 't os_sys \<Rightarrow> bool" for me msg where
  sender: "s_pc s \<noteq> SDone \<Longrightarrow> os_step me msg s (sender_micro msg s)"
| first_poll: "r_pc s = RIdle \<Longrightarrow> os_step me msg s (s\<lparr>r_pc := RSet\<rparr>)"
| receiver: "r_pc s \<in> {RSet, RLoad, RTake} \<Longrightarrow> os_step me msg s (receiver_micro me s)"
| executor: "r_pc s \<in> {RIdle, RParked, RFinished} \<Longrightarrow> SyncQueue_remove (wakes s) = (Some t, q) \<Longrightarrow>
     os_step me msg s (executor_micro me t q s)"

text \<open>
  A fresh channel. The sender either sends or is dropped without sending; the queue of wakes
  may hold any tokens, the receiver's too.
\<close>

definition os_start :: "bool \<Rightarrow> 't os_sys \<Rightarrow> bool" where
  "os_start sends s \<longleftrightarrow> cell s = oneshot_new \<and> s_pc s = (if sends then SLoad else SDropStore) \<and>
     r_pc s = RIdle \<and> r_out s = None"

section \<open>The invariant\<close>

text \<open>The sender has not stored the state yet.\<close>

definition before_store :: "bool \<Rightarrow> sender_pc \<Rightarrow> bool" where
  "before_store sends p \<longleftrightarrow> p \<in> {SLoad, SValue, SState} \<or> \<not> sends \<and> p = SDropStore"

definition sent_value :: "bool \<Rightarrow> 't \<Rightarrow> 't os_sys \<Rightarrow> 't option" where
  "sent_value sends msg s =
     (if sends \<and> s_pc s \<notin> {SLoad, SValue} \<and> r_pc s \<noteq> RFinished then Some msg else None)"

definition os_inv :: "bool \<Rightarrow> task_token \<Rightarrow> 't \<Rightarrow> 't os_sys \<Rightarrow> bool" where
  "os_inv sends me msg s \<longleftrightarrow>
     (rx_task (cell s) = None \<or> rx_task (cell s) = Some me) \<and>
     (r_pc s \<in> {RLoad, RTake, RParked, RFinished} \<longrightarrow> rx_task (cell s) = Some me) \<and>
     (\<not> sends \<longrightarrow> s_pc s \<notin> {SLoad, SValue, SState, SGet} \<and> (\<forall>t. s_pc s \<noteq> SAdd t)) \<and>
     (\<forall>t. s_pc s = SAdd t \<or> s_pc s = SDropAdd t \<longrightarrow> t = me) \<and>
     os_state (cell s) = (\<not> before_store sends (s_pc s)) \<and>
     os_value (cell s) = sent_value sends msg s \<and>
     (r_pc s \<in> {RTake, RFinished} \<longrightarrow> os_state (cell s)) \<and>
     (r_pc s = RParked \<longrightarrow> s_pc s \<noteq> SDone \<or> me \<in> set (vals (wakes s))) \<and>
     r_out s = (if r_pc s = RFinished then Some (if sends then Some msg else None) else None)"

lemma os_inv_start: "os_start sends s \<Longrightarrow> os_inv sends me msg s"
  by (auto simp: os_start_def os_inv_def oneshot_new_def before_store_def sent_value_def)

lemma os_inv_sender: "os_inv sends me msg s \<Longrightarrow> os_inv sends me msg (sender_micro msg s)"
  by (cases "s_pc s"; cases "rx_task (cell s)")
     (simp_all add: os_inv_def sender_micro_def before_store_def sent_value_def, auto)

lemma os_inv_receiver: "os_inv sends me msg s \<Longrightarrow> os_inv sends me msg (receiver_micro me s)"
  by (cases "r_pc s")
     (auto simp: os_inv_def receiver_micro_def before_store_def sent_value_def)

lemma os_inv_executor:
  assumes "os_inv sends me msg s" "SyncQueue_remove (wakes s) = (Some t, q)"
  shows "os_inv sends me msg (executor_micro me t q s)"
  using assms(1) SyncQueue_remove_SomeD [OF assms(2)]
  by (cases "r_pc s"; cases "t = me"; simp add: executor_micro_def os_inv_def before_store_def sent_value_def)

lemma os_inv_first_poll: "os_inv sends me msg s \<Longrightarrow> r_pc s = RIdle \<Longrightarrow> os_inv sends me msg (s\<lparr>r_pc := RSet\<rparr>)"
  by (simp add: os_inv_def sent_value_def)

lemma os_inv_step: "os_inv sends me msg s \<Longrightarrow> os_step me msg s t \<Longrightarrow> os_inv sends me msg t"
  by (erule os_step.cases)
     (simp_all add: os_inv_sender os_inv_receiver os_inv_executor os_inv_first_poll del: insert_iff)

interpretation oneshot: inductive_invariant "os_start sends" "os_step me msg" "os_inv sends me msg" for sends me msg
  by unfold_locales (auto intro: os_inv_start os_inv_step)

text \<open>Every step makes progress: no run is infinite.\<close>

definition sender_rank :: "sender_pc \<Rightarrow> nat" where
  "sender_rank p = (case p of SLoad \<Rightarrow> 8 | SValue \<Rightarrow> 7 | SState \<Rightarrow> 6 | SGet \<Rightarrow> 5 | SAdd _ \<Rightarrow> 4
     | SDropStore \<Rightarrow> 3 | SDropGet \<Rightarrow> 2 | SDropAdd _ \<Rightarrow> 1 | SDone \<Rightarrow> 0)"

definition receiver_rank :: "receiver_pc \<Rightarrow> nat" where
  "receiver_rank p = (case p of RIdle \<Rightarrow> 4 | RSet \<Rightarrow> 3 | RLoad \<Rightarrow> 2 | RTake \<Rightarrow> 1 | _ \<Rightarrow> 0)"

definition os_measure :: "'t os_sys \<Rightarrow> nat" where
  "os_measure s = 5 * sender_rank (s_pc s) + 4 * length (vals (wakes s)) + receiver_rank (r_pc s)"

lemma os_measure_sender: "s_pc s \<noteq> SDone \<Longrightarrow> os_measure (sender_micro msg s) < os_measure s"
  by (cases "s_pc s"; cases "rx_task (cell s)") (simp_all add: os_measure_def sender_micro_def sender_rank_def)

lemma os_measure_receiver: "r_pc s \<in> {RSet, RLoad, RTake} \<Longrightarrow> os_measure (receiver_micro me s) < os_measure s"
  by (auto simp: os_measure_def receiver_micro_def receiver_rank_def)

lemma os_measure_step: "os_step me msg s t \<Longrightarrow> os_measure t < os_measure s"
  by (erule os_step.cases)
     (auto simp: os_measure_sender os_measure_receiver simp del: insert_iff dest!: SyncQueue_remove_SomeD,
      auto simp: executor_micro_def os_measure_def receiver_rank_def)

text \<open>Where nothing can move, the sender is done, the queue is empty and the receiver has its answer.\<close>

lemma os_stuck:
  assumes inv: "os_inv sends me msg s" and stuck: "stuck (os_step me msg) s"
  shows "r_out s = Some (if sends then Some msg else None)"
proof -
  have s: "s_pc s = SDone" using stuck sender [of s me msg] by (auto simp: stuck_def)
  have r: "r_pc s \<in> {RParked, RFinished}"
    using stuck first_poll [of s me msg] receiver [of s me msg]
    by (cases "r_pc s") (auto simp: stuck_def)
  then have r': "r_pc s \<in> {RIdle, RParked, RFinished}" by blast
  have "fst (SyncQueue_remove (wakes s)) = None"
  proof (rule ccontr)
    assume "fst (SyncQueue_remove (wakes s)) \<noteq> None"
    then obtain t q where "SyncQueue_remove (wakes s) = (Some t, q)"
      by (metis not_None_eq prod.collapse)
    from stuckD [OF stuck executor [OF r' this]] show False .
  qed
  then have "vals (wakes s) = []" using sq.pop_None_iff [of "wakes s"] by simp
  with inv s r show ?thesis by (auto simp: os_inv_def)
qed

section \<open>The steps are the code\<close>

lemmas os_code = OneshotSender_send_def OneshotState_send_def OneshotSender_drop_def wake_receiver_def
  io_bind_run wake_queue_add_run sender_micro_def eval_nat_numeral Let_def

text \<open>What a poll by the task leaves of a system.\<close>

definition after_poll :: "'t option poll \<times> 't oneshot \<Rightarrow> 't os_sys \<Rightarrow> 't os_sys" where
  "after_poll r s =
     (case r of
        (Ready v, c) \<Rightarrow> s\<lparr>cell := c, r_pc := RFinished, r_out := Some v\<rparr>
      | (Pending, c) \<Rightarrow> s\<lparr>cell := c, r_pc := RParked\<rparr>)"

text \<open>The state of a system in which the sender is done, of the channel and the queue the code leaves.\<close>

definition sender_gone :: "'t oneshot \<times> ('f, 'k, 'z) runtime_scheme \<Rightarrow> 't os_sys \<Rightarrow> 't os_sys" where
  "sender_gone x s = s\<lparr>cell := fst x, wakes := the (WAKE_QUEUE (snd x)), s_pc := SDone\<rparr>"

lemma sender_micro_send:
  assumes "s_pc s = SLoad" "WAKE_QUEUE w = Some (wakes s)"
  shows "fst (OneshotSender_send K msg (cell s, w)) = Val (\<not> os_state (cell s)) \<and>
    (sender_micro msg ^^ 8) s = sender_gone (snd (OneshotSender_send K msg (cell s, w))) s"
  using assms
  by (cases "os_state (cell s)"; cases "rx_task (cell s)"; cases s) (simp_all add: os_code sender_gone_def)

lemma sender_micro_drop:
  assumes "s_pc s = SDropStore" "WAKE_QUEUE w = Some (wakes s)"
  shows "fst (OneshotSender_drop K (cell s, w)) = Val () \<and>
    (sender_micro msg ^^ 3) s = sender_gone (snd (OneshotSender_drop K (cell s, w))) s"
  using assms by (cases "rx_task (cell s)"; cases s) (simp_all add: os_code sender_gone_def)

lemma receiver_micro_poll:
  "r_pc s = RSet \<Longrightarrow>
   (receiver_micro me ^^ 3) s = after_poll (OneshotReceiver_poll (make_waker me) (cell s)) s"
  by (cases s) (simp add: receiver_micro_def OneshotReceiver_poll_def after_poll_def eval_nat_numeral Let_def)

section \<open>Schedules\<close>

text \<open>A schedule says who moves; running one from a start state stays among the reachable states.\<close>

datatype os_move = MoveSender | MoveFirstPoll | MoveReceiver | MoveExecutor

definition os_move :: "task_token \<Rightarrow> 't \<Rightarrow> os_move \<Rightarrow> 't os_sys \<Rightarrow> 't os_sys option" where
  "os_move me msg mv s =
     (case mv of
        MoveSender \<Rightarrow> if s_pc s \<noteq> SDone then Some (sender_micro msg s) else None
      | MoveFirstPoll \<Rightarrow> if r_pc s = RIdle then Some (s\<lparr>r_pc := RSet\<rparr>) else None
      | MoveReceiver \<Rightarrow> if r_pc s \<in> {RSet, RLoad, RTake} then Some (receiver_micro me s) else None
      | MoveExecutor \<Rightarrow>
          (case SyncQueue_remove (wakes s) of
             (Some t, q) \<Rightarrow> if r_pc s \<in> {RIdle, RParked, RFinished}
                then Some (executor_micro me t q s) else None
           | (None, _) \<Rightarrow> None))"

fun os_run :: "task_token \<Rightarrow> 't \<Rightarrow> os_move list \<Rightarrow> 't os_sys \<Rightarrow> 't os_sys option" where
  "os_run me msg [] s = Some s"
| "os_run me msg (mv # mvs) s = Option.bind (os_move me msg mv s) (os_run me msg mvs)"

lemma os_move_step: "os_move me msg mv s = Some t \<Longrightarrow> os_step me msg s t"
  by (cases mv) (auto simp: os_move_def split: if_splits prod.splits option.splits intro: os_step.intros)

lemma os_run_reachable:
  "reachable st (os_step me msg) s \<Longrightarrow> os_run me msg mvs s = Some t \<Longrightarrow> reachable st (os_step me msg) t"
proof (induction mvs arbitrary: s)
  case (Cons mv mvs)
  then obtain u where "os_move me msg mv s = Some u" "os_run me msg mvs u = Some t"
    by (auto split: bind_splits)
  with Cons show ?case by (blast intro: reach_step os_move_step)
qed simp

definition os_boot :: "bool \<Rightarrow> 't os_sys" where
  "os_boot sends = \<lparr> cell = oneshot_new, wakes = \<lparr>semaphore_handle = 1, vals = []\<rparr>,
     s_pc = (if sends then SLoad else SDropStore), r_pc = RIdle, r_out = None \<rparr>"

lemma os_boot_reachable: "reachable (os_start sends) (os_step me msg) (os_boot sends)"
  by (rule reach_start) (simp add: os_start_def os_boot_def)

text \<open>The receiver registers and parks, the sender sends and is dropped, the receiver is woken.\<close>

definition os_demo_schedule :: "os_move list" where
  "os_demo_schedule = [MoveFirstPoll, MoveReceiver, MoveReceiver] @ replicate 8 MoveSender @
     [MoveExecutor, MoveReceiver, MoveReceiver, MoveReceiver, MoveExecutor]"

definition os_demo_end :: "nat os_sys" where
  "os_demo_end = \<lparr> cell = \<lparr>os_value = None, os_state = True, rx_task = Some 7\<rparr>,
     wakes = \<lparr>semaphore_handle = 1, vals = []\<rparr>, s_pc = SDone, r_pc = RFinished, r_out = Some (Some 42) \<rparr>"

lemmas os_demo_eval = executor_micro_def os_boot_def oneshot_new_def os_move_def sender_micro_def receiver_micro_def
  push_back_def SyncQueue_remove_def eval_nat_numeral

lemma os_demo_run: "os_run 7 42 os_demo_schedule (os_boot True) = Some os_demo_end"
  by (simp add: os_demo_schedule_def os_demo_end_def os_demo_eval)

lemma os_demo_stuck: "stuck (os_step 7 42) os_demo_end"
  by (auto simp: stuck_def os_demo_end_def elim!: os_step.cases)

section \<open>Properties\<close>

text \<open>C2: No wakeup is lost and no value is lost. In every interleaving of a sender (that sends
  \<open>msg\<close>, or is dropped without sending) with the receiving task, each step uses up a finite
  budget, and when nothing can move any more the receiver's \<^verbatim>\<open>await\<close> has returned: \<^verbatim>\<open>Some(msg)\<close> if
  the sender sent, \<^verbatim>\<open>None\<close> if it was dropped.\<close>

theorem oneshot_delivers:
  assumes "reachable (os_start sends) (os_step me msg) s"
  shows "(\<forall>t. os_step me msg s t \<longrightarrow> os_measure t < os_measure s) \<and>
    (stuck (os_step me msg) s \<longrightarrow> r_out s = Some (if sends then Some msg else None))"
proof (intro conjI allI impI)
  fix t
  assume "os_step me msg s t"
  then show "os_measure t < os_measure s" by (rule os_measure_step)
next
  assume "stuck (os_step me msg) s"
  with oneshot.reachable_inv [OF assms] show "r_out s = Some (if sends then Some msg else None)"
    by (rule os_stuck)
qed

theorem oneshot_delivers_witness:
  "stuck (os_step 7 42) os_demo_end \<and> r_out os_demo_end = Some (Some 42)"
  using oneshot_delivers [OF os_run_reachable [OF os_boot_reachable os_demo_run]] os_demo_stuck by simp

text \<open>The value is never touched by both sides at once: where the receiver is about to take it, the
  sender has already stored the state, and what the receiver finds is the sent value (or nothing,
  if the sender was dropped).\<close>

lemma oneshot_value_exclusive:
  assumes "reachable (os_start sends) (os_step me msg) s" "r_pc s = RTake"
  shows "s_pc s \<notin> {SLoad, SValue, SState} \<and> os_value (cell s) = (if sends then Some msg else None)"
  using oneshot.reachable_inv [OF assms(1)] assms(2)
  by (auto simp: os_inv_def before_store_def sent_value_def)


text \<open>A receiver is registered with token 7; the sender sends 42 and wakes it, twice.\<close>

definition os_parked :: "nat os_sys" where
  "os_parked = (os_boot True)\<lparr>cell := \<lparr>os_value = None, os_state = False, rx_task = Some 7\<rparr>, r_pc := RParked\<rparr>"


end
