(* ===== verification/Ctru_Thread.thy ===== *)
theory Ctru_Thread
  imports Oneshot
begin

text \<open>
  \<^verbatim>\<open>src/ctru_thread.rs\<close>: threads of the system library with a joinable result, and
  \<^verbatim>\<open>spawn_blocking\<close> of \<^verbatim>\<open>src/executor.rs\<close>, which runs a closure on such a thread and hands
  its result to a task through a oneshot channel. The closure is given by its outcome.
\<close>

section \<open>Threads of the system library\<close>

text \<open>
  \<^verbatim>\<open>threadCreate\<close> returns a null handle on failure. \<^verbatim>\<open>threadJoin\<close> and \<^verbatim>\<open>threadDetach\<close> see
  whether the thread's entry function has returned; a join that does not return is \<^const>\<open>None\<close>.
\<close>

record 'k threads =
  svcGetThreadPriority :: "u32 \<Rightarrow> 'k \<Rightarrow> i32"
  svcGetProcessorID :: "'k \<Rightarrow> i32"
  threadCreate :: "usize \<Rightarrow> i32 \<Rightarrow> i32 \<Rightarrow> 'k \<Rightarrow> u32 \<times> 'k"
  threadJoin :: "u32 \<Rightarrow> u64 \<Rightarrow> bool \<Rightarrow> 'k \<Rightarrow> (i32 \<times> 'k) option"
  threadFree :: "u32 \<Rightarrow> 'k \<Rightarrow> 'k"
  threadDetach :: "u32 \<Rightarrow> bool \<Rightarrow> 'k \<Rightarrow> 'k"
  thread_handles :: "'k \<Rightarrow> u32 set"

text \<open>
  The documented behaviour: a created thread has a handle not in use, a join without timeout
  waits for the entry function, and handles stay in use until they are freed.
\<close>

definition threads_law :: "'k threads \<Rightarrow> bool" where
  "threads_law Th \<longleftrightarrow>
     (\<forall>st p a k h k'. threadCreate Th st p a k = (h, k') \<longrightarrow>
        (if h = 0 then thread_handles Th k' = thread_handles Th k
         else h \<notin> thread_handles Th k \<and> thread_handles Th k' = insert h (thread_handles Th k))) \<and>
     (\<forall>h k. threadJoin Th h (2 ^ 64 - 1) False k = None) \<and>
     (\<forall>h k. \<exists>r k'. threadJoin Th h (2 ^ 64 - 1) True k = Some (r, k') \<and> thread_handles Th k' = thread_handles Th k) \<and>
     (\<forall>h k. thread_handles Th (threadFree Th h k) = thread_handles Th k - {h})"

lemma threads_lawD:
  assumes "threads_law Th"
  shows "threadCreate Th st p a k = (h, k') \<Longrightarrow>
      if h = 0 then thread_handles Th k' = thread_handles Th k
      else h \<notin> thread_handles Th k \<and> thread_handles Th k' = insert h (thread_handles Th k)"
    and "threadJoin Th h (2 ^ 64 - 1) False k = None"
    and "\<exists>r k'. threadJoin Th h (2 ^ 64 - 1) True k = Some (r, k') \<and> thread_handles Th k' = thread_handles Th k"
    and "thread_handles Th (threadFree Th h k) = thread_handles Th k - {h}"
proof -
  note l = assms [unfolded threads_law_def]
  show "threadCreate Th st p a k = (h, k') \<Longrightarrow>
      if h = 0 then thread_handles Th k' = thread_handles Th k
      else h \<notin> thread_handles Th k \<and> thread_handles Th k' = insert h (thread_handles Th k)"
    by (rule l [THEN conjunct1, rule_format])
  show "threadJoin Th h (2 ^ 64 - 1) False k = None" by (rule l [THEN conjunct2, THEN conjunct1, rule_format])
  show "\<exists>r k'. threadJoin Th h (2 ^ 64 - 1) True k = Some (r, k') \<and> thread_handles Th k' = thread_handles Th k"
    by (rule l [THEN conjunct2, THEN conjunct2, THEN conjunct1, rule_format])
  show "thread_handles Th (threadFree Th h k) = thread_handles Th k - {h}"
    by (rule l [THEN conjunct2, THEN conjunct2, THEN conjunct2, rule_format])
qed

section \<open>Operations\<close>

record thread_builder =
  stack_size :: usize
  priority :: "i32 option"
  affinity :: "i32 option"

text \<open>\<^verbatim>\<open>RawJoin\<close>: the handle of the thread and the address of its packet.\<close>

record raw_join =
  native :: "u32 option"
  packet :: nat

text \<open>
  The packets, each \<^verbatim>\<open>Option<ThreadResult<T>>\<close> with a panic as the error, the threads whose
  entry function still runs (handle, packet, outcome of the closure) and the handles of
  those that returned.
\<close>

record ('k, 't) thread_world =
  tkern :: 'k
  packets :: "'t outcome option list"
  running :: "(u32 \<times> nat \<times> 't outcome) list"
  returned :: "u32 set"

definition RawThread_new ::
  "'k threads \<Rightarrow> usize \<Rightarrow> i32 \<Rightarrow> i32 \<Rightarrow> nat \<Rightarrow> 't outcome \<Rightarrow> (('k, 't) thread_world, u32) io" where
  "RawThread_new Th stack prio aff their_packet f w =
     (case threadCreate Th stack prio aff (tkern w) of (handle, k) \<Rightarrow>
        if handle = 0 then (Panic (Explicit ''failed to spawn thread''), w\<lparr>tkern := k\<rparr>)
        else (Val handle, w\<lparr>tkern := k, running := running w @ [(handle, their_packet, f)],
                            returned := returned w - {handle}\<rparr>))"

definition spawn_thread ::
  "'k threads \<Rightarrow> thread_builder \<Rightarrow> 't outcome \<Rightarrow> (('k, 't) thread_world, raw_join) io" where
  "spawn_thread Th b f w =
     (let prio = (case priority b of Some p \<Rightarrow> p | None \<Rightarrow> svcGetThreadPriority Th 0xFFFF8000 (tkern w));
          aff = (case affinity b of Some a \<Rightarrow> a | None \<Rightarrow> svcGetProcessorID Th (tkern w));
          my_packet = length (packets w) in
      io_bind (RawThread_new Th (stack_size b) prio aff my_packet f)
        (\<lambda>handle. ret \<lparr> native = Some handle, packet = my_packet \<rparr>)
        (w\<lparr>packets := packets w @ [None]\<rparr>))"

text \<open>
  The entry function: \<^verbatim>\<open>_start_thread\<close> calls \<^verbatim>\<open>main\<close>, which catches a panic of the closure and
  stores the result in the packet.
\<close>

definition start_thread :: "u32 \<times> nat \<times> 't outcome \<Rightarrow> ('k, 't) thread_world \<Rightarrow> ('k, 't) thread_world" where
  "start_thread th w =
     (case th of (handle, their_packet, try_result) \<Rightarrow>
        w\<lparr>packets := (packets w)[their_packet := Some try_result],
          running := remove1 th (running w), returned := insert handle (returned w)\<rparr>)"

definition RawThread_join :: "'k threads \<Rightarrow> u32 \<Rightarrow> ('k, 't) thread_world \<Rightarrow> ('k, 't) thread_world blocking" where
  "RawThread_join Th handle w =
     (case threadJoin Th handle (2 ^ 64 - 1) (handle \<in> returned w) (tkern w) of
        None \<Rightarrow> Blocks
      | Some (_, k) \<Rightarrow> Returns (w\<lparr>tkern := threadFree Th handle k\<rparr>))"

definition RawThread_drop :: "'k threads \<Rightarrow> u32 \<Rightarrow> ('k, 't) thread_world \<Rightarrow> ('k, 't) thread_world" where
  "RawThread_drop Th handle w = w\<lparr>tkern := threadDetach Th handle (handle \<in> returned w) (tkern w)\<rparr>"

definition RawJoin_join ::
  "'k threads \<Rightarrow> raw_join \<Rightarrow> ('k, 't) thread_world \<Rightarrow> ('t outcome outcome \<times> ('k, 't) thread_world) blocking" where
  "RawJoin_join Th self w =
     (case native self of
        None \<Rightarrow> Returns (Panic UnwrapNone, w)
      | Some handle \<Rightarrow>
          (case RawThread_join Th handle w of
             Blocks \<Rightarrow> Blocks
           | Returns w1 \<Rightarrow>
               Returns (case packets w1 ! packet self of
                          None \<Rightarrow> (Panic UnwrapNone, w1)
                        | Some r \<Rightarrow> (Val r, w1\<lparr>packets := (packets w1)[packet self := None]\<rparr>))))"

text \<open>
  The thread of \<^verbatim>\<open>spawn_blocking\<close>: the closure's value is sent; if the closure panics,
  unwinding drops the sender.
\<close>

definition spawn_blocking_main :: "'k kernel \<Rightarrow> 't outcome \<Rightarrow> ('t, 'f, 'k, 'z, unit) osio" where
  "spawn_blocking_main K func =
     (case func of
        Val res \<Rightarrow> io_bind (OneshotSender_send K res) (\<lambda>_. ret ())
      | Panic p \<Rightarrow> io_bind (OneshotSender_drop K) (\<lambda>_. panic_with p))"

text \<open>
  \<^verbatim>\<open>spawn_blocking\<close>: a new channel, a thread for the closure, and the thread's handle dropped
  on return; what is left is the receiver.
\<close>

definition spawn_blocking ::
  "'k threads \<Rightarrow> i32 option \<Rightarrow> i32 option \<Rightarrow> unit outcome \<Rightarrow> (('k, unit) thread_world, 't oneshot) io" where
  "spawn_blocking Th prio aff main =
     io_bind (spawn_thread Th \<lparr> stack_size = 1024 * 1024, priority = prio, affinity = aff \<rparr> main)
       (\<lambda>j w. (Val oneshot_new, case native j of None \<Rightarrow> w | Some h \<Rightarrow> RawThread_drop Th h w))"

section \<open>Any number of threads\<close>

text \<open>The threads, and the join handles that are still held, each with its closure's outcome.\<close>

record ('k, 't) thread_sys =
  tw :: "('k, 't) thread_world"
  joins :: "(raw_join \<times> 't outcome) list"

definition thread_start :: "'k threads \<Rightarrow> ('k, 't) thread_sys \<Rightarrow> bool" where
  "thread_start Th s \<longleftrightarrow> running (tw s) = [] \<and> joins s = []"

inductive thread_step :: "'k threads \<Rightarrow> ('k, 't) thread_sys \<Rightarrow> ('k, 't) thread_sys \<Rightarrow> bool" for Th where
  spawn: "spawn_thread Th b f (tw s) = (Val j, w) \<Longrightarrow> thread_step Th s (s\<lparr>tw := w, joins := joins s @ [(j, f)]\<rparr>)"
| spawn_fails: "spawn_thread Th b f (tw s) = (Panic p, w) \<Longrightarrow> thread_step Th s (s\<lparr>tw := w\<rparr>)"
| run: "th \<in> set (running (tw s)) \<Longrightarrow> thread_step Th s (s\<lparr>tw := start_thread th (tw s)\<rparr>)"
| join: "(j, f) \<in> set (joins s) \<Longrightarrow> RawJoin_join Th j (tw s) = Returns (r, w) \<Longrightarrow>
    thread_step Th s (s\<lparr>tw := w, joins := remove1 (j, f) (joins s)\<rparr>)"

text \<open>
  A held join handle belongs to a running thread with an empty packet, or to a returned
  thread whose packet holds the closure's outcome; no two share a handle or a packet.
\<close>

definition join_ok :: "'k threads \<Rightarrow> ('k, 't) thread_world \<Rightarrow> raw_join \<times> 't outcome \<Rightarrow> bool" where
  "join_ok Th w jf = (case jf of (j, f) \<Rightarrow>
     case native j of
       None \<Rightarrow> False
     | Some h \<Rightarrow> h \<in> thread_handles Th (tkern w) \<and> packet j < length (packets w) \<and>
         (if h \<in> returned w then packets w ! packet j = Some f
          else (h, packet j, f) \<in> set (running w)))"

definition running_ok ::
  "'k threads \<Rightarrow> ('k, 't) thread_world \<Rightarrow> (raw_join \<times> 't outcome) list \<Rightarrow> u32 \<times> nat \<times> 't outcome \<Rightarrow> bool" where
  "running_ok Th w js th = (case th of (h, a, f) \<Rightarrow>
     h \<in> thread_handles Th (tkern w) \<and> h \<notin> returned w \<and> a < length (packets w) \<and>
     (\<forall>(j, g) \<in> set js. (native j = Some h) = (packet j = a) \<and> (packet j = a \<longrightarrow> g = f)))"

definition thread_inv :: "'k threads \<Rightarrow> ('k, 't) thread_sys \<Rightarrow> bool" where
  "thread_inv Th s \<longleftrightarrow>
     (\<forall>jf \<in> set (joins s). join_ok Th (tw s) jf) \<and>
     distinct (map (native \<circ> fst) (joins s)) \<and> distinct (map (packet \<circ> fst) (joins s)) \<and>
     distinct (map fst (running (tw s))) \<and>
     (\<forall>th \<in> set (running (tw s)). running_ok Th (tw s) (joins s) th)"

lemma thread_inv_start: "thread_start Th s \<Longrightarrow> thread_inv Th s"
  by (simp add: thread_start_def thread_inv_def)

lemma spawn_thread_cases:
  assumes "threads_law Th" "spawn_thread Th b f w = (r, w')"
  obtains h k where "r = Val \<lparr> native = Some h, packet = length (packets w) \<rparr>"
    "h \<notin> thread_handles Th (tkern w)" "thread_handles Th k = insert h (thread_handles Th (tkern w))"
    "w' = w\<lparr>packets := packets w @ [None], tkern := k, running := running w @ [(h, length (packets w), f)],
            returned := returned w - {h}\<rparr>"
  | k where "r = Panic (Explicit ''failed to spawn thread'')" "thread_handles Th k = thread_handles Th (tkern w)"
    "w' = w\<lparr>packets := packets w @ [None], tkern := k\<rparr>"
proof -
  define p a where "p = (case priority b of Some p \<Rightarrow> p | None \<Rightarrow> svcGetThreadPriority Th 0xFFFF8000 (tkern w))"
    and "a = (case affinity b of Some a \<Rightarrow> a | None \<Rightarrow> svcGetProcessorID Th (tkern w))"
  obtain h k where c: "threadCreate Th (stack_size b) p a (tkern w) = (h, k)" by force
  have law: "if h = 0 then thread_handles Th k = thread_handles Th (tkern w)
       else h \<notin> thread_handles Th (tkern w) \<and> thread_handles Th k = insert h (thread_handles Th (tkern w))"
    by (rule threads_lawD(1) [OF assms(1) c])
  have run: "spawn_thread Th b f w =
      (if h = 0 then (Panic (Explicit ''failed to spawn thread''), w\<lparr>packets := packets w @ [None], tkern := k\<rparr>)
       else (Val \<lparr> native = Some h, packet = length (packets w) \<rparr>,
             w\<lparr>packets := packets w @ [None], tkern := k, running := running w @ [(h, length (packets w), f)],
               returned := returned w - {h}\<rparr>))"
    using c by (simp add: spawn_thread_def RawThread_new_def io_bind_def ret_def
        p_def [symmetric] a_def [symmetric] Let_def)
  show thesis
  proof (cases "h = 0")
    case True
    show thesis by (rule that(2)) (use True run law assms(2) in simp_all)
  next
    case False
    show thesis by (rule that(1)) (use False run law assms(2) in simp_all)
  qed
qed

text \<open>Facts of the invariant in the form the proofs use them.\<close>

lemma thread_inv_join:
  assumes "thread_inv Th s" "(j, g) \<in> set (joins s)"
  obtains h where "native j = Some h" "h \<in> thread_handles Th (tkern (tw s))" "packet j < length (packets (tw s))"
    "if h \<in> returned (tw s) then packets (tw s) ! packet j = Some g else (h, packet j, g) \<in> set (running (tw s))"
  using assms by (fastforce simp: thread_inv_def join_ok_def split: option.splits)

lemma thread_inv_running:
  assumes "thread_inv Th s" "(h, a, f) \<in> set (running (tw s))"
  shows "h \<in> thread_handles Th (tkern (tw s))" "h \<notin> returned (tw s)" "a < length (packets (tw s))"
    "(j, g) \<in> set (joins s) \<Longrightarrow> (native j = Some h) = (packet j = a)"
    "(j, g) \<in> set (joins s) \<Longrightarrow> packet j = a \<Longrightarrow> g = f"
  using assms by (fastforce simp: thread_inv_def running_ok_def)+

lemma thread_inv_spawn:
  assumes inv: "thread_inv Th s" and new: "h \<notin> thread_handles Th (tkern (tw s))"
    and k: "thread_handles Th k = insert h (thread_handles Th (tkern (tw s)))"
    and n: "n = length (packets (tw s))"
    and w: "w = (tw s)\<lparr>packets := packets (tw s) @ [None], tkern := k,
      running := running (tw s) @ [(h, n, f)], returned := returned (tw s) - {h}\<rparr>"
    and j0: "j0 = \<lparr> native = Some h, packet = n \<rparr>"
  shows "thread_inv Th (s\<lparr>tw := w, joins := joins s @ [(j0, f)]\<rparr>)"
proof -
  have old: "native j \<noteq> Some h" "packet j < n" "join_ok Th w (j, g)" if "(j, g) \<in> set (joins s)" for j g
    by (rule thread_inv_join [OF inv that]; use new in \<open>auto simp: join_ok_def w n k nth_append split: if_splits\<close>)+
  have run: "h' \<noteq> h" "a < n" "running_ok Th w (joins s @ [(j0, f)]) (h', a, g)"
    if "(h', a, g) \<in> set (running (tw s))" for h' a g
  proof -
    note r = thread_inv_running [OF inv that]
    show "h' \<noteq> h" "a < n" using r(1,3) new n by auto
    then show "running_ok Th w (joins s @ [(j0, f)]) (h', a, g)"
      using r by (auto simp: running_ok_def w k j0)
  qed
  have "join_ok Th w (j0, f)" by (simp add: join_ok_def w j0 n k)
  moreover have "running_ok Th w (joins s @ [(j0, f)]) (h, n, f)"
    using old(1,2) by (force simp: running_ok_def w j0 n k)
  moreover have "h \<notin> set (map fst (running (tw s)))" using run(1) by fastforce
  moreover have "Some h \<notin> set (map (native \<circ> fst) (joins s))" "n \<notin> set (map (packet \<circ> fst) (joins s))"
    using old(1,2) by fastforce+
  moreover have "running w = running (tw s) @ [(h, n, f)]" by (simp add: w)
  ultimately show ?thesis using inv old(3) run(3) by (auto simp: thread_inv_def j0)
qed

lemma thread_inv_spawn_fails:
  assumes inv: "thread_inv Th s" and k: "thread_handles Th k = thread_handles Th (tkern (tw s))"
    and w: "w = (tw s)\<lparr>packets := packets (tw s) @ [None], tkern := k\<rparr>"
  shows "thread_inv Th (s\<lparr>tw := w\<rparr>)"
proof -
  have "join_ok Th w (j, g)" if "(j, g) \<in> set (joins s)" for j g
    by (rule thread_inv_join [OF inv that]) (auto simp: join_ok_def w k nth_append split: if_splits)
  moreover have "running_ok Th w (joins s) (h, a, f)" if "(h, a, f) \<in> set (running (tw s))" for h a f
    using thread_inv_running [OF inv that] by (auto simp: running_ok_def w k)
  moreover have "running w = running (tw s)" by (simp add: w)
  ultimately show ?thesis using inv by (auto simp: thread_inv_def)
qed

lemma thread_inv_run:
  assumes inv: "thread_inv Th s" and th: "th \<in> set (running (tw s))"
  shows "thread_inv Th (s\<lparr>tw := start_thread th (tw s)\<rparr>)"
proof -
  obtain h a f where hf: "th = (h, a, f)" using prod_cases3 by blast
  note r = thread_inv_running [OF inv th [unfolded hf]]
  define w where "w = start_thread th (tw s)"
  have w: "packets w = (packets (tw s))[a := Some f]" "running w = remove1 th (running (tw s))"
    "returned w = insert h (returned (tw s))" "tkern w = tkern (tw s)"
    by (simp_all add: w_def start_thread_def hf)
  have d: "distinct (map fst (running (tw s)))" using inv by (simp add: thread_inv_def)
  have "join_ok Th w (j, g)" if jg: "(j, g) \<in> set (joins s)" for j g
    by (rule thread_inv_join [OF inv jg], cases "packet j = a")
      (use r(3) r(4,5) [OF jg] in \<open>auto simp: join_ok_def w hf in_set_remove1 split: if_splits\<close>)
  moreover have "running_ok Th w (joins s) (h', a', f')" if "(h', a', f') \<in> set (running w)" for h' a' f'
  proof -
    have "(h', a', f') \<in> set (running (tw s))" "h' \<noteq> h"
      using that d th by (fastforce simp: w hf distinct_map set_remove1_eq inj_on_def)+
    then show ?thesis using thread_inv_running [OF inv, of h' a' f'] by (auto simp: running_ok_def w)
  qed
  moreover have "distinct (map fst (running w))"
    using d by (auto simp: w distinct_map inj_on_def set_remove1_eq)
  ultimately show ?thesis using inv by (auto simp: thread_inv_def w_def [symmetric])
qed

lemma join_run:
  assumes law: "threads_law Th" and inv: "thread_inv Th s" and j: "(j, f) \<in> set (joins s)"
  shows "if the (native j) \<in> returned (tw s)
    then \<exists>k. RawJoin_join Th j (tw s) =
        Returns (Val f, (tw s)\<lparr>tkern := k, packets := (packets (tw s))[packet j := None]\<rparr>) \<and>
        thread_handles Th k = thread_handles Th (tkern (tw s)) - {the (native j)}
    else RawJoin_join Th j (tw s) = Blocks"
proof (rule thread_inv_join [OF inv j])
  fix h
  assume h: "native j = Some h" "if h \<in> returned (tw s) then packets (tw s) ! packet j = Some f
     else (h, packet j, f) \<in> set (running (tw s))"
  obtain r k where k: "threadJoin Th h (2 ^ 64 - 1) True (tkern (tw s)) = Some (r, k)"
    "thread_handles Th k = thread_handles Th (tkern (tw s))"
    using threads_lawD(3) [OF law] by blast
  show ?thesis
  proof (cases "h \<in> returned (tw s)")
    case True
    then have "RawJoin_join Th j (tw s) = Returns (Val f, (tw s)\<lparr>tkern := threadFree Th h k,
        packets := (packets (tw s))[packet j := None]\<rparr>)"
      using h k by (simp add: RawJoin_join_def RawThread_join_def)
    then show ?thesis using True h(1) k(2) threads_lawD(4) [OF law, of h k] by auto
  next
    case False
    then show ?thesis using h(1) threads_lawD(2) [OF law, of h "tkern (tw s)"]
      by (simp add: RawJoin_join_def RawThread_join_def)
  qed
qed

lemma distinct_joins_remove1:
  assumes "thread_inv Th s" "(j, f) \<in> set (joins s)" "(i, g) \<in> set (remove1 (j, f) (joins s))"
  shows "(i, g) \<in> set (joins s)" "native i \<noteq> native j" "packet i \<noteq> packet j"
proof -
  have d: "distinct (map (native \<circ> fst) (joins s))" "distinct (map (packet \<circ> fst) (joins s))"
    using assms(1) by (simp_all add: thread_inv_def)
  then have ne: "(i, g) \<noteq> (j, f)" and m: "(i, g) \<in> set (joins s)"
    using assms(3) by (auto simp: distinct_map)
  show "(i, g) \<in> set (joins s)" by (rule m)
  show "native i \<noteq> native j" "packet i \<noteq> packet j"
    using d ne m assms(2) by (fastforce simp: distinct_map inj_on_def)+
qed

lemma thread_inv_joined:
  assumes inv: "thread_inv Th s" and j: "(j, f) \<in> set (joins s)" and h: "native j = Some h" "h \<in> returned (tw s)"
    and k: "thread_handles Th k = thread_handles Th (tkern (tw s)) - {h}"
    and w: "w = (tw s)\<lparr>tkern := k, packets := (packets (tw s))[packet j := None]\<rparr>"
  shows "thread_inv Th (s\<lparr>tw := w, joins := remove1 (j, f) (joins s)\<rparr>)"
proof -
  have "join_ok Th w (i, g)" if i: "(i, g) \<in> set (remove1 (j, f) (joins s))" for i g
  proof -
    note d = distinct_joins_remove1 [OF inv j i]
    show ?thesis
      by (rule thread_inv_join [OF inv d(1)]) (use d(2,3) h(1) in \<open>auto simp: join_ok_def w k split: if_splits\<close>)
  qed
  moreover have "running_ok Th w (remove1 (j, f) (joins s)) (h', a, g)" if r: "(h', a, g) \<in> set (running (tw s))" for h' a g
    using thread_inv_running [OF inv r] h(2) by (auto simp: running_ok_def w k dest!: subsetD [OF set_remove1_subset])
  moreover have "running w = running (tw s)" by (simp add: w)
  moreover have "distinct (map (native \<circ> fst) (remove1 (j, f) (joins s)))" "distinct (map (packet \<circ> fst) (remove1 (j, f) (joins s)))"
    using inv by (auto simp: thread_inv_def distinct_map intro: inj_on_diff)
  ultimately show ?thesis using inv by (auto simp: thread_inv_def)
qed

lemma thread_inv_step:
  assumes "thread_step Th s s'" "threads_law Th" "thread_inv Th s"
  shows "thread_inv Th s'"
  using assms(1)
proof (cases rule: thread_step.cases)
  case (spawn b f j w)
  from assms(2) spawn(2) show ?thesis
    by (rule spawn_thread_cases) (use spawn(1) thread_inv_spawn [OF assms(3)] in auto)
next
  case (spawn_fails b f p w)
  from assms(2) spawn_fails(2) show ?thesis
    by (rule spawn_thread_cases) (use spawn_fails(1) thread_inv_spawn_fails [OF assms(3)] in auto)
next
  case (run th)
  then show ?thesis using thread_inv_run [OF assms(3)] by simp
next
  case (join j f r w)
  obtain h where h: "native j = Some h" using thread_inv_join [OF assms(3) join(2)] by metis
  then show ?thesis
    using join_run [OF assms(2,3) join(2)] join thread_inv_joined [OF assms(3) join(2) h]
    by (auto split: if_splits)
qed

interpretation thread: inductive_invariant "thread_start Th" "thread_step Th"
  "\<lambda>s. threads_law Th \<longrightarrow> thread_inv Th s" for Th
  by unfold_locales (auto intro: thread_inv_start thread_inv_step)

section \<open>Properties\<close>


text \<open>
  Threads numbered by a counter, for a concrete run: a thread is spawned, its closure panics,
  and the thread returns.
\<close>

definition count_threads :: "(u32 \<times> u32 set) threads" where
  "count_threads = \<lparr> svcGetThreadPriority = (\<lambda>_ _. 48), svcGetProcessorID = (\<lambda>_. 0),
     threadCreate = (\<lambda>_ _ _ (n, hs). if n + 1 = 0 \<or> n + 1 \<in> hs then (0, (n, hs)) else (n + 1, (n + 1, insert (n + 1) hs))),
     threadJoin = (\<lambda>_ _ b k. if b then Some (0, k) else None),
     threadFree = (\<lambda>h (n, hs). (n, hs - {h})), threadDetach = (\<lambda>_ _ k. k), thread_handles = snd \<rparr>"

lemma count_threads_law: "threads_law count_threads"
  by (auto simp: threads_law_def count_threads_def split: if_splits)

definition one_thread :: "unit outcome \<Rightarrow> (u32 \<times> u32 set, unit) thread_sys" where
  "one_thread f = \<lparr> tw = \<lparr> tkern = (1, {1}), packets = [Some f], running = [], returned = {1} \<rparr>,
     joins = [(\<lparr> native = Some 1, packet = 0 \<rparr>, f)] \<rparr>"

lemma one_thread_reachable: "reachable (thread_start count_threads) (thread_step count_threads) (one_thread f)"
proof -
  let ?w = "\<lparr> tkern = (0, {}), packets = [], running = [], returned = {} \<rparr> :: (u32 \<times> u32 set, unit) thread_world"
  let ?j = "\<lparr> native = Some 1, packet = 0 \<rparr>"
  let ?v = "?w\<lparr>tkern := (1, {1}), packets := [None], running := [(1, 0, f)]\<rparr>"
  let ?b = "\<lparr> stack_size = 1024, priority = None, affinity = None \<rparr>"
  have "thread_start count_threads \<lparr> tw = ?w, joins = [] \<rparr>" by (simp add: thread_start_def)
  moreover have "spawn_thread count_threads ?b f ?w = (Val ?j, ?v)"
    by (simp add: spawn_thread_def RawThread_new_def count_threads_def io_bind_def ret_def)
  then have "thread_step count_threads \<lparr> tw = ?w, joins = [] \<rparr> \<lparr> tw = ?v, joins = [(?j, f)] \<rparr>"
    using thread_step.spawn [of count_threads ?b f "\<lparr> tw = ?w, joins = [] \<rparr>" ?j ?v] by simp
  moreover have "thread_step count_threads \<lparr> tw = ?v, joins = [(?j, f)] \<rparr> (one_thread f)"
    using thread_step.run [of "(1, 0, f)" "\<lparr> tw = ?v, joins = [(?j, f)] \<rparr>" count_threads]
    by (simp add: start_thread_def one_thread_def)
  ultimately show ?thesis by (meson reachable.intros)
qed


text \<open>C25: \<^verbatim>\<open>spawn_blocking\<close> delivers. When its thread has finished, the receiver is \<^verbatim>\<open>Ready\<close> with the
  closure's value, or with \<^verbatim>\<open>None\<close> if the closure panicked, and a task that had polled the
  receiver has been queued for waking.\<close>

theorem spawn_blocking_delivers:
  assumes "WAKE_QUEUE w = Some q" "os_state c = False" "os_value c = None"
  shows "\<exists>c' w' q'. spawn_blocking_main K func (c, w) =
      ((case func of Val _ \<Rightarrow> Val () | Panic p \<Rightarrow> Panic p), (c', w')) \<and>
    fst (OneshotReceiver_poll cx c') = Ready (case func of Val res \<Rightarrow> Some res | Panic _ \<Rightarrow> None) \<and>
    WAKE_QUEUE w' = Some q' \<and> (\<forall>t. rx_task c = Some t \<longrightarrow> t \<in> set (vals q'))"
  using assms
  by (cases func; cases "rx_task c")
    (auto simp: spawn_blocking_main_def OneshotSender_send_def OneshotState_send_def OneshotSender_drop_def
      wake_receiver_def io_bind_def ret_def panic_with_def wake_queue_add_run OneshotReceiver_poll_def push_back_def)

theorem spawn_blocking_delivers_witness:
  "\<exists>c' w' q'. spawn_blocking_main sim_kernel (Panic UnwrapNone)
      (snd (OneshotReceiver_poll (make_waker 6) (oneshot_new :: nat oneshot)), idle_world) =
      (Panic UnwrapNone, (c', w')) \<and>
    fst (OneshotReceiver_poll (make_waker 6) c') = Ready None \<and> WAKE_QUEUE w' = Some q' \<and> 6 \<in> set (vals q')"
  using spawn_blocking_delivers [of idle_world "\<lparr>semaphore_handle = 1, vals = []\<rparr>"
      "snd (OneshotReceiver_poll (make_waker 6) (oneshot_new :: nat oneshot))" sim_kernel "Panic UnwrapNone" "make_waker 6"]
  by (simp add: idle_world_def OneshotReceiver_poll_def oneshot_new_def)

end
