(* ===== verification/Ds_Lock.thy ===== *)
theory Ds_Lock
  imports Executor
begin

text \<open>
  \<^verbatim>\<open>src/sync.rs\<close>, the mutex that both tasks and threads can lock: \<^verbatim>\<open>ArbitratedValue\<close>,
  \<^verbatim>\<open>DsLock\<close>, \<^verbatim>\<open>DSMutex\<close>, its guard and \<^verbatim>\<open>LockFut\<close>. The lock word is 1 plus the number of
  waiters, negated while the lock is held. After the operations, any number of tasks and
  threads that use one lock are modelled as a step relation.
\<close>

section \<open>Operations\<close>

text \<open>
  The address arbiter of the kernel: a signal for one waiter, and a wait that blocks
  (\<^const>\<open>None\<close>) depending on the value at the address.
\<close>

record 'k arbiter =
  arbitrate_signal :: "i32 \<Rightarrow> 'k \<Rightarrow> i32 \<times> 'k"
  arbitrate_wait_if_less_than :: "i32 \<Rightarrow> i32 \<Rightarrow> 'k \<Rightarrow> (i32 \<times> 'k) option"

definition ArbitratedValue_wait_less_than ::
  "'k arbiter \<Rightarrow> 'x ctru \<Rightarrow> i32 \<Rightarrow> i32 \<Rightarrow> 'k \<Rightarrow> (('x, unit) bunny_result \<times> 'k) option" where
  "ArbitratedValue_wait_less_than A C self value k =
     (case arbitrate_wait_if_less_than A self value k of
        None \<Rightarrow> None
      | Some (r, k') \<Rightarrow> Some (case ds_try C r of None \<Rightarrow> Inr () | Some e \<Rightarrow> Inl e, k'))"

definition ArbitratedValue_signal_one :: "'k arbiter \<Rightarrow> 'x ctru \<Rightarrow> 'k \<Rightarrow> ('x, unit) bunny_result \<times> 'k" where
  "ArbitratedValue_signal_one A C k =
     (case arbitrate_signal A 1 k of (r, k') \<Rightarrow> (case ds_try C r of None \<Rightarrow> Inr () | Some e \<Rightarrow> Inl e, k'))"

record 'v ds_lock =
  arb :: i32
  waiters :: 'v

text \<open>\<^verbatim>\<open>try_lock_and_register\<close>, as the store that follows the load of \<open>state\<close>.\<close>

definition lock_store ::
  "('v, task_token) small_vec \<Rightarrow> task_token \<Rightarrow> i32 \<Rightarrow> 'v ds_lock \<Rightarrow> bool outcome \<times> 'v ds_lock" where
  "lock_store V token state l =
     (if 0 < sint state
      then case neg_i32 state of Panic p \<Rightarrow> (Panic p, l) | Val n \<Rightarrow> (Val True, l\<lparr>arb := n\<rparr>)
      else case dec_i32 state of
             Panic p \<Rightarrow> (Panic p, l)
           | Val n \<Rightarrow> (Val False, l\<lparr>arb := n, waiters := sv_push V token (waiters l)\<rparr>))"

definition try_lock_and_register ::
  "('v, task_token) small_vec \<Rightarrow> task_token \<Rightarrow> 'v ds_lock \<Rightarrow> bool outcome \<times> 'v ds_lock" where
  "try_lock_and_register V token l = lock_store V token (arb l) l"

definition try_lock_release_waiter :: "'v ds_lock \<Rightarrow> bool outcome \<times> 'v ds_lock" where
  "try_lock_release_waiter l =
     (if 0 < sint (arb l)
      then case dec_i32 (arb l) of
             Panic p \<Rightarrow> (Panic p, l)
           | Val d \<Rightarrow> (case neg_i32 d of Panic p \<Rightarrow> (Panic p, l) | Val n \<Rightarrow> (Val True, l\<lparr>arb := n\<rparr>))
      else (Val False, l))"

text \<open>\<^verbatim>\<open>unlock\<close> up to the choice of the waiter to wake, and the whole of it.\<close>

definition unlock_pick :: "('v, task_token) small_vec \<Rightarrow> 'v ds_lock \<Rightarrow> task_token option outcome \<times> 'v ds_lock" where
  "unlock_pick V l =
     (if sint (arb l) < 0
      then case neg_i32 (arb l) of
             Panic p \<Rightarrow> (Panic p, l)
           | Val n \<Rightarrow>
               (let l1 = l\<lparr>arb := n\<rparr> in
                if sv_is_empty V (waiters l1) then (Val None, l1)
                else let (task, ws) = sv_remove V 0 (waiters l1) in (Val (Some task), l1\<lparr>waiters := ws\<rparr>))
      else (Val None, l))"

definition DsLock_unlock ::
  "('v, task_token) small_vec \<Rightarrow> 'k kernel \<Rightarrow> 'k arbiter \<Rightarrow> 'x ctru \<Rightarrow>
   ('v ds_lock \<times> ('f, 'k, 'z) runtime_scheme, unit) io" where
  "DsLock_unlock V K A C = (\<lambda>(l, w).
     case unlock_pick V l of
       (Panic p, l') \<Rightarrow> (Panic p, (l', w))
     | (Val None, l') \<Rightarrow> (Val (), (l', w))
     | (Val (Some task), l') \<Rightarrow>
         (if task = u32_MAX
          then (Val (), (l', w\<lparr>kern := snd (ArbitratedValue_signal_one A C (kern w))\<rparr>))
          else case wake_queue_add K task w of (r, w') \<Rightarrow> (r, (l', w'))))"

record ('v, 'd) ds_mutex =
  mx_state :: "'v ds_lock"
  mx_data :: 'd

definition DSMutex_new :: "('v, task_token) small_vec \<Rightarrow> 'd \<Rightarrow> ('v, 'd) ds_mutex" where
  "DSMutex_new V value = \<lparr> mx_state = \<lparr> arb = 1, waiters = sv_new V \<rparr>, mx_data = value \<rparr>"

text \<open>Dropping the guard unlocks; a guard that exists reads and writes the data.\<close>

definition DSMutexGuard_drop ::
  "('v, task_token) small_vec \<Rightarrow> 'k kernel \<Rightarrow> 'k arbiter \<Rightarrow> 'x ctru \<Rightarrow>
   (('v, 'd) ds_mutex \<times> ('f, 'k, 'z) runtime_scheme, unit) io" where
  "DSMutexGuard_drop V K A C = (\<lambda>(m, w).
     case DsLock_unlock V K A C (mx_state m, w) of (r, (l, w')) \<Rightarrow> (r, (m\<lparr>mx_state := l\<rparr>, w')))"

definition DSMutexGuard_deref :: "('v, 'd) ds_mutex \<Rightarrow> 'd" where
  "DSMutexGuard_deref m = mx_data m"

definition DSMutexGuard_deref_mut :: "('d \<Rightarrow> 'd) \<Rightarrow> ('v, 'd) ds_mutex \<Rightarrow> ('v, 'd) ds_mutex" where
  "DSMutexGuard_deref_mut f m = m\<lparr>mx_data := f (mx_data m)\<rparr>"

text \<open>
  \<^verbatim>\<open>lock_sync\<close>: the first attempt, and one round of its loop. The result of the wait is
  dropped; \<^const>\<open>Blocks\<close> is a thread asleep in the kernel.
\<close>

definition lock_sync_enter :: "('v, task_token) small_vec \<Rightarrow> 'v ds_lock \<Rightarrow> bool outcome \<times> 'v ds_lock" where
  "lock_sync_enter V l = try_lock_and_register V u32_MAX l"

definition lock_sync_round ::
  "'k arbiter \<Rightarrow> 'x ctru \<Rightarrow> 'v ds_lock \<Rightarrow> 'k \<Rightarrow> ((bool outcome \<times> 'v ds_lock) \<times> 'k) blocking" where
  "lock_sync_round A C l k =
     (case ArbitratedValue_wait_less_than A C (arb l) 0 k of
        None \<Rightarrow> Blocks
      | Some (_, k') \<Rightarrow> Returns (try_lock_release_waiter l, k'))"

text \<open>\<^verbatim>\<open>LockFut::poll\<close>; the future is its flag \<^verbatim>\<open>registered\<close>. \<^verbatim>\<open>Ready\<close> hands out the guard.\<close>

definition LockFut_poll ::
  "('v, task_token) small_vec \<Rightarrow> waker \<Rightarrow> bool \<Rightarrow> 'v ds_lock \<Rightarrow> unit poll outcome \<times> bool \<times> 'v ds_lock" where
  "LockFut_poll V cx registered l =
     (if registered
      then case try_lock_release_waiter l of
             (Panic p, l') \<Rightarrow> (Panic p, registered, l')
           | (Val b, l') \<Rightarrow> (Val (if b then Ready () else Pending), registered, l')
      else case try_lock_and_register V (TaskToken_from_waker cx) l of
             (Panic p, l') \<Rightarrow> (Panic p, registered, l')
           | (Val b, l') \<Rightarrow> (if b then (Val (Ready ()), registered, l') else (Val Pending, True, l')))"

section \<open>The lock word\<close>

lemma lock_store_pos:
  "0 < sint st \<Longrightarrow> lock_store V t st l = (Val True, l\<lparr>arb := - st\<rparr>) \<and> sint (- st) = - sint st"
  using sint_neg_i32 [of st] by (auto simp: lock_store_def neg_i32_def)

lemma lock_store_neg:
  "sint st \<le> 0 \<Longrightarrow> st \<noteq> i32_MIN \<Longrightarrow> lock_store V t st l =
     (Val False, l\<lparr>arb := st - 1, waiters := sv_push V t (waiters l)\<rparr>) \<and> sint (st - 1) = sint st - 1"
  using sint_dec_i32 [of st] by (simp add: lock_store_def dec_i32_def)

lemma lock_store_cases:
  assumes "lock_store V t st l = (Val b, l')"
  obtains "b" "0 < sint st" "sint (arb l') = - sint st" "waiters l' = waiters l"
  | "\<not> b" "sint st \<le> 0" "sint (arb l') = sint st - 1" "waiters l' = sv_push V t (waiters l)"
proof (cases "0 < sint st")
  case True
  with assms lock_store_pos [of st V t l] that(1) show ?thesis by auto
next
  case False
  with assms have "st \<noteq> i32_MIN" by (auto simp: lock_store_def dec_i32_def)
  with False assms lock_store_neg [of st V t l] that(2) show ?thesis by auto
qed

lemma release_waiter_pos:
  assumes "0 < sint (arb l)"
  shows "try_lock_release_waiter l = (Val True, l\<lparr>arb := - (arb l - 1)\<rparr>)"
    and "sint (- (arb l - 1)) = 1 - sint (arb l)"
proof -
  have a: "arb l \<noteq> i32_MIN" using assms by (auto simp: i32_MIN_iff)
  then have d: "sint (arb l - 1) = sint (arb l) - 1" by (rule sint_dec_i32)
  with assms have b: "arb l - 1 \<noteq> i32_MIN" by (auto simp: i32_MIN_iff)
  show "sint (- (arb l - 1)) = 1 - sint (arb l)" unfolding sint_neg_i32 [OF b] d by linarith
  show "try_lock_release_waiter l = (Val True, l\<lparr>arb := - (arb l - 1)\<rparr>)"
    unfolding try_lock_release_waiter_def dec_i32_def neg_i32_def using assms a b
    by (simp only: if_True if_False outcome.case simp_thms)
qed

lemma release_waiter_cases:
  assumes "try_lock_release_waiter l = (Val b, l')"
  obtains "b" "0 < sint (arb l)" "sint (arb l') = 1 - sint (arb l)" "waiters l' = waiters l"
  | "\<not> b" "sint (arb l) \<le> 0" "l' = l"
proof (cases "0 < sint (arb l)")
  case True
  then have "b" "l' = l\<lparr>arb := - (arb l - 1)\<rparr>" using assms release_waiter_pos(1) [of l] by simp_all
  have "sint (arb l') = 1 - sint (arb l)" "waiters l' = waiters l"
    using release_waiter_pos(2) [OF True] \<open>l' = _\<close> by simp_all
  with \<open>b\<close> True show ?thesis by (rule that(1))
next
  case False
  then have "\<not> b" "sint (arb l) \<le> 0" "l' = l" using assms by (simp_all add: try_lock_release_waiter_def)
  then show ?thesis by (rule that(2))
qed

lemma unlock_pick_Nil:
  assumes "small_vec_laws V" "sint (arb l) < 0" "arb l \<noteq> i32_MIN" "sv_list V (waiters l) = []"
  shows "unlock_pick V l = (Val None, l\<lparr>arb := - arb l\<rparr>)"
  using assms(2-) small_vec_lawsD(3) [OF assms(1), of "waiters l"]
  by (simp add: unlock_pick_def neg_i32_def)

lemma unlock_pick_Cons:
  assumes "small_vec_laws V" "sint (arb l) < 0" "arb l \<noteq> i32_MIN" "sv_list V (waiters l) = t # ts"
  shows "unlock_pick V l =
    (Val (Some t), l\<lparr>arb := - arb l, waiters := snd (sv_remove V 0 (waiters l))\<rparr>)"
  using assms(2-) small_vec_lawsD(3) [OF assms(1), of "waiters l"] small_vec_lawsD(4) [OF assms(1) assms(4)]
  by (simp add: unlock_pick_def neg_i32_def case_prod_beta)

lemma unlock_pick_cases:
  assumes V: "small_vec_laws V" and u: "unlock_pick V l = (Val r, l')" and neg: "sint (arb l) < 0"
  obtains "sint (arb l') = - sint (arb l)"
    "r = (case sv_list V (waiters l) of [] \<Rightarrow> None | t # _ \<Rightarrow> Some t)"
    "sv_list V (waiters l') = tl (sv_list V (waiters l))"
proof -
  have m: "arb l \<noteq> i32_MIN" using u neg by (auto simp: unlock_pick_def neg_i32_def)
  have n: "sint (- arb l) = - sint (arb l)" using m by (rule sint_neg_i32)
  show ?thesis
  proof (cases "sv_list V (waiters l)")
    case Nil
    then show ?thesis using u unlock_pick_Nil [OF V neg m Nil] n by (intro that) auto
  next
    case (Cons t ts)
    then show ?thesis using u unlock_pick_Cons [OF V neg m Cons] n small_vec_lawsD(5) [OF V Cons]
      by (intro that) auto
  qed
qed

section \<open>Contenders for one lock\<close>

text \<open>
  Tasks and threads on one lock. A task that found the lock taken is polled again only
  when its token has been woken; a thread retries whenever its wait returns, which
  the model leaves open. With \<open>spurious\<close> tasks may also be polled for other reasons.
  Each attempt and each release is one step: the threads of one core are scheduled cooperatively,
  so none runs between the load and the store of another. With threads on two cores
  these operations can overlap, which the system after this one allows.
\<close>

datatype contender = Task task_token | Thread nat

datatype lock_pc = Out | Waiting | Holding

fun token_of :: "contender \<Rightarrow> task_token" where
  "token_of (Task t) = t"
| "token_of (Thread _) = u32_MAX"

record 'v lock_sys =
  lk :: "'v ds_lock"
  pc :: "contender \<Rightarrow> lock_pc"
  woken :: "task_token list"

definition lock_start :: "('v, task_token) small_vec \<Rightarrow> 'v lock_sys \<Rightarrow> bool" where
  "lock_start V s \<longleftrightarrow> s = \<lparr> lk = mx_state (DSMutex_new V ()), pc = (\<lambda>_. Out), woken = [] \<rparr>"

definition enter_micro :: "contender \<Rightarrow> bool \<Rightarrow> 'v ds_lock \<Rightarrow> 'v lock_sys \<Rightarrow> 'v lock_sys" where
  "enter_micro c b l s = s\<lparr>lk := l, pc := (pc s)(c := if b then Holding else Waiting)\<rparr>"

definition exit_micro :: "contender \<Rightarrow> task_token option \<Rightarrow> 'v ds_lock \<Rightarrow> 'v lock_sys \<Rightarrow> 'v lock_sys" where
  "exit_micro c r l s = s\<lparr>lk := l, pc := (pc s)(c := Out),
     woken := (case r of Some t \<Rightarrow> if t = u32_MAX then woken s else woken s @ [t] | None \<Rightarrow> woken s)\<rparr>"

inductive lock_step :: "('v, task_token) small_vec \<Rightarrow> bool \<Rightarrow> 'v lock_sys \<Rightarrow> 'v lock_sys \<Rightarrow> bool"
  for V :: "('v, task_token) small_vec" and spurious :: bool where
  enter: "pc s c = Out \<Longrightarrow> c \<noteq> Task u32_MAX \<Longrightarrow> try_lock_and_register V (token_of c) (lk s) = (Val b, l) \<Longrightarrow>
    lock_step V spurious s (enter_micro c b l s)"
| retry_woken: "t \<in> set (woken s) \<Longrightarrow> pc s (Task t) = Waiting \<Longrightarrow> try_lock_release_waiter (lk s) = (Val b, l) \<Longrightarrow>
    lock_step V spurious s (enter_micro (Task t) b l (s\<lparr>woken := remove1 t (woken s)\<rparr>))"
| retry_spurious: "spurious \<Longrightarrow> pc s (Task t) = Waiting \<Longrightarrow> try_lock_release_waiter (lk s) = (Val b, l) \<Longrightarrow>
    lock_step V spurious s (enter_micro (Task t) b l s)"
| retry_thread: "pc s (Thread n) = Waiting \<Longrightarrow> try_lock_release_waiter (lk s) = (Val b, l) \<Longrightarrow>
    lock_step V spurious s (enter_micro (Thread n) b l s)"
| exit: "pc s c = Holding \<Longrightarrow> unlock_pick V (lk s) = (Val r, l) \<Longrightarrow> lock_step V spurious s (exit_micro c r l s)"

definition waiting :: "'v lock_sys \<Rightarrow> contender set" where
  "waiting s = {c. pc s c = Waiting}"

definition holding :: "('v, 'z) lock_sys_scheme \<Rightarrow> contender set" where
  "holding s = {c. pc s c = Holding}"

text \<open>The lock word counts the waiters, and its sign says whether the lock is held.\<close>

definition lock_inv :: "'v lock_sys \<Rightarrow> bool" where
  "lock_inv s \<longleftrightarrow> finite (waiting s) \<and>
     (holding s = {} \<and> sint (arb (lk s)) = 1 + int (card (waiting s)) \<or>
      (\<exists>c. holding s = {c}) \<and> sint (arb (lk s)) = - (1 + int (card (waiting s))))"

lemma lock_inv_start: "lock_start V s \<Longrightarrow> lock_inv s"
  by (auto simp: lock_start_def lock_inv_def DSMutex_new_def waiting_def holding_def)

lemma enter_micro_sets [simp]:
  "waiting (enter_micro c b l s) = (if b then waiting s - {c} else insert c (waiting s))"
  "holding (enter_micro c b l s) = (if b then insert c (holding s) else holding s - {c})"
  "lk (enter_micro c b l s) = l"
  by (auto simp: waiting_def holding_def enter_micro_def)

lemma exit_micro_sets [simp]:
  "waiting (exit_micro c r l s) = waiting s - {c}" "holding (exit_micro c r l s) = holding s - {c}"
  "lk (exit_micro c r l s) = l"
  by (auto simp: waiting_def holding_def exit_micro_def)

lemma woken_update_sets [simp]: "waiting (s\<lparr>woken := ws\<rparr>) = waiting s" "holding (s\<lparr>woken := ws\<rparr>) = holding s"
  by (auto simp: waiting_def holding_def)

lemma lock_inv_enter:
  assumes "lock_inv s" "pc s c = Out" "try_lock_and_register V t (lk s) = (Val b, l)"
  shows "lock_inv (enter_micro c b l s)"
proof -
  have c: "c \<notin> waiting s" "c \<notin> holding s" using assms(2) by (auto simp: waiting_def holding_def)
  from assms(3)[unfolded try_lock_and_register_def] show ?thesis
    by (cases rule: lock_store_cases) (use assms(1) c in \<open>auto simp: lock_inv_def\<close>)
qed

lemma lock_inv_retry:
  assumes "lock_inv s" "pc s c = Waiting" "try_lock_release_waiter (lk s) = (Val b, l)"
  shows "lock_inv (enter_micro c b l s)"
proof -
  have c: "c \<in> waiting s" "c \<notin> holding s" using assms(2) by (auto simp: waiting_def holding_def)
  have "finite (waiting s)" using assms(1) by (simp add: lock_inv_def)
  then have p: "0 < card (waiting s)" using c by (auto simp: card_gt_0_iff)
  then have n: "int (card (waiting s - {c})) = int (card (waiting s)) - 1"
    using c \<open>finite _\<close> by (simp add: of_nat_diff Suc_leI)
  from assms(3) show ?thesis
    by (cases rule: release_waiter_cases) (use assms(1) c n p in \<open>auto simp: lock_inv_def insert_absorb\<close>)
qed

lemma lock_inv_exit:
  assumes "small_vec_laws V" "lock_inv s" "pc s c = Holding" "unlock_pick V (lk s) = (Val r, l)"
  shows "lock_inv (exit_micro c r l s)"
proof -
  have c: "c \<notin> waiting s" "c \<in> holding s" using assms(3) by (auto simp: waiting_def holding_def)
  then have h: "holding s = {c}" and neg: "sint (arb (lk s)) = - (1 + int (card (waiting s)))" "finite (waiting s)"
    using assms(2) by (auto simp: lock_inv_def)
  from assms(1,4) have "sint (arb l) = - sint (arb (lk s))"
    by (rule unlock_pick_cases) (use neg in auto)
  with c h neg show ?thesis by (simp add: lock_inv_def)
qed

lemma lock_inv_step:
  assumes "lock_step V sp s s'" "small_vec_laws V" "lock_inv s"
  shows "lock_inv s'"
  using assms
proof (cases rule: lock_step.cases)
  case (retry_woken t b l)
  have "lock_inv (s\<lparr>woken := remove1 t (woken s)\<rparr>)" using assms(3) by (simp add: lock_inv_def)
  then show ?thesis using retry_woken by (auto intro!: lock_inv_retry)
qed (auto intro: lock_inv_enter lock_inv_retry lock_inv_exit)

interpretation lock: inductive_invariant "lock_start V" "lock_step V sp"
  "\<lambda>s. small_vec_laws V \<longrightarrow> lock_inv s" for V sp
  by unfold_locales (auto intro: lock_inv_start lock_inv_step)

text \<open>
  A task is stranded when it waits while neither the waiter list nor the executor's wake
  queue knows its token.
\<close>

definition stranded :: "('v, task_token) small_vec \<Rightarrow> task_token \<Rightarrow> 'v lock_sys \<Rightarrow> bool" where
  "stranded V t s \<longleftrightarrow> t \<noteq> u32_MAX \<and> pc s (Task t) = Waiting \<and> t \<notin> set (woken s) \<and>
     t \<notin> set (sv_list V (waiters (lk s)))"

lemma stranded_enter:
  assumes V: "small_vec_laws V" and st: "stranded V t s" and c: "pc s c = Out" "c \<noteq> Task u32_MAX"
    and e: "try_lock_and_register V (token_of c) (lk s) = (Val b, l)"
  shows "stranded V t (enter_micro c b l s)"
proof -
  have "token_of c \<noteq> t" "c \<noteq> Task t" using st c by (cases c; auto simp: stranded_def)+
  with e[unfolded try_lock_and_register_def] show ?thesis
    by (elim lock_store_cases)
      (use st small_vec_lawsD(2) [OF V] in \<open>auto simp: stranded_def enter_micro_def\<close>)
qed

lemma stranded_retry:
  assumes "stranded V t s" "c \<noteq> Task t" "try_lock_release_waiter (lk s) = (Val b, l)"
  shows "stranded V t (enter_micro c b l s)"
  using assms(3) by (rule release_waiter_cases) (use assms(1,2) in \<open>auto simp: stranded_def enter_micro_def\<close>)

lemma stranded_exit:
  assumes V: "small_vec_laws V" and st: "stranded V t s" and c: "pc s c = Holding"
    and u: "unlock_pick V (lk s) = (Val r, l)"
  shows "stranded V t (exit_micro c r l s)"
proof (cases "sint (arb (lk s)) < 0")
  case True
  with V u show ?thesis
    by (rule unlock_pick_cases)
      (use st c in \<open>auto simp: stranded_def exit_micro_def dest: list.set_sel(2) split: list.splits\<close>)
next
  case False
  then have "r = None" "l = lk s" using u by (simp_all add: unlock_pick_def)
  then show ?thesis using st c by (auto simp: stranded_def exit_micro_def)
qed

lemma stranded_step:
  assumes "lock_step V False s s'" "small_vec_laws V" "stranded V t s"
  shows "stranded V t s'"
  using assms(1)
proof (cases rule: lock_step.cases)
  case (retry_woken u b l)
  then have "u \<noteq> t" using assms(3) by (auto simp: stranded_def)
  moreover have "stranded V t (s\<lparr>woken := remove1 u (woken s)\<rparr>)"
    using assms(3) by (auto simp: stranded_def dest: notin_set_remove1)
  ultimately show ?thesis using retry_woken by (auto intro!: stranded_retry)
qed (use assms(2,3) in \<open>auto intro: stranded_enter stranded_retry stranded_exit\<close>)

text \<open>Schedules, run on lists.\<close>

datatype lock_move = Enter contender | Exit contender | Wake task_token

fun lock_act :: "task_token list lock_sys \<Rightarrow> lock_move \<Rightarrow> task_token list lock_sys option" where
  "lock_act s (Enter c) = (case try_lock_and_register list_small_vec (token_of c) (lk s) of
     (Val b, l) \<Rightarrow> if pc s c = Out \<and> c \<noteq> Task u32_MAX then Some (enter_micro c b l s) else None | _ \<Rightarrow> None)"
| "lock_act s (Exit c) = (case unlock_pick list_small_vec (lk s) of
     (Val r, l) \<Rightarrow> if pc s c = Holding then Some (exit_micro c r l s) else None | _ \<Rightarrow> None)"
| "lock_act s (Wake t) = (case try_lock_release_waiter (lk s) of
     (Val b, l) \<Rightarrow> if t \<in> set (woken s) \<and> pc s (Task t) = Waiting
        then Some (enter_micro (Task t) b l (s\<lparr>woken := remove1 t (woken s)\<rparr>)) else None | _ \<Rightarrow> None)"

fun lock_run :: "task_token list lock_sys \<Rightarrow> lock_move list \<Rightarrow> task_token list lock_sys option" where
  "lock_run s [] = Some s"
| "lock_run s (m # ms) = (case lock_act s m of Some s' \<Rightarrow> lock_run s' ms | None \<Rightarrow> None)"

definition lock_boot :: "task_token list lock_sys" where
  "lock_boot = \<lparr> lk = mx_state (DSMutex_new list_small_vec ()), pc = (\<lambda>_. Out), woken = [] \<rparr>"

lemma lock_act_step: "lock_act s m = Some s' \<Longrightarrow> lock_step list_small_vec sp s s'"
  by (cases m) (auto split: prod.splits outcome.splits if_splits intro: lock_step.intros)

lemma lock_run_steps: "lock_run s ms = Some s' \<Longrightarrow> (lock_step list_small_vec sp)\<^sup>*\<^sup>* s s'"
  by (induction ms arbitrary: s)
    (auto split: option.splits intro: converse_rtranclp_into_rtranclp lock_act_step)

lemma lock_run_reachable:
  "lock_run lock_boot ms = Some s \<Longrightarrow> reachable (lock_start list_small_vec) (lock_step list_small_vec sp) s"
proof -
  assume "lock_run lock_boot ms = Some s"
  then have "(lock_step list_small_vec sp)\<^sup>*\<^sup>* lock_boot s" by (rule lock_run_steps)
  then show ?thesis
    by (induction rule: rtranclp_induct)
      (auto intro: reachable.intros simp: lock_start_def lock_boot_def)
qed

text \<open>
  Task 0 holds the lock while task 1 registers; task 0 unlocks and locks again before
  task 1 is polled, and task 1 polls in vain.
\<close>

definition barging :: "lock_move list" where
  "barging = [Enter (Task 0), Enter (Task 1), Exit (Task 0), Enter (Task 0), Wake 1, Exit (Task 0)]"

lemmas lock_exec_simps = lock_boot_def DSMutex_new_def list_small_vec_def try_lock_and_register_def
  lock_store_def try_lock_release_waiter_def unlock_pick_def enter_micro_def exit_micro_def
  neg_i32_def dec_i32_def

definition barged :: "task_token list lock_sys" where
  "barged = \<lparr> lk = \<lparr> arb = 2, waiters = [] \<rparr>, pc = (\<lambda>_. Out)(Task 1 := Waiting), woken = [] \<rparr>"

lemma barging_run: "lock_run lock_boot barging = Some barged"
  by (simp add: barging_def barged_def lock_exec_simps fun_eq_iff)

lemma stranded_barged: "stranded list_small_vec 1 barged"
  by (simp add: stranded_def barged_def list_small_vec_def)

text \<open>
  The same contenders, with the load and the store of a first attempt as two steps.
\<close>

record 'v split_sys = "'v lock_sys" +
  loaded :: "contender \<Rightarrow> i32 option"

definition split_start :: "('v, task_token) small_vec \<Rightarrow> 'v split_sys \<Rightarrow> bool" where
  "split_start V s \<longleftrightarrow> s = \<lparr> lk = mx_state (DSMutex_new V ()), pc = (\<lambda>_. Out), woken = [], loaded = (\<lambda>_. None) \<rparr>"

inductive split_step :: "('v, task_token) small_vec \<Rightarrow> 'v split_sys \<Rightarrow> 'v split_sys \<Rightarrow> bool" for V where
  load: "pc s c = Out \<Longrightarrow> c \<noteq> Task u32_MAX \<Longrightarrow> loaded s c = None \<Longrightarrow>
    split_step V s (s\<lparr>loaded := (loaded s)(c := Some (arb (lk s)))\<rparr>)"
| store: "loaded s c = Some state \<Longrightarrow> lock_store V (token_of c) state (lk s) = (Val b, l) \<Longrightarrow>
    split_step V s (s\<lparr>lk := l, pc := (pc s)(c := if b then Holding else Waiting), loaded := (loaded s)(c := None)\<rparr>)"

section \<open>Properties\<close>

text \<open>C16: Mutual exclusion, as long as the operations on the lock do not overlap. For any number of tasks
  and threads, any order in which each performs its whole attempts and releases, and any
  spurious polls, at most one of them holds the lock. Overlapping attempts are the last property below.\<close>

theorem ds_lock_mutual_exclusion:
  assumes "small_vec_laws V" "reachable (lock_start V) (lock_step V sp) s"
    and "pc s c = Holding" "pc s d = Holding"
  shows "c = d"
proof -
  have "lock_inv s" using lock.reachable_inv [OF assms(2)] assms(1) by simp
  then obtain e where "holding s = {} \<or> holding s = {e}" by (auto simp: lock_inv_def)
  moreover have "c \<in> holding s" "d \<in> holding s" using assms(3,4) by (simp_all add: holding_def)
  ultimately show ?thesis by auto
qed

theorem ds_lock_mutual_exclusion_witness:
  "\<exists>s. lock_run lock_boot [Enter (Task 0), Enter (Thread 4)] = Some s \<and> arb (lk s) = -2 \<and>
     holding s = {Task 0}"
proof -
  define s where "s = \<lparr> lk = \<lparr> arb = -2, waiters = [u32_MAX] \<rparr>,
             pc = (\<lambda>_. Out)(Task 0 := Holding, Thread 4 := Waiting), woken = [] \<rparr>"
  have run: "lock_run lock_boot [Enter (Task 0), Enter (Thread 4)] = Some s"
    by (simp add: s_def lock_exec_simps fun_eq_iff)
  have zero: "pc s (Task 0) = Holding" "arb (lk s) = -2" by (simp_all add: s_def)
  have "c = Task 0" if "c \<in> holding s" for c
    by (rule ds_lock_mutual_exclusion [OF list_small_vec_laws lock_run_reachable [OF run] _ zero(1)])
      (use that in \<open>simp add: holding_def\<close>)
  moreover have "Task 0 \<in> holding s" using zero by (simp add: holding_def)
  ultimately show ?thesis using run zero(2) by blast
qed

text \<open>The lock word. In every reachable state it is one more than the number of waiting tasks and
  threads, and negative exactly while somebody holds the lock; in particular it is never 0, the
  value from which \<^verbatim>\<open>unlock\<close> could not bring it back.\<close>

lemma ds_lock_word_counts_waiters:
  assumes "small_vec_laws V" "reachable (lock_start V) (lock_step V sp) s"
  shows "sint (arb (lk s)) = (if holding s = {} then 1 else -1) * (1 + int (card (waiting s)))"
  using lock.reachable_inv [OF assms(2)] assms(1) by (auto simp: lock_inv_def)



lemma stranded_steps:
  assumes "small_vec_laws V" "stranded V t s" "(lock_step V False)\<^sup>*\<^sup>* s s'"
  shows "stranded V t s'"
  using assms(3,2) by (induction rule: rtranclp_induct) (auto intro: stranded_step [OF _ assms(1)])

text \<open>C39: A wake-up can be lost. There is an execution after which the lock is free and nobody holds
  it, but a task that asked for it waits for ever: a locker that came between the wake-up and the poll
  made the poll fail, the token is no longer in the list of waiters, and in all that the other
  tasks and threads may do from there on, the task stays waiting unless something else polls its future.\<close>

theorem ds_lock_can_strand_a_waiter:
  "\<exists>s. reachable (lock_start list_small_vec) (lock_step list_small_vec False) s \<and>
     holding s = {} \<and> 0 < sint (arb (lk s)) \<and> pc s (Task 1) = Waiting \<and>
     Collect ((lock_step list_small_vec False)\<^sup>*\<^sup>* s) \<subseteq> {s'. pc s' (Task 1) = Waiting}"
proof -
  have "reachable (lock_start list_small_vec) (lock_step list_small_vec False) barged"
    using barging_run by (rule lock_run_reachable)
  moreover have "holding barged = {}" "0 < sint (arb (lk barged))" "pc barged (Task 1) = Waiting"
    by (simp_all add: holding_def barged_def)
  moreover have "pc s' (Task 1) = Waiting" if "(lock_step list_small_vec False)\<^sup>*\<^sup>* barged s'" for s'
    using stranded_steps [OF list_small_vec_laws stranded_barged that] by (simp add: stranded_def)
  ultimately show ?thesis by blast
qed

text \<open>C40: Overlapping attempts. The load and the store of \<^verbatim>\<open>try_lock_and_register\<close> are separate atomic operations, and
  when each is a step of its own, a task and a thread can come to hold the lock at the same time.\<close>

theorem ds_lock_race_admits_two_holders:
  "\<exists>s. reachable (split_start list_small_vec) (split_step list_small_vec) s \<and> holding s = {Task 0, Thread 1}"
proof -
  let ?R = "reachable (split_start list_small_vec) (split_step list_small_vec)"
  let ?s0 = "\<lparr> lk = \<lparr> arb = 1, waiters = [] \<rparr>, pc = (\<lambda>_. Out), woken = [], loaded = (\<lambda>_. None) \<rparr> :: task_token list split_sys"
  let ?s1 = "?s0\<lparr>loaded := (\<lambda>_. None)(Task 0 := Some 1)\<rparr>"
  let ?s2 = "?s0\<lparr>loaded := (\<lambda>_. None)(Task 0 := Some 1, Thread 1 := Some 1)\<rparr>"
  let ?s3 = "?s0\<lparr>lk := \<lparr> arb = -1, waiters = [] \<rparr>, pc := (\<lambda>_. Out)(Task 0 := Holding), loaded := (\<lambda>_. None)(Thread 1 := Some 1)\<rparr>"
  let ?s4 = "?s0\<lparr>lk := \<lparr> arb = -1, waiters = [] \<rparr>, pc := (\<lambda>_. Out)(Task 0 := Holding, Thread 1 := Holding)\<rparr>"
  have "?R ?s0"
    by (rule reachable.intros) (simp add: split_start_def DSMutex_new_def list_small_vec_def)
  moreover have "split_step list_small_vec ?s0 ?s1"
    using split_step.load [of ?s0 "Task 0" list_small_vec] by simp
  moreover have "split_step list_small_vec ?s1 ?s2"
    using split_step.load [of ?s1 "Thread 1" list_small_vec] by simp
  moreover have "split_step list_small_vec ?s2 ?s3"
    using split_step.store [of ?s2 "Task 0" 1 list_small_vec True "\<lparr> arb = -1, waiters = [] \<rparr>"]
    by (simp add: lock_store_def neg_i32_def fun_upd_twist)
  moreover have "split_step list_small_vec ?s3 ?s4"
    using split_step.store [of ?s3 "Thread 1" 1 list_small_vec True "\<lparr> arb = -1, waiters = [] \<rparr>"]
    by (simp add: lock_store_def neg_i32_def)
  ultimately have "?R ?s4" by (meson reachable.intros)
  moreover have "holding ?s4 = {Task 0, Thread 1}" by (auto simp: holding_def)
  ultimately show ?thesis by blast
qed

end
