(* ===== verification/Ds_Mutex.thy ===== *)
theory Ds_Mutex
  imports Ds_Lock
begin

text \<open>
  \<^verbatim>\<open>src/sync.rs\<close>, the data behind a \<^verbatim>\<open>DSMutex\<close>. Contenders read and write the data through the guards
  they hold, a read and a write each a step of its own, interleaved with everything the others do
  to the lock. What the mutex is for is that their updates take effect one after the other.
\<close>

section \<open>Contenders with a guard\<close>

text \<open>
  \<open>seen\<close> is what a contender has read through its guard. The last field is history: the
  updates in the order in which they were written.
\<close>

record ('v, 'd) mutex_sys =
  contention :: "'v lock_sys"
  guarded :: 'd
  seen :: "contender \<Rightarrow> 'd option"
  applied :: "('d \<Rightarrow> 'd) list"

definition mutex_of :: "('v, 'd) mutex_sys \<Rightarrow> ('v, 'd) ds_mutex" where
  "mutex_of s = \<lparr> mx_state = lk (contention s), mx_data = guarded s \<rparr>"

text \<open>
  A step of the lock, which leaves a contender without its guard nothing to remember; a read
  through a guard; and the write of an updated value through a guard that has read one.
\<close>

inductive mutex_step :: "('v, task_token) small_vec \<Rightarrow> bool \<Rightarrow> ('v, 'd) mutex_sys \<Rightarrow> ('v, 'd) mutex_sys \<Rightarrow> bool"
  for V :: "('v, task_token) small_vec" and spurious :: bool where
  contend: "lock_step V spurious (contention s) l \<Longrightarrow>
    mutex_step V spurious s (s\<lparr>contention := l, seen := (\<lambda>c. if pc l c = Holding then seen s c else None)\<rparr>)"
| guard_read: "pc (contention s) c = Holding \<Longrightarrow>
    mutex_step V spurious s (s\<lparr>seen := (seen s)(c := Some (DSMutexGuard_deref (mutex_of s)))\<rparr>)"
| guard_write: "pc (contention s) c = Holding \<Longrightarrow> seen s c = Some d \<Longrightarrow>
    mutex_step V spurious s (s\<lparr>guarded := mx_data (DSMutexGuard_deref_mut (\<lambda>_. f d) (mutex_of s)),
      seen := (seen s)(c := None), applied := applied s @ [f]\<rparr>)"

definition mutex_start :: "('v, task_token) small_vec \<Rightarrow> 'd \<Rightarrow> ('v, 'd) mutex_sys \<Rightarrow> bool" where
  "mutex_start V value s \<longleftrightarrow> lock_start V (contention s) \<and> mutex_of s = DSMutex_new V value \<and>
     seen s = (\<lambda>_. None) \<and> applied s = []"

text \<open>Updates one after the other.\<close>

definition in_order :: "('d \<Rightarrow> 'd) list \<Rightarrow> 'd \<Rightarrow> 'd" where
  "in_order fs d = fold (\<lambda>f. f) fs d"

definition mutex_inv :: "'d \<Rightarrow> ('v, 'd) mutex_sys \<Rightarrow> bool" where
  "mutex_inv value s \<longleftrightarrow> lock_inv (contention s) \<and> guarded s = in_order (applied s) value \<and>
     (\<forall>c d. seen s c = Some d \<longrightarrow> pc (contention s) c = Holding \<and> d = guarded s)"

lemma lock_inv_holder:
  assumes "lock_inv s" "pc s c = Holding" "pc s d = Holding"
  shows "c = d"
proof -
  have "c \<in> holding s" "d \<in> holding s" using assms(2,3) by (simp_all add: holding_def)
  with assms(1) show ?thesis by (auto simp: lock_inv_def)
qed

lemma mutex_inv_start: "mutex_start V value s \<Longrightarrow> mutex_inv value s"
  by (auto simp: mutex_start_def mutex_inv_def in_order_def mutex_of_def DSMutex_new_def lock_inv_start)

lemma mutex_inv_write:
  assumes "mutex_inv value s" "pc (contention s) c = Holding" "seen s c = Some d"
  shows "mutex_inv value (s\<lparr>guarded := f d, seen := (seen s)(c := None), applied := applied s @ [f]\<rparr>)"
proof -
  have "seen s e = None" if "e \<noteq> c" for e
  proof (rule ccontr)
    assume "seen s e \<noteq> None"
    then have "pc (contention s) e = Holding" using assms(1) by (auto simp: mutex_inv_def)
    with assms that show False by (auto simp: mutex_inv_def dest: lock_inv_holder)
  qed
  moreover have "d = in_order (applied s) value" using assms(1,3) by (auto simp: mutex_inv_def)
  ultimately show ?thesis using assms(1) by (auto simp: mutex_inv_def in_order_def)
qed

lemma mutex_inv_step:
  assumes "mutex_step V sp s t" "small_vec_laws V" "mutex_inv value s"
  shows "mutex_inv value t"
  using assms(1)
proof (cases rule: mutex_step.cases)
  case (contend l)
  have "lock_inv l" using lock_inv_step [OF contend(2) assms(2)] assms(3) by (simp add: mutex_inv_def)
  then show ?thesis using contend assms(3) by (auto simp: mutex_inv_def split: if_splits)
next
  case (guard_read c)
  then show ?thesis using assms(3) by (auto simp: mutex_inv_def DSMutexGuard_deref_def mutex_of_def)
next
  case (guard_write c d f)
  then show ?thesis using mutex_inv_write [OF assms(3)] by (simp add: DSMutexGuard_deref_mut_def mutex_of_def)
qed

interpretation mutex: inductive_invariant "mutex_start V d0" "mutex_step V sp" "\<lambda>s. small_vec_laws V \<longrightarrow> mutex_inv d0 s" for V d0 sp
  by unfold_locales (auto intro: mutex_inv_start mutex_inv_step)

section \<open>Properties\<close>

text \<open>C17: No update under the mutex is lost. Any number of tasks and threads read the data through their guards and write
  updated values back, with the read and the write apart and anything between them that the others can do. At
  every moment the data is the value it was created with, with all updates written so far applied one after the other, and whoever has
  read it and still holds the guard has read this value. Operations on the lock itself do not overlap.\<close>

theorem mutex_updates_are_serial:
  assumes "small_vec_laws V" "reachable (mutex_start V value) (mutex_step V sp) s"
  shows "DSMutexGuard_deref (mutex_of s) = in_order (applied s) value \<and>
    (\<forall>c d. seen s c = Some d \<longrightarrow> pc (contention s) c = Holding \<and> d = DSMutexGuard_deref (mutex_of s))"
  using mutex.reachable_inv [OF assms(2)] assms(1)
  by (auto simp: mutex_inv_def DSMutexGuard_deref_def mutex_of_def)

text \<open>Task 0 locks, reads, adds one and writes, and unlocks; then thread 0 locks and reads.\<close>

definition mutex_boot :: "(task_token list, nat) mutex_sys" where
  "mutex_boot = \<lparr> contention = lock_boot, guarded = 5, seen = (\<lambda>_. None), applied = [] \<rparr>"

theorem mutex_updates_are_serial_witness:
  "\<exists>s. reachable (mutex_start list_small_vec 5) (mutex_step list_small_vec False) s \<and>
     applied s = [Suc] \<and> seen s (Thread 0) = Some 6 \<and> DSMutexGuard_deref (mutex_of s) = (6 :: nat)"
proof -
  let ?step = "mutex_step list_small_vec False :: (task_token list, nat) mutex_sys \<Rightarrow> _"
  let ?a = "\<lparr> lk = \<lparr> arb = - 1, waiters = [] \<rparr>, pc = (\<lambda>_. Out)(Task 0 := Holding), woken = [] \<rparr>"
  let ?b = "\<lparr> lk = \<lparr> arb = - 1, waiters = [] \<rparr>, pc = (\<lambda>_. Out)(Thread 0 := Holding), woken = [] \<rparr>"
  define s1 where "s1 = mutex_boot\<lparr>contention := ?a\<rparr>"
  define s2 where "s2 = s1\<lparr>seen := (\<lambda>_. None)(Task 0 := Some 5)\<rparr>"
  define s3 where "s3 = s1\<lparr>guarded := 6, applied := [Suc]\<rparr>"
  define s4 where "s4 = s3\<lparr>contention := lock_boot\<rparr>"
  define s5 where "s5 = s3\<lparr>contention := ?b\<rparr>"
  define s6 where "s6 = s5\<lparr>seen := (\<lambda>_. None)(Thread 0 := Some 6)\<rparr>"
  have l: "lock_step list_small_vec False lock_boot ?a" "lock_step list_small_vec False ?a lock_boot" "lock_step list_small_vec False lock_boot ?b"
    using lock_act_step [of lock_boot "Enter (Task 0)" ?a] lock_act_step [of ?a "Exit (Task 0)" lock_boot]
      lock_act_step [of lock_boot "Enter (Thread 0)" ?b]
    by (simp_all add: lock_exec_simps fun_eq_iff)
  have 1: "?step mutex_boot s1" using contend [of list_small_vec False mutex_boot ?a] l(1) by (simp add: s1_def mutex_boot_def cong: if_cong)
  have 2: "?step s1 s2" using guard_read [of s1 "Task 0" list_small_vec False]
    by (simp add: s1_def s2_def mutex_boot_def mutex_of_def DSMutexGuard_deref_def)
  have 3: "?step s2 s3" using guard_write [of s2 "Task 0" 5 list_small_vec False Suc]
    by (simp add: s1_def s2_def s3_def mutex_boot_def mutex_of_def DSMutexGuard_deref_mut_def)
  have 4: "?step s3 s4" using contend [of list_small_vec False s3 lock_boot] l(2) by (simp add: s1_def s3_def s4_def mutex_boot_def cong: if_cong)
  have 5: "?step s4 s5" using contend [of list_small_vec False s4 ?b] l(3) by (simp add: s1_def s3_def s4_def s5_def mutex_boot_def cong: if_cong)
  have 6: "?step s5 s6" using guard_read [of s5 "Thread 0" list_small_vec False]
    by (simp add: s1_def s3_def s5_def s6_def mutex_boot_def mutex_of_def DSMutexGuard_deref_def)
  have "mutex_start list_small_vec 5 mutex_boot"
    by (simp add: mutex_start_def mutex_boot_def lock_start_def lock_boot_def mutex_of_def DSMutex_new_def)
  then have r: "reachable (mutex_start list_small_vec 5) ?step s6"
    using 1 2 3 4 5 6 by (meson reach_start reach_step)
  have "applied s6 = [Suc]" "seen s6 (Thread 0) = Some 6" by (simp_all add: s1_def s3_def s5_def s6_def mutex_boot_def)
  with mutex_updates_are_serial [OF list_small_vec_laws r] r show ?thesis
    by (intro exI [of _ s6]) (simp add: in_order_def)
qed

end
