(* ===== verification/Notification.thy ===== *)
theory Notification
  imports Executor
begin

text \<open>
  \<^verbatim>\<open>src/sync.rs\<close>, the one-shot notification: one shared word that is \<^verbatim>\<open>NOTIFICATION_UNINIT\<close>,
  the token of the waiting task, or \<^verbatim>\<open>NOTIFICATION_READY\<close>. First the operations as the code has
  them, then the sender's thread and the waiting task one access to memory at a time.
\<close>

section \<open>Operations\<close>

definition NOTIFICATION_READY :: u32 where "NOTIFICATION_READY = u32_MAX - 1"

definition NOTIFICATION_UNINIT :: u32 where "NOTIFICATION_UNINIT = u32_MAX"

definition notification :: u32 where "notification = NOTIFICATION_UNINIT"

definition NotificationSender_notify :: "'k kernel \<Rightarrow> (u32 \<times> ('f, 'k, 'z) runtime_scheme, unit) io" where
  "NotificationSender_notify K = (\<lambda>(state, w).
     if state = NOTIFICATION_UNINIT \<or> state = NOTIFICATION_READY then (Val (), (state, w))
     else case wake_queue_add K state w of (r, w') \<Rightarrow> (r, (NOTIFICATION_READY, w')))"

definition NotificationWaiter_poll :: "waker \<Rightarrow> u32 \<Rightarrow> unit poll \<times> u32" where
  "NotificationWaiter_poll cx state =
     (if state = NOTIFICATION_READY then (Ready (), state)
      else if state = NOTIFICATION_UNINIT then (Pending, TaskToken_from_waker cx)
      else (Pending, state))"

section \<open>One waiter and one sender\<close>

fun polls :: "waker \<Rightarrow> nat \<Rightarrow> u32 \<Rightarrow> u32" where
  "polls cx 0 state = state"
| "polls cx (Suc n) state = polls cx n (snd (NotificationWaiter_poll cx state))"

text \<open>The waiter polls \<open>before\<close> times, the sender notifies, and the waiter polls \<open>after\<close> times more.\<close>

definition exchange ::
  "'k kernel \<Rightarrow> waker \<Rightarrow> nat \<Rightarrow> nat \<Rightarrow> ('f, 'k, 'z) runtime_scheme \<Rightarrow> unit outcome \<times> u32 \<times> ('f, 'k, 'z) runtime_scheme" where
  "exchange K cx before after w =
     (case NotificationSender_notify K (polls cx before notification, w) of
        (r, (state, w')) \<Rightarrow> (r, polls cx after state, w'))"

lemma polls_token: "t \<noteq> NOTIFICATION_UNINIT \<Longrightarrow> polls (make_waker t) n t = t"
  by (induction n) (auto simp: NotificationWaiter_poll_def)

lemma polls_ready: "polls cx n NOTIFICATION_READY = NOTIFICATION_READY"
  by (induction n) (auto simp: NotificationWaiter_poll_def)

lemma ready_ne_uninit [simp]: "NOTIFICATION_READY \<noteq> NOTIFICATION_UNINIT" "NOTIFICATION_UNINIT \<noteq> NOTIFICATION_READY"
  by (simp_all add: NOTIFICATION_READY_def NOTIFICATION_UNINIT_def)

lemma polls_notification:
  "t \<noteq> NOTIFICATION_UNINIT \<Longrightarrow> polls (make_waker t) n notification = (if n = 0 then NOTIFICATION_UNINIT else t)"
  by (cases n) (simp_all add: notification_def NotificationWaiter_poll_def polls_token)

text \<open>Operation by operation, a notification reaches the waiter exactly if the waiter had polled before it.\<close>

lemma notification_exchange:
  assumes "t \<noteq> NOTIFICATION_READY" "t \<noteq> NOTIFICATION_UNINIT"
    and "exchange K (make_waker t) before after w = (r, state, w')"
  shows "(fst (NotificationWaiter_poll (make_waker t) state) = Ready ()) = (0 < before) \<and>
    (r, w') = (if 0 < before then wake_queue_add K t w else (Val (), w))"
proof -
  have "NotificationSender_notify K (polls (make_waker t) before notification, w) =
      (if 0 < before then (fst (wake_queue_add K t w), (NOTIFICATION_READY, snd (wake_queue_add K t w)))
       else (Val (), (NOTIFICATION_UNINIT, w)))"
    using assms(1,2) by (simp add: NotificationSender_notify_def polls_notification split: prod.split)
  then show ?thesis
    using assms polls_notification [of t after, unfolded notification_def]
    by (auto simp: exchange_def polls_ready NotificationWaiter_poll_def split: if_splits)
qed

section \<open>Sender and waiter, interleaved\<close>

datatype notify_pc =
    NLoad                    \<comment> \<open>about to load the word in \<^verbatim>\<open>notify\<close>\<close>
  | NStore task_token        \<comment> \<open>about to store \<^const>\<open>NOTIFICATION_READY\<close>\<close>
  | NAdd task_token          \<comment> \<open>about to queue the token it found\<close>
  | NDone

datatype wait_pc =
    WIdle                    \<comment> \<open>not polled yet\<close>
  | WLoad                    \<comment> \<open>in \<^verbatim>\<open>poll\<close>, about to load the word\<close>
  | WStore                   \<comment> \<open>about to store its token\<close>
  | WParked                  \<comment> \<open>the poll returned \<^verbatim>\<open>Pending\<close>\<close>
  | WFinished                \<comment> \<open>the poll returned \<^verbatim>\<open>Ready\<close>\<close>

text \<open>The last field is history: whether the sender found the waiter's token.\<close>

record nt_sys =
  n_word :: u32
  n_wakes :: "task_token sync_queue"
  n_pc :: notify_pc
  w_pc :: wait_pc
  found :: bool

definition notify_micro :: "nt_sys \<Rightarrow> nt_sys" where
  "notify_micro s =
     (case n_pc s of
        NLoad \<Rightarrow> if n_word s = NOTIFICATION_UNINIT \<or> n_word s = NOTIFICATION_READY then s\<lparr>n_pc := NDone\<rparr>
                 else s\<lparr>n_pc := NStore (n_word s), found := True\<rparr>
      | NStore task \<Rightarrow> s\<lparr>n_word := NOTIFICATION_READY, n_pc := NAdd task\<rparr>
      | NAdd task \<Rightarrow> s\<lparr>n_wakes := push_back task (n_wakes s), n_pc := NDone\<rparr>
      | NDone \<Rightarrow> s)"

definition waiter_micro :: "task_token \<Rightarrow> nt_sys \<Rightarrow> nt_sys" where
  "waiter_micro me s =
     (case w_pc s of
        WLoad \<Rightarrow> s\<lparr>w_pc := (if n_word s = NOTIFICATION_READY then WFinished
                           else if n_word s = NOTIFICATION_UNINIT then WStore else WParked)\<rparr>
      | WStore \<Rightarrow> s\<lparr>n_word := me, w_pc := WParked\<rparr>
      | _ \<Rightarrow> s)"

inductive nt_step :: "task_token \<Rightarrow> nt_sys \<Rightarrow> nt_sys \<Rightarrow> bool" for me where
  notifier: "n_pc s \<noteq> NDone \<Longrightarrow> nt_step me s (notify_micro s)"
| first_poll: "w_pc s = WIdle \<Longrightarrow> nt_step me s (s\<lparr>w_pc := WLoad\<rparr>)"
| waiter: "w_pc s \<in> {WLoad, WStore} \<Longrightarrow> nt_step me s (waiter_micro me s)"
| executor: "w_pc s \<in> {WIdle, WParked, WFinished} \<Longrightarrow> SyncQueue_remove (n_wakes s) = (Some t, q) \<Longrightarrow>
     nt_step me s (s\<lparr>n_wakes := q, w_pc := (if t = me \<and> w_pc s = WParked then WLoad else w_pc s)\<rparr>)"

text \<open>A fresh notification; the waiter's token is not one of the two marks.\<close>

definition proper_token :: "task_token \<Rightarrow> bool" where
  "proper_token me \<longleftrightarrow> me \<noteq> NOTIFICATION_READY \<and> me \<noteq> NOTIFICATION_UNINIT"

definition nt_start :: "task_token \<Rightarrow> nt_sys \<Rightarrow> bool" where
  "nt_start me s \<longleftrightarrow> proper_token me \<and> n_word s = notification \<and> n_pc s = NLoad \<and> w_pc s = WIdle \<and> \<not> found s"

definition nt_inv :: "task_token \<Rightarrow> nt_sys \<Rightarrow> bool" where
  "nt_inv me s \<longleftrightarrow> proper_token me \<and>
     (found s \<longleftrightarrow> n_pc s = NStore me \<or> n_pc s = NAdd me \<or> n_pc s = NDone \<and> n_word s = NOTIFICATION_READY) \<and>
     (n_pc s = NStore me \<longrightarrow> n_word s = me) \<and> (n_pc s = NAdd me \<longrightarrow> n_word s = NOTIFICATION_READY) \<and>
     n_pc s \<in> {NLoad, NStore me, NAdd me, NDone} \<and>
     (n_pc s = NLoad \<or> n_pc s = NDone \<and> \<not> found s \<longrightarrow> n_word s \<in> {NOTIFICATION_UNINIT, me}) \<and>
     (w_pc s \<in> {WIdle, WStore} \<longrightarrow> n_word s = NOTIFICATION_UNINIT) \<and>
     (w_pc s = WParked \<longrightarrow> n_word s \<noteq> NOTIFICATION_UNINIT) \<and>
     (w_pc s = WFinished \<longrightarrow> n_word s = NOTIFICATION_READY) \<and>
     (w_pc s = WParked \<and> n_pc s = NDone \<and> found s \<longrightarrow> me \<in> set (vals (n_wakes s)))"

lemma nt_inv_start: "nt_start me s \<Longrightarrow> nt_inv me s"
  by (auto simp: nt_start_def nt_inv_def notification_def)

lemma nt_inv_notify: "nt_inv me s \<Longrightarrow> nt_inv me (notify_micro s)"
  by (cases "n_pc s") (auto simp: nt_inv_def notify_micro_def proper_token_def)

lemma nt_inv_waiter: "nt_inv me s \<Longrightarrow> nt_inv me (waiter_micro me s)"
  by (cases "w_pc s") (auto simp: nt_inv_def waiter_micro_def proper_token_def)

lemma nt_inv_executor:
  assumes "nt_inv me s" "SyncQueue_remove (n_wakes s) = (Some t, q)"
  shows "nt_inv me (s\<lparr>n_wakes := q, w_pc := (if t = me \<and> w_pc s = WParked then WLoad else w_pc s)\<rparr>)"
  using assms(1) SyncQueue_remove_SomeD [OF assms(2)] by (auto simp: nt_inv_def)

lemma nt_inv_first_poll: "nt_inv me s \<Longrightarrow> w_pc s = WIdle \<Longrightarrow> nt_inv me (s\<lparr>w_pc := WLoad\<rparr>)"
  by (cases "n_pc s") (auto simp: nt_inv_def)

lemma nt_inv_step: "nt_inv me s \<Longrightarrow> nt_step me s t \<Longrightarrow> nt_inv me t"
  by (erule nt_step.cases)
     (simp_all only: nt_inv_notify nt_inv_waiter nt_inv_executor nt_inv_first_poll)

interpretation nt: inductive_invariant "nt_start me" "nt_step me" "nt_inv me" for me
  by unfold_locales (auto intro: nt_inv_start nt_inv_step)

text \<open>Every step makes progress: no run is infinite.\<close>

definition nt_measure :: "nt_sys \<Rightarrow> nat" where
  "nt_measure s =
     4 * (case n_pc s of NLoad \<Rightarrow> 3 | NStore _ \<Rightarrow> 2 | NAdd _ \<Rightarrow> 1 | NDone \<Rightarrow> 0) +
     3 * length (vals (n_wakes s)) + (case w_pc s of WIdle \<Rightarrow> 3 | WLoad \<Rightarrow> 2 | WStore \<Rightarrow> 1 | _ \<Rightarrow> 0)"

lemma nt_measure_notify: "n_pc s \<noteq> NDone \<Longrightarrow> nt_measure (notify_micro s) < nt_measure s"
  by (cases "n_pc s") (simp_all add: nt_measure_def notify_micro_def)

lemma nt_measure_waiter: "w_pc s \<in> {WLoad, WStore} \<Longrightarrow> nt_measure (waiter_micro me s) < nt_measure s"
  by (auto simp: nt_measure_def waiter_micro_def)

lemma nt_measure_step: "nt_step me s t \<Longrightarrow> nt_measure t < nt_measure s"
  by (erule nt_step.cases)
     (simp_all add: nt_measure_notify nt_measure_waiter del: insert_iff,
      auto simp: nt_measure_def dest!: SyncQueue_remove_SomeD)

lemma nt_stuck:
  assumes inv: "nt_inv me s" and stuck: "stuck (nt_step me) s"
  shows "w_pc s = (if found s then WFinished else WParked)"
proof -
  have n: "n_pc s = NDone" using stuck notifier [of s me] by (auto simp: stuck_def)
  have w: "w_pc s \<in> {WParked, WFinished}"
    using stuck first_poll [of s me] waiter [of s me] by (cases "w_pc s") (auto simp: stuck_def)
  then have w': "w_pc s \<in> {WIdle, WParked, WFinished}" by blast
  have "fst (SyncQueue_remove (n_wakes s)) = None"
    using stuckD [OF stuck executor [OF w']] by (metis not_None_eq prod.collapse)
  then have "vals (n_wakes s) = []" using sq.pop_None_iff [of "n_wakes s"] by simp
  with inv n w show ?thesis by (auto simp: nt_inv_def split: if_splits)
qed

text \<open>Run without interruption, the steps are \<^verbatim>\<open>notify\<close> and \<^verbatim>\<open>poll\<close>.\<close>

lemma notification_steps_are_the_code:
  "n_pc s = NLoad \<Longrightarrow> WAKE_QUEUE w = Some (n_wakes s) \<Longrightarrow>
     \<exists>word w'. NotificationSender_notify K (n_word s, w) = (Val (), (word, w')) \<and>
       (let s' = (notify_micro ^^ 3) s in
        n_pc s' = NDone \<and> n_word s' = word \<and> WAKE_QUEUE w' = Some (n_wakes s') \<and> w_pc s' = w_pc s)"
  "w_pc s = WLoad \<Longrightarrow>
     (waiter_micro me ^^ 2) s =
       (case NotificationWaiter_poll (make_waker me) (n_word s) of
          (p, word) \<Rightarrow> s\<lparr>n_word := word, w_pc := (if p = Pending then WParked else WFinished)\<rparr>)"
  by (auto simp: NotificationSender_notify_def NotificationWaiter_poll_def notify_micro_def waiter_micro_def
      wake_queue_add_run eval_nat_numeral Let_def)

section \<open>Properties\<close>

definition nt_boot :: nt_sys where
  "nt_boot = \<lparr> n_word = notification, n_wakes = \<lparr>semaphore_handle = 1, vals = []\<rparr>, n_pc = NLoad, w_pc = WIdle, found = False \<rparr>"

lemma nt_boot_start: "nt_start 3 nt_boot"
  by (simp add: nt_start_def nt_boot_def proper_token_def NOTIFICATION_READY_def NOTIFICATION_UNINIT_def)

text \<open>C35: In every interleaving of a notification with the waiting task, each step uses up a finite
  budget, and when nothing can move any more the waiter's \<^verbatim>\<open>await\<close> has returned exactly if the
  sender, loading the word, found the waiter's token there. A notification sent before the first
  poll has stored it is lost: the waiter stays parked for ever.\<close>

theorem notification_reaches_registered_waiter:
  assumes "reachable (nt_start me) (nt_step me) s"
  shows "(\<forall>t. nt_step me s t \<longrightarrow> nt_measure t < nt_measure s) \<and>
    (stuck (nt_step me) s \<longrightarrow> w_pc s = (if found s then WFinished else WParked))"
  using nt_measure_step nt_stuck nt.reachable_inv [OF assms] by blast

theorem notification_reaches_registered_waiter_witness:
  "\<exists>s. stuck (nt_step 3) s \<and> \<not> found s \<and> w_pc s = WParked \<and> reachable (nt_start 3) (nt_step 3) s"
proof -
  let ?a = "notify_micro nt_boot"
  let ?b = "?a\<lparr>w_pc := WLoad\<rparr>"
  let ?c = "waiter_micro 3 (waiter_micro 3 ?b)"
  note eval = nt_boot_def notify_micro_def waiter_micro_def notification_def
  have 1: "nt_step 3 nt_boot ?a" by (rule notifier) (simp add: eval)
  have 2: "nt_step 3 ?a ?b" by (rule first_poll) (simp add: eval)
  have 3: "nt_step 3 ?b (waiter_micro 3 ?b)" by (rule waiter) simp
  have 4: "nt_step 3 (waiter_micro 3 ?b) ?c" by (rule waiter) (simp add: eval)
  have "reachable (nt_start 3) (nt_step 3) nt_boot" by (rule reach_start) (rule nt_boot_start)
  then have r: "reachable (nt_start 3) (nt_step 3) ?c"
    using 1 2 3 4 by (meson reach_step)
  have "stuck (nt_step 3) ?c"
    by (auto simp: stuck_def eval elim!: nt_step.cases)
  moreover have "\<not> found ?c" by (simp add: eval)
  ultimately show ?thesis using notification_reaches_registered_waiter [OF r] r by auto
qed

end
