(* ===== verification/Ipc_Call.thy ===== *)
theory Ipc_Call
  imports Externals
begin

text \<open>
  The pattern of every client call in \<^verbatim>\<open>src/fs/sync_impl.rs\<close> and \<^verbatim>\<open>src/net_sync/mod.rs\<close>:
  \<^verbatim>\<open>let Reply(..) = session.request(&msg)? else { panic!() }; ds_try!(res_code)\<close>.
\<close>

definition ipc_call ::
  "('q, 'r, 'k, 'x) ipc_session \<Rightarrow> u32 \<Rightarrow> 'q \<Rightarrow> ('r \<Rightarrow> 'a option) \<Rightarrow> ('k, ('x, 'a) bunny_result) io" where
  "ipc_call S session msg pick k =
     (case ipc_request S session msg k of
        (Inl e, k') \<Rightarrow> (Val (Inl (bunny_from_ctru e)), k')
      | (Inr reply, k') \<Rightarrow>
          (case pick reply of
             None \<Rightarrow> (Panic (Explicit ''explicit panic''), k')
           | Some a \<Rightarrow> (Val (Inr a), k')))"

text \<open>
  The protocol of the services: the header of a reply carries the command id of the request.
\<close>

definition answers :: "('q \<Rightarrow> u32) \<Rightarrow> ('r \<Rightarrow> u32) \<Rightarrow> ('q, 'r, 'k, 'x) ipc_session \<Rightarrow> bool" where
  "answers msg_id reply_id S \<longleftrightarrow>
     (\<forall>h q k r k'. ipc_request S h q k = (Inr r, k') \<longrightarrow> reply_id r = msg_id q)"

text \<open>The whole pattern: the call, then \<^verbatim>\<open>ds_try!\<close> on the result code of the reply.\<close>

definition coded_call ::
  "('q, 'r, 'k, 'x) ipc_session \<Rightarrow> 'x ctru \<Rightarrow> u32 \<Rightarrow> 'q \<Rightarrow> ('r \<Rightarrow> (i32 \<times> 'v) option) \<Rightarrow>
   ('k, ('x, 'v) bunny_result) io" where
  "coded_call S C session msg pick =
     try_bind (ipc_call S session msg pick)
       (\<lambda>(res_code, v). try_bind (ds_try_io C res_code) (\<lambda>_. ret (Inr v)))"

lemma ipc_call_state: "snd (ipc_call S h m pick k) = snd (ipc_request S h m k)"
  by (simp add: ipc_call_def split: prod.split sum.split option.split)

lemma coded_call_state: "snd (coded_call S C h m pick k) = snd (ipc_request S h m k)"
  using ipc_call_state [of S h m pick k]
  by (auto simp: coded_call_def try_bind_run ds_try_io_def split: prod.split outcome.split sum.split option.split)

text \<open>
  What such a call promises: it returns, with the error of a failed transport, with the error
  for a refused result code, or with the value of the reply.
\<close>

definition call_spec ::
  "'x ctru \<Rightarrow> ('x ctru_error + 'r) \<times> 'k \<Rightarrow> ('r \<Rightarrow> (i32 \<times> 'v) option) \<Rightarrow>
   ('x, 'v) bunny_result outcome \<times> 'k \<Rightarrow> bool" where
  "call_spec C answer pick out \<longleftrightarrow>
     (case answer of
        (Inl e, k) \<Rightarrow> out = (Val (Inl (Ctru e)), k)
      | (Inr r, k) \<Rightarrow> (\<exists>c v. pick r = Some (c, v) \<and>
          out = (Val (case ds_try C c of None \<Rightarrow> Inr v | Some e \<Rightarrow> Inl e), k)))"

text \<open>
  The contract between a message and the pattern its reply is matched with: the pattern
  accepts every reply with the id of the message.
\<close>

locale ipc_op =
  fixes msg_id :: "'q \<Rightarrow> u32" and reply_id :: "'r \<Rightarrow> u32" and msg :: 'q and pick :: "'r \<Rightarrow> (i32 \<times> 'v) option"
  assumes pick_total: "reply_id r = msg_id msg \<Longrightarrow> \<exists>a. pick r = Some a"
begin

lemma call_cases:
  assumes "answers msg_id reply_id S"
  obtains e k' where "ipc_request S h msg k = (Inl e, k')" "ipc_call S h msg pick k = (Val (Inl (Ctru e)), k')"
  | r c v k' where "ipc_request S h msg k = (Inr r, k')" "pick r = Some (c, v)"
      "ipc_call S h msg pick k = (Val (Inr (c, v)), k')"
proof (cases "ipc_request S h msg k")
  case (Pair x k')
  show thesis
  proof (cases x)
    case (Inl e)
    then show thesis using Pair by (intro that(1) [of e k']) (simp_all add: ipc_call_def bunny_from_ctru_def)
  next
    case (Inr r)
    then have "reply_id r = msg_id msg" using assms Pair unfolding answers_def by blast
    then obtain c v where "pick r = Some (c, v)" using pick_total by fastforce
    then show thesis using Pair Inr by (intro that(2) [of r k' c v]) (simp_all add: ipc_call_def)
  qed
qed

lemma coded_call_spec:
  assumes "answers msg_id reply_id S"
  shows "call_spec C (ipc_request S h msg k) pick (coded_call S C h msg pick k)"
  by (rule call_cases [OF assms, of h k])
    (simp_all add: call_spec_def coded_call_def try_bind_run ds_try_io_def split: option.split)

end

end
