(* ===== verification/Fs_Types.thy ===== *)
theory Fs_Types
  imports Externals
begin

text \<open>
  \<^verbatim>\<open>src/fs/types.rs\<close>: paths and their serialised form, archives and the flag sets. A
  C string is its characters without the terminator; \<^verbatim>\<open>bytemuck::cast_slice\<close> is an argument.
\<close>

section \<open>Paths\<close>

datatype ds_path =
    Path_Invalid
  | Path_Empty
  | Path_Binary "u8 list"
  | Path_Ascii "u8 list"
  | Path_Utf16 "u16 list"

datatype ds_path_type = Ty_Invalid | Ty_Empty | Ty_Binary | Ty_Ascii | Ty_Utf16

fun DSPathType_repr :: "ds_path_type \<Rightarrow> u32" where
  "DSPathType_repr Ty_Invalid = 0x0"
| "DSPathType_repr Ty_Empty = 0x1"
| "DSPathType_repr Ty_Binary = 0x2"
| "DSPathType_repr Ty_Ascii = 0x3"
| "DSPathType_repr Ty_Utf16 = 0x4"

fun DSPath_kind :: "ds_path \<Rightarrow> ds_path_type" where
  "DSPath_kind Path_Invalid = Ty_Invalid"
| "DSPath_kind Path_Empty = Ty_Empty"
| "DSPath_kind (Path_Binary _) = Ty_Binary"
| "DSPath_kind (Path_Ascii _) = Ty_Ascii"
| "DSPath_kind (Path_Utf16 _) = Ty_Utf16"

text \<open>\<^verbatim>\<open>to_bytes_with_nul\<close> and \<^verbatim>\<open>as_slice_with_nul\<close>\<close>

definition with_nul :: "'a::zero list \<Rightarrow> 'a list" where
  "with_nul items = items @ [0]"

fun DSPath_size :: "ds_path \<Rightarrow> nat" where
  "DSPath_size Path_Invalid = 0"
| "DSPath_size Path_Empty = 0"
| "DSPath_size (Path_Binary items) = length items"
| "DSPath_size (Path_Ascii items) = length (with_nul items)"
| "DSPath_size (Path_Utf16 items) = length (with_nul items) * 2"

fun DSPath_as_bytes :: "(u16 list \<Rightarrow> u8 list) \<Rightarrow> ds_path \<Rightarrow> u8 list" where
  "DSPath_as_bytes cast_slice Path_Invalid = []"
| "DSPath_as_bytes cast_slice Path_Empty = []"
| "DSPath_as_bytes cast_slice (Path_Binary items) = items"
| "DSPath_as_bytes cast_slice (Path_Ascii items) = with_nul items"
| "DSPath_as_bytes cast_slice (Path_Utf16 items) = cast_slice (with_nul items)"

record serializable_path =
  sp_ty :: ds_path_type
  sp_size :: u32
  sp_data :: "u8 list"

definition DSPath_as_ser :: "(u16 list \<Rightarrow> u8 list) \<Rightarrow> ds_path \<Rightarrow> serializable_path" where
  "DSPath_as_ser cast_slice p =
     \<lparr> sp_ty = DSPath_kind p, sp_size = word_of_nat (DSPath_size p), sp_data = DSPath_as_bytes cast_slice p \<rparr>"

definition DSPath_from_u16cstr :: "u16 list \<Rightarrow> ds_path" where
  "DSPath_from_u16cstr value = Path_Utf16 value"

text \<open>The cast reinterprets every unit as two bytes and loses nothing.\<close>

definition cast_slice_law :: "(u16 list \<Rightarrow> u8 list) \<Rightarrow> bool" where
  "cast_slice_law cs \<longleftrightarrow> (\<forall>xs. length (cs xs) = 2 * length xs) \<and> inj cs"

section \<open>Archives and flags\<close>

datatype archive_id =
  SelfNCCH | SaveData | ExtSaveData | SharedExtSaveData | SystemSaveData | SDMC | SDMCWriteOnly

fun ArchiveId_repr :: "archive_id \<Rightarrow> u32" where
  "ArchiveId_repr SelfNCCH = 0x3"
| "ArchiveId_repr SaveData = 0x4"
| "ArchiveId_repr ExtSaveData = 0x6"
| "ArchiveId_repr SharedExtSaveData = 0x7"
| "ArchiveId_repr SystemSaveData = 0x8"
| "ArchiveId_repr SDMC = 0x9"
| "ArchiveId_repr SDMCWriteOnly = 0xA"

type_synonym archive_handle = u64

type_synonym open_flags = u8
type_synonym file_attributes = u32
type_synonym write_options = u32

definition OpenFlags_READ :: open_flags where "OpenFlags_READ = push_bit 0 1"
definition OpenFlags_WRITE :: open_flags where "OpenFlags_WRITE = push_bit 1 1"
definition OpenFlags_CREATE :: open_flags where "OpenFlags_CREATE = push_bit 2 1"

definition FileAttributes_DIR :: file_attributes where "FileAttributes_DIR = push_bit 0 1"
definition FileAttributes_HIDDEN :: file_attributes where "FileAttributes_HIDDEN = push_bit 8 1"
definition FileAttributes_ARCHIVE :: file_attributes where "FileAttributes_ARCHIVE = push_bit 16 1"
definition FileAttributes_READ_ONLY :: file_attributes where "FileAttributes_READ_ONLY = push_bit 24 1"

definition WriteOptions_FLUSH :: write_options where "WriteOptions_FLUSH = push_bit 0 1"
definition WriteOptions_UPDATE_TIMESTAMP :: write_options where "WriteOptions_UPDATE_TIMESTAMP = push_bit 8 1"

text \<open>The cast on a little-endian machine.\<close>

fun le_bytes :: "u16 list \<Rightarrow> u8 list" where
  "le_bytes [] = []"
| "le_bytes (x # xs) = ucast x # ucast (drop_bit 8 x) # le_bytes xs"

lemma le_unit_inj:
  fixes x y :: u16
  assumes "(ucast x :: u8) = ucast y" "(ucast (drop_bit 8 x) :: u8) = ucast (drop_bit 8 y)"
  shows "x = y"
proof (rule bit_word_eqI)
  fix n assume n: "n < LENGTH(16)"
  have "bit (ucast x :: u8) n = bit (ucast y :: u8) n"
    "bit (ucast (drop_bit 8 x) :: u8) (n - 8) = bit (ucast (drop_bit 8 y) :: u8) (n - 8)"
    using assms by simp_all
  then show "bit x n = bit y n"
    using n by (cases "n < 8") (auto simp: bit_unsigned_iff bit_drop_bit_eq)
qed

lemma le_bytes_law: "cast_slice_law le_bytes"
proof -
  have "length (le_bytes xs) = 2 * length xs" for xs by (induction xs) auto
  moreover have "le_bytes xs = le_bytes ys \<Longrightarrow> xs = ys" for xs ys
  proof (induction xs arbitrary: ys)
    case Nil
    then show ?case by (cases ys) auto
  next
    case (Cons x xs)
    then show ?case by (cases ys) (auto intro: le_unit_inj)
  qed
  ultimately show ?thesis by (simp add: cast_slice_law_def inj_def)
qed

section \<open>Properties\<close>

text \<open>C33: The serialised path is right. Its size field is the number of bytes it carries, for every path
  below 4 GiB, and two different paths never have the same serialised form.\<close>

theorem path_serialisation:
  assumes "cast_slice_law cs"
  shows "(DSPath_size p < 2 ^ 32 \<longrightarrow> unat (sp_size (DSPath_as_ser cs p)) = length (sp_data (DSPath_as_ser cs p))) \<and>
    (DSPath_as_ser cs p = DSPath_as_ser cs q \<longrightarrow> p = q)"
proof
  have len: "length (cs xs) = 2 * length xs" for xs using assms by (simp add: cast_slice_law_def)
  have inj: "cs xs = cs ys \<Longrightarrow> xs = ys" for xs ys using assms by (auto simp: cast_slice_law_def dest: injD)
  have "length (DSPath_as_bytes cs p) = DSPath_size p" by (cases p) (simp_all add: len)
  then show "DSPath_size p < 2 ^ 32 \<longrightarrow> unat (sp_size (DSPath_as_ser cs p)) = length (sp_data (DSPath_as_ser cs p))"
    by (simp add: DSPath_as_ser_def unat_of_nat take_bit_nat_eq_self)
  show "DSPath_as_ser cs p = DSPath_as_ser cs q \<longrightarrow> p = q"
    by (cases p; cases q) (auto simp: DSPath_as_ser_def with_nul_def dest: inj)
qed

theorem path_serialisation_witness:
  "unat (sp_size (DSPath_as_ser le_bytes (Path_Utf16 [0x2F, 0x61]))) = 6 \<and>
   DSPath_as_ser le_bytes (Path_Utf16 [0x2F, 0x61]) \<noteq> DSPath_as_ser le_bytes (Path_Utf16 [0x2F, 0x62])"
  using path_serialisation [OF le_bytes_law, of "Path_Utf16 [0x2F, 0x61]" "Path_Utf16 [0x2F, 0x62]"]
  by (auto simp: DSPath_as_ser_def with_nul_def)

end
