(* ===== verification/Fs_Ipc.thy ===== *)
theory Fs_Ipc
  imports Ipc_Call Fs_Types
begin

text \<open>
  \<^verbatim>\<open>src/fs/sync_impl.rs\<close>: the messages of the file service and the blocking calls of
  \<^verbatim>\<open>Filesystem\<close> and \<^verbatim>\<open>FileHandle\<close>. The services are an argument; a reply of a file session
  comes with the bytes the service left in the mapped buffer.
\<close>

section \<open>Messages\<close>

datatype fs_user_message =
    Initialize
  | OpenArchive archive_id serializable_path
  | OpenFile u32 archive_handle serializable_path open_flags file_attributes

datatype fs_user_reply =
    Reply_Initialize i32
  | Reply_OpenArchive i32 archive_handle
  | Reply_OpenFile i32 u32

datatype file_handle_message =
    File_Read u64 u32 "u8 list"
  | File_Write u64 u32 write_options "u8 list"
  | File_GetSize
  | File_Close
  | File_Flush

datatype file_handle_reply =
    Reply_Read i32 u32
  | Reply_Write i32 u32
  | Reply_GetSize i32 u64
  | Reply_Close i32
  | Reply_Flush i32

fun FsUserMessage_id :: "fs_user_message \<Rightarrow> u32" where
  "FsUserMessage_id Initialize = 0x801"
| "FsUserMessage_id (OpenArchive _ _) = 0x80c"
| "FsUserMessage_id (OpenFile _ _ _ _ _) = 0x802"

fun FsUserReply_id :: "fs_user_reply \<Rightarrow> u32" where
  "FsUserReply_id (Reply_Initialize _) = 0x801"
| "FsUserReply_id (Reply_OpenArchive _ _) = 0x80c"
| "FsUserReply_id (Reply_OpenFile _ _) = 0x802"

fun FileHandleMessage_id :: "file_handle_message \<Rightarrow> u32" where
  "FileHandleMessage_id (File_Read _ _ _) = 0x802"
| "FileHandleMessage_id (File_Write _ _ _ _) = 0x803"
| "FileHandleMessage_id File_GetSize = 0x804"
| "FileHandleMessage_id File_Close = 0x808"
| "FileHandleMessage_id File_Flush = 0x809"

fun FileHandleReply_id :: "file_handle_reply \<Rightarrow> u32" where
  "FileHandleReply_id (Reply_Read _ _) = 0x802"
| "FileHandleReply_id (Reply_Write _ _) = 0x803"
| "FileHandleReply_id (Reply_GetSize _ _) = 0x804"
| "FileHandleReply_id (Reply_Close _) = 0x808"
| "FileHandleReply_id (Reply_Flush _) = 0x809"

type_synonym ('k, 'x) fs_session = "(fs_user_message, fs_user_reply, 'k, 'x) ipc_session"
type_synonym ('k, 'x) file_session = "(file_handle_message, file_handle_reply \<times> u8 list, 'k, 'x) ipc_session"

section \<open>Calls\<close>

text \<open>The patterns the replies are matched with.\<close>

fun as_OpenArchive :: "fs_user_reply \<Rightarrow> (i32 \<times> archive_handle) option" where
  "as_OpenArchive (Reply_OpenArchive res_code handle) = Some (res_code, handle)"
| "as_OpenArchive _ = None"

fun as_OpenFile :: "fs_user_reply \<Rightarrow> (i32 \<times> u32) option" where
  "as_OpenFile (Reply_OpenFile res_code handle) = Some (res_code, handle)"
| "as_OpenFile _ = None"

fun as_Write :: "file_handle_reply \<times> u8 list \<Rightarrow> (i32 \<times> usize) option" where
  "as_Write (Reply_Write res_code bytes_written, _) = Some (res_code, bytes_written)"
| "as_Write _ = None"

fun as_Read :: "file_handle_reply \<times> u8 list \<Rightarrow> (i32 \<times> usize \<times> u8 list) option" where
  "as_Read (Reply_Read res_code bytes_read, data) = Some (res_code, bytes_read, data)"
| "as_Read _ = None"

fun as_Flush :: "file_handle_reply \<times> u8 list \<Rightarrow> (i32 \<times> unit) option" where
  "as_Flush (Reply_Flush res_code, _) = Some (res_code, ())"
| "as_Flush _ = None"

fun as_Close :: "file_handle_reply \<times> u8 list \<Rightarrow> (i32 \<times> unit) option" where
  "as_Close (Reply_Close res_code, _) = Some (res_code, ())"
| "as_Close _ = None"

fun as_GetSize :: "file_handle_reply \<times> u8 list \<Rightarrow> (i32 \<times> u64) option" where
  "as_GetSize (Reply_GetSize res_code len, _) = Some (res_code, len)"
| "as_GetSize _ = None"

definition Filesystem_open_archive ::
  "('k, 'x) fs_session \<Rightarrow> 'x ctru \<Rightarrow> (u16 list \<Rightarrow> u8 list) \<Rightarrow> u32 \<Rightarrow> archive_id \<Rightarrow> ds_path \<Rightarrow>
   ('k, ('x, archive_handle) bunny_result) io" where
  "Filesystem_open_archive S C cs inner archive path =
     coded_call S C inner (OpenArchive archive (DSPath_as_ser cs path)) as_OpenArchive"

definition Filesystem_open_file ::
  "('k, 'x) fs_session \<Rightarrow> 'x ctru \<Rightarrow> (u16 list \<Rightarrow> u8 list) \<Rightarrow> u32 \<Rightarrow> archive_handle \<Rightarrow> ds_path \<Rightarrow> open_flags \<Rightarrow>
   ('k, ('x, u32) bunny_result) io" where
  "Filesystem_open_file S C cs inner archive path flags =
     coded_call S C inner (OpenFile 0 archive (DSPath_as_ser cs path) flags 0) as_OpenFile"

text \<open>Handles are the numbers of their sessions.\<close>

definition Filesystem_from_raw :: "u32 \<Rightarrow> u32" where
  "Filesystem_from_raw handle = handle"

definition FileHandle_from_raw :: "u32 \<Rightarrow> u32" where
  "FileHandle_from_raw handle = handle"

definition FileHandle_duplicate :: "u32 \<Rightarrow> u32" where
  "FileHandle_duplicate self = FileHandle_from_raw self"

definition FileHandle_write ::
  "('k, 'x) file_session \<Rightarrow> 'x ctru \<Rightarrow> u32 \<Rightarrow> u64 \<Rightarrow> u8 list \<Rightarrow> write_options \<Rightarrow> ('k, ('x, usize) bunny_result) io" where
  "FileHandle_write S C inner offset data options =
     coded_call S C inner (File_Write offset (word_of_nat (length data)) options data) as_Write"

text \<open>\<^verbatim>\<open>read\<close> also returns the buffer. A request that is not answered leaves it as it was.\<close>

definition FileHandle_read ::
  "('k, 'x) file_session \<Rightarrow> 'x ctru \<Rightarrow> u32 \<Rightarrow> u64 \<Rightarrow> u8 list \<Rightarrow> ('k, ('x, usize) bunny_result \<times> u8 list) io" where
  "FileHandle_read S C inner offset rd_buf =
     io_bind (ipc_call S inner (File_Read offset (word_of_nat (length rd_buf)) rd_buf) as_Read)
       (\<lambda>res. ret (case res of
          Inl e \<Rightarrow> (Inl e, rd_buf)
        | Inr (res_code, bytes_read, data) \<Rightarrow>
            (case ds_try C res_code of None \<Rightarrow> Inr bytes_read | Some e \<Rightarrow> Inl e, data)))"

lemma read_state: "snd (FileHandle_read S C h off buf k) = snd (ipc_request S h (File_Read off (word_of_nat (length buf)) buf) k)"
  using ipc_call_state [of S h "File_Read off (word_of_nat (length buf)) buf" as_Read k]
  by (auto simp: FileHandle_read_def io_bind_run split: prod.split outcome.split)

definition FileHandle_flush :: "('k, 'x) file_session \<Rightarrow> 'x ctru \<Rightarrow> u32 \<Rightarrow> ('k, ('x, unit) bunny_result) io" where
  "FileHandle_flush S C inner = coded_call S C inner File_Flush as_Flush"

definition FileHandle_close :: "('k, 'x) file_session \<Rightarrow> 'x ctru \<Rightarrow> u32 \<Rightarrow> ('k, ('x, unit) bunny_result) io" where
  "FileHandle_close S C inner = coded_call S C inner File_Close as_Close"

definition FileHandle_get_size :: "('k, 'x) file_session \<Rightarrow> 'x ctru \<Rightarrow> u32 \<Rightarrow> ('k, ('x, u64) bunny_result) io" where
  "FileHandle_get_size S C inner = coded_call S C inner File_GetSize as_GetSize"

section \<open>The calls keep to the protocol\<close>

interpretation open_archive: ipc_op FsUserMessage_id FsUserReply_id "OpenArchive archive path" as_OpenArchive
  for archive path
  by unfold_locales (erule FsUserReply_id.elims; simp)

interpretation open_file: ipc_op FsUserMessage_id FsUserReply_id
  "OpenFile transaction archive path flags attributes" as_OpenFile for transaction archive path flags attributes
  by unfold_locales (erule FsUserReply_id.elims; simp)

text \<open>The reply of a file session is identified by its first part.\<close>

definition file_reply_id :: "file_handle_reply \<times> u8 list \<Rightarrow> u32" where
  "file_reply_id r = FileHandleReply_id (fst r)"

lemma file_reply_cases:
  "file_reply_id r = 0x802 \<Longrightarrow> \<exists>a. as_Read r = Some a"
  "file_reply_id r = 0x803 \<Longrightarrow> \<exists>a. as_Write r = Some a"
  "file_reply_id r = 0x804 \<Longrightarrow> \<exists>a. as_GetSize r = Some a"
  "file_reply_id r = 0x808 \<Longrightarrow> \<exists>a. as_Close r = Some a"
  "file_reply_id r = 0x809 \<Longrightarrow> \<exists>a. as_Flush r = Some a"
  by (cases r; cases "fst r"; simp add: file_reply_id_def)+

interpretation file_write: ipc_op FileHandleMessage_id file_reply_id "File_Write offset n options data" as_Write
  for offset n options data
  by unfold_locales (simp only: FileHandleMessage_id.simps file_reply_cases)

interpretation file_read: ipc_op FileHandleMessage_id file_reply_id "File_Read offset n data" as_Read
  for offset n data
  by unfold_locales (simp only: FileHandleMessage_id.simps file_reply_cases)

interpretation file_flush: ipc_op FileHandleMessage_id file_reply_id File_Flush as_Flush
  by unfold_locales (simp only: FileHandleMessage_id.simps file_reply_cases)

interpretation file_close: ipc_op FileHandleMessage_id file_reply_id File_Close as_Close
  by unfold_locales (simp only: FileHandleMessage_id.simps file_reply_cases)

interpretation file_get_size: ipc_op FileHandleMessage_id file_reply_id File_GetSize as_GetSize
  by unfold_locales (simp only: FileHandleMessage_id.simps file_reply_cases)

lemma FileHandle_read_run:
  assumes "answers FileHandleMessage_id file_reply_id S"
  obtains e k' where "ipc_request S h (File_Read off (word_of_nat (length buf)) buf) k = (Inl e, k')"
      "FileHandle_read S C h off buf k = (Val (Inl (Ctru e), buf), k')"
  | c n d k' where "ipc_request S h (File_Read off (word_of_nat (length buf)) buf) k = (Inr (Reply_Read c n, d), k')"
      "FileHandle_read S C h off buf k = (Val (case ds_try C c of None \<Rightarrow> Inr n | Some e \<Rightarrow> Inl e, d), k')"
proof (rule file_read.call_cases [OF assms, of h off "word_of_nat (length buf)" buf k])
  fix e k' assume "ipc_request S h (File_Read off (word_of_nat (length buf)) buf) k = (Inl e, k')"
    "ipc_call S h (File_Read off (word_of_nat (length buf)) buf) as_Read k = (Val (Inl (Ctru e)), k')"
  then show thesis by (intro that(1) [of e k']) (simp_all add: FileHandle_read_def io_bind_def)
next
  fix r c v k'
  assume a: "ipc_request S h (File_Read off (word_of_nat (length buf)) buf) k = (Inr r, k')" "as_Read r = Some (c, v)"
    "ipc_call S h (File_Read off (word_of_nat (length buf)) buf) as_Read k = (Val (Inr (c, v)), k')"
  obtain n d where v: "v = (n, d)" by force
  with a(2) have "r = (Reply_Read c n, d)" by (cases r rule: as_Read.cases) auto
  with a v show thesis by (intro that(2) [of c n d k']) (simp_all add: FileHandle_read_def io_bind_def)
qed

section \<open>Properties\<close>


text \<open>Services that answer every request, with an empty file of handle 5.\<close>

definition demo_fs :: "(unit, unit) fs_session" where
  "demo_fs = \<lparr> ipc_request = (\<lambda>_ q k. (Inr (case q of
     Initialize \<Rightarrow> Reply_Initialize 0 | OpenArchive _ _ \<Rightarrow> Reply_OpenArchive 0 1 | OpenFile _ _ _ _ _ \<Rightarrow> Reply_OpenFile 0 5), k)) \<rparr>"

definition demo_file :: "('k, unit) file_session" where
  "demo_file = \<lparr> ipc_request = (\<lambda>_ q k. (Inr (case q of
     File_Read _ _ d \<Rightarrow> (Reply_Read 0 0, d) | File_Write _ n _ d \<Rightarrow> (Reply_Write 0 n, d) | File_GetSize \<Rightarrow> (Reply_GetSize 0 0, [])
   | File_Close \<Rightarrow> (Reply_Close 0, []) | File_Flush \<Rightarrow> (Reply_Flush (-1), [])), k)) \<rparr>"

lemma demo_answers: "answers FsUserMessage_id FsUserReply_id demo_fs" "answers FileHandleMessage_id file_reply_id demo_file"
  by (auto simp: answers_def demo_fs_def demo_file_def file_reply_id_def
      split: fs_user_message.splits file_handle_message.splits)


end
