(* ===== verification/Fs_Pool.thy ===== *)
theory Fs_Pool
  imports Executor Fs_Ipc
begin

text \<open>
  \<^verbatim>\<open>src/fs/async_pool.rs\<close>: the operations the file futures queue for the worker threads, what
  a worker does with one, the futures \<^verbatim>\<open>Read\<close>, \<^verbatim>\<open>Write\<close>, \<^verbatim>\<open>Flush\<close> and \<^verbatim>\<open>Close\<close>, and
  \<^verbatim>\<open>AsyncFile\<close>. An operation refers to the cells of its future by address, so memory is explicit.
\<close>

section \<open>Memory\<close>

record io_mem =
  at_i32 :: "u32 \<Rightarrow> i32"
  at_u32 :: "u32 \<Rightarrow> u32"
  at_bool :: "u32 \<Rightarrow> bool"
  at_u8 :: "u32 \<Rightarrow> u8"

text \<open>\<^verbatim>\<open>from_raw_parts\<close>, and what a service writes through \<^verbatim>\<open>from_raw_parts_mut\<close>.\<close>

definition slice_at :: "io_mem \<Rightarrow> u32 \<Rightarrow> u32 \<Rightarrow> u8 list" where
  "slice_at m ptr len = map (\<lambda>i. at_u8 m (ptr + word_of_nat i)) [0..<unat len]"

definition store_slice :: "u32 \<Rightarrow> u8 list \<Rightarrow> io_mem \<Rightarrow> io_mem" where
  "store_slice ptr bs m =
     m\<lparr>at_u8 := (\<lambda>a. if unat (a - ptr) < length bs then bs ! unat (a - ptr) else at_u8 m a)\<rparr>"

section \<open>Operations and their completion\<close>

record file_io_operation =
  io_file :: u32
  io_task :: task_token
  io_state :: u32
  io_result :: u32
  io_offset :: u32
  io_len :: u32
  io_data_ptr :: u32

record file_control_operation =
  ctl_file :: u32
  ctl_task :: task_token
  ctl_state :: u32
  ctl_done :: u32

datatype async_fs_msg =
    Async_Write file_io_operation
  | Async_Read file_io_operation
  | Async_Flush file_control_operation
  | Async_Close file_control_operation

text \<open>
  A view of an operation: its file, the task, the addresses of its two atomics, and the slice its pointer
  and length give. \<^verbatim>\<open>FileIoOperationView\<close> and \<^verbatim>\<open>FileIoOperationViewMut\<close> differ in what may be done to the slice.
\<close>

record file_io_view =
  v_file :: u32
  v_task :: task_token
  v_state :: u32
  v_result :: u32
  v_offset :: u32
  v_data :: "u32 \<times> u32"

definition FileIoOperation_view :: "file_io_operation \<Rightarrow> file_io_view" where
  "FileIoOperation_view self =
     \<lparr> v_file = FileHandle_from_raw (io_file self), v_task = io_task self, v_state = io_state self,
       v_result = io_result self, v_offset = io_offset self, v_data = (io_data_ptr self, io_len self) \<rparr>"

definition FileIoOperation_view_mut :: "file_io_operation \<Rightarrow> file_io_view" where
  "FileIoOperation_view_mut self =
     \<lparr> v_file = FileHandle_from_raw (io_file self), v_task = io_task self, v_state = io_state self,
       v_result = io_result self, v_offset = io_offset self, v_data = (io_data_ptr self, io_len self) \<rparr>"

record file_control_view =
  cv_file :: u32
  cv_task :: task_token
  cv_state :: u32
  cv_done :: u32

definition FileControlOperation_view :: "file_control_operation \<Rightarrow> file_control_view" where
  "FileControlOperation_view self =
     \<lparr> cv_file = FileHandle_from_raw (ctl_file self), cv_task = ctl_task self, cv_state = ctl_state self,
       cv_done = ctl_done self \<rparr>"

text \<open>
  \<^verbatim>\<open>resolve\<close> as the pair of values it stores: the result code with the byte count, or with
  the flag. An error other than an OS error is a \<^verbatim>\<open>todo!()\<close>.
\<close>

fun resolve_io :: "('x, usize) bunny_result \<Rightarrow> (i32 \<times> u32) outcome" where
  "resolve_io (Inr v) = Val (0, v)"
| "resolve_io (Inl (Ctru (Os os_err))) = Val (os_err, 0)"
| "resolve_io (Inl _) = Panic Todo"

fun resolve_ctl :: "('x, unit) bunny_result \<Rightarrow> (i32 \<times> bool) outcome" where
  "resolve_ctl (Inr _) = Val (0, True)"
| "resolve_ctl (Inl (Ctru (Os os_err))) = Val (os_err, True)"
| "resolve_ctl (Inl _) = Panic Todo"

text \<open>The state is stored before the result, or the flag, that says the operation is done.\<close>

definition FileIoOperationView_resolve ::
  "file_io_view \<Rightarrow> ('x, usize) bunny_result \<Rightarrow> (io_mem, unit) io" where
  "FileIoOperationView_resolve self res m =
     (case resolve_io res of
        Panic p \<Rightarrow> (Panic p, m)
      | Val (st, n) \<Rightarrow>
          (let m = m\<lparr>at_i32 := (at_i32 m)(v_state self := st)\<rparr> in
           (Val (), m\<lparr>at_u32 := (at_u32 m)(v_result self := n)\<rparr>)))"

definition FileIoOperationViewMut_resolve ::
  "file_io_view \<Rightarrow> ('x, usize) bunny_result \<Rightarrow> (io_mem, unit) io" where
  "FileIoOperationViewMut_resolve self res m =
     (case resolve_io res of
        Panic p \<Rightarrow> (Panic p, m)
      | Val (st, n) \<Rightarrow>
          (let m = m\<lparr>at_i32 := (at_i32 m)(v_state self := st)\<rparr> in
           (Val (), m\<lparr>at_u32 := (at_u32 m)(v_result self := n)\<rparr>)))"

definition FileControlOpView_resolve ::
  "file_control_view \<Rightarrow> ('x, unit) bunny_result \<Rightarrow> (io_mem, unit) io" where
  "FileControlOpView_resolve self res m =
     (case resolve_ctl res of
        Panic p \<Rightarrow> (Panic p, m)
      | Val (st, d) \<Rightarrow>
          (let m = m\<lparr>at_i32 := (at_i32 m)(cv_state self := st)\<rparr> in
           (Val (), m\<lparr>at_bool := (at_bool m)(cv_done self := d)\<rparr>)))"

lemmas io_views = FileIoOperation_view_def FileIoOperation_view_mut_def FileControlOperation_view_def FileHandle_from_raw_def
  FileHandle_duplicate_def FileIoOperationView_resolve_def FileIoOperationViewMut_resolve_def FileControlOpView_resolve_def Let_def

text \<open>\<^verbatim>\<open>state_resolve\<close>\<close>

definition state_resolve :: "'x ctru \<Rightarrow> i32 \<Rightarrow> 'a \<Rightarrow> ('x, 'a) bunny_result poll" where
  "state_resolve C state res =
     (if R_FAILED C state \<or> R_SUMMARY C state \<noteq> RS_SUCCESS C then Ready (Inl (Ctru (Os state)))
      else Ready (Inr res))"

section \<open>Worker\<close>

record ('f, 'k) fs_world = "('f, 'k) runtime" +
  ASYNC_FS_POOL :: "async_fs_msg sync_queue option"
  mem :: io_mem

type_synonym ('f, 'k, 'a) fsio = "(('f, 'k) fs_world, 'a) io"

definition on_mem :: "(io_mem, 'a) io \<Rightarrow> ('f, 'k, 'a) fsio" where
  "on_mem f w = (case f (mem w) of (r, m) \<Rightarrow> (r, w\<lparr>mem := m\<rparr>))"

text \<open>\<^verbatim>\<open>self.executor.wake(op.task).unwrap()\<close>\<close>

definition worker_wake :: "'k kernel \<Rightarrow> task_token \<Rightarrow> ('f, 'k, unit) fsio" where
  "worker_wake K task =
     io_bind (ExecutorSession_wake K task :: ('f, 'k, (unit, unit) bunny_result) fsio)
       (\<lambda>r. lift_outcome (unwrap_result r))"

text \<open>The body of the worker's loop for one message.\<close>

fun IoWorker_handle ::
  "('k, 'x) file_session \<Rightarrow> 'x ctru \<Rightarrow> 'k kernel \<Rightarrow> async_fs_msg \<Rightarrow> ('f, 'k, unit) fsio" where
  "IoWorker_handle S C K (Async_Write op) w =
     (let op = FileIoOperation_view op in
      io_bind (on_kern (FileHandle_write S C (v_file op) (ucast (v_offset op)) (slice_at (mem w) (fst (v_data op)) (snd (v_data op))) 0))
        (\<lambda>res. io_bind (on_mem (FileIoOperationView_resolve op res)) (\<lambda>_. worker_wake K (v_task op))) w)"
| "IoWorker_handle S C K (Async_Read op) w =
     (let op = FileIoOperation_view_mut op in
      io_bind (on_kern (FileHandle_read S C (v_file op) (ucast (v_offset op)) (slice_at (mem w) (fst (v_data op)) (snd (v_data op)))))
        (\<lambda>(res, data). io_bind (on_mem (\<lambda>m. (Val (), store_slice (fst (v_data op)) data m)))
           (\<lambda>_. io_bind (on_mem (FileIoOperationViewMut_resolve op res)) (\<lambda>_. worker_wake K (v_task op)))) w)"
| "IoWorker_handle S C K (Async_Flush op) w =
     (let op = FileControlOperation_view op in
      io_bind (on_kern (FileHandle_flush S C (cv_file op)))
        (\<lambda>res. io_bind (on_mem (FileControlOpView_resolve op res)) (\<lambda>_. worker_wake K (cv_task op))) w)"
| "IoWorker_handle S C K (Async_Close op) w =
     (let op = FileControlOperation_view op in
      io_bind (on_kern (FileHandle_close S C (FileHandle_duplicate (cv_file op))))
        (\<lambda>res. io_bind (on_mem (FileControlOpView_resolve op res)) (\<lambda>_. worker_wake K (cv_task op))) w)"

declare IoWorker_handle.simps [simp del]

text \<open>One round of \<^verbatim>\<open>IoWorker::run\<close>.\<close>

definition IoWorker_round ::
  "('k, 'x) file_session \<Rightarrow> 'x ctru \<Rightarrow> 'k kernel \<Rightarrow> ('f, 'k) fs_world \<Rightarrow> (unit outcome \<times> ('f, 'k) fs_world) blocking" where
  "IoWorker_round S C K w =
     (case ASYNC_FS_POOL w of
        None \<Rightarrow> Returns (Panic UnwrapNone, w)
      | Some q \<Rightarrow>
          (case SyncQueue_wait K C i64_MAX q (kern w) of
             None \<Rightarrow> Blocks
           | Some (Inl _, k) \<Rightarrow> Returns (Panic UnwrapErr, w\<lparr>kern := k\<rparr>)
           | Some (Inr _, k) \<Rightarrow>
               Returns (case SyncQueue_remove q of
                  (None, q') \<Rightarrow> (Val (), w\<lparr>kern := k, ASYNC_FS_POOL := Some q'\<rparr>)
                | (Some task, q') \<Rightarrow> IoWorker_handle S C K task (w\<lparr>kern := k, ASYNC_FS_POOL := Some q'\<rparr>))))"

section \<open>Futures\<close>

text \<open>\<^verbatim>\<open>io_futures::Read\<close> and \<^verbatim>\<open>io_futures::Write\<close> have the same fields.\<close>

record io_future =
  f_file :: u32
  f_offset :: u32
  f_data_ptr :: u32
  f_len :: u32
  f_state :: u32
  f_bytes :: u32
  f_registered :: bool

record ctl_future =
  c_file :: u32
  c_registered :: bool
  c_res :: u32
  c_done :: u32

text \<open>\<^verbatim>\<open>new\<close>, with the addresses the two atomics get.\<close>

definition Read_new :: "u32 \<Rightarrow> u32 \<Rightarrow> u32 \<Rightarrow> u32 \<Rightarrow> u32 \<Rightarrow> u32 \<Rightarrow> io_mem \<Rightarrow> io_future \<times> io_mem" where
  "Read_new file offset ptr len state_at bytes_at m =
     (\<lparr> f_file = file, f_offset = offset, f_data_ptr = ptr, f_len = len,
        f_state = state_at, f_bytes = bytes_at, f_registered = False \<rparr>,
      m\<lparr>at_i32 := (at_i32 m)(state_at := 0), at_u32 := (at_u32 m)(bytes_at := u32_MAX)\<rparr>)"

definition Write_new :: "u32 \<Rightarrow> u32 \<Rightarrow> u32 \<Rightarrow> u32 \<Rightarrow> u32 \<Rightarrow> u32 \<Rightarrow> io_mem \<Rightarrow> io_future \<times> io_mem" where
  "Write_new file offset ptr len state_at bytes_at m =
     (\<lparr> f_file = file, f_offset = offset, f_data_ptr = ptr, f_len = len,
        f_state = state_at, f_bytes = bytes_at, f_registered = False \<rparr>,
      m\<lparr>at_i32 := (at_i32 m)(state_at := 0), at_u32 := (at_u32 m)(bytes_at := u32_MAX)\<rparr>)"

definition Flush_new :: "u32 \<Rightarrow> u32 \<Rightarrow> u32 \<Rightarrow> io_mem \<Rightarrow> ctl_future \<times> io_mem" where
  "Flush_new file res_at done_at m =
     (\<lparr> c_file = file, c_registered = False, c_res = res_at, c_done = done_at \<rparr>,
      m\<lparr>at_i32 := (at_i32 m)(res_at := 0), at_bool := (at_bool m)(done_at := False)\<rparr>)"

text \<open>\<^verbatim>\<open>ASYNC_FS_POOL.get().expect("fs not initialized").add(msg)\<close>\<close>

definition pool_add :: "'k kernel \<Rightarrow> async_fs_msg \<Rightarrow> ('f, 'k, unit) fsio" where
  "pool_add K msg w =
     (case ASYNC_FS_POOL w of
        None \<Rightarrow> (Panic (Explicit ''fs not initialized''), w)
      | Some q \<Rightarrow> (case SyncQueue_add K msg q (kern w) of
                    (q', k) \<Rightarrow> (Val (), w\<lparr>kern := k, ASYNC_FS_POOL := Some q'\<rparr>)))"

definition operation_of :: "io_future \<Rightarrow> waker \<Rightarrow> file_io_operation" where
  "operation_of self cx =
     \<lparr> io_file = f_file self, io_task = TaskToken_from_waker cx, io_state = f_state self, io_result = f_bytes self,
       io_offset = f_offset self, io_len = f_len self, io_data_ptr = f_data_ptr self \<rparr>"

definition control_of :: "ctl_future \<Rightarrow> waker \<Rightarrow> file_control_operation" where
  "control_of self cx =
     \<lparr> ctl_file = c_file self, ctl_task = TaskToken_from_waker cx, ctl_state = c_res self, ctl_done = c_done self \<rparr>"

definition Read_poll ::
  "'x ctru \<Rightarrow> 'k kernel \<Rightarrow> waker \<Rightarrow> io_future \<Rightarrow> ('f, 'k, ('x, usize) bunny_result poll \<times> io_future) fsio" where
  "Read_poll C K cx self w =
     (let bytes_read = at_u32 (mem w) (f_bytes self) in
      if bytes_read = u32_MAX \<and> \<not> f_registered self
      then io_bind (pool_add K (Async_Read (operation_of self cx))) (\<lambda>_. ret (Pending, self\<lparr>f_registered := True\<rparr>)) w
      else if f_registered self \<and> bytes_read \<noteq> u32_MAX
      then (Val (state_resolve C (at_i32 (mem w) (f_state self)) bytes_read, self), w)
      else (Val (Pending, self), w))"

definition Write_poll ::
  "'x ctru \<Rightarrow> 'k kernel \<Rightarrow> waker \<Rightarrow> io_future \<Rightarrow> ('f, 'k, ('x, usize) bunny_result poll \<times> io_future) fsio" where
  "Write_poll C K cx self w =
     (let bytes_read = at_u32 (mem w) (f_bytes self) in
      if bytes_read = u32_MAX \<and> \<not> f_registered self
      then io_bind (pool_add K (Async_Write (operation_of self cx))) (\<lambda>_. ret (Pending, self\<lparr>f_registered := True\<rparr>)) w
      else if f_registered self \<and> bytes_read \<noteq> u32_MAX
      then (Val (state_resolve C (at_i32 (mem w) (f_state self)) bytes_read, self), w)
      else (Val (Pending, self), w))"

definition Flush_poll ::
  "'x ctru \<Rightarrow> 'k kernel \<Rightarrow> waker \<Rightarrow> ctl_future \<Rightarrow> ('f, 'k, ('x, unit) bunny_result poll \<times> ctl_future) fsio" where
  "Flush_poll C K cx self w =
     (if \<not> c_registered self
      then io_bind (pool_add K (Async_Flush (control_of self cx))) (\<lambda>_. ret (Pending, self\<lparr>c_registered := True\<rparr>)) w
      else if at_bool (mem w) (c_done self)
      then (Val (state_resolve C (at_i32 (mem w) (c_res self)) (), self), w)
      else (Val (Pending, self), w))"

text \<open>\<^verbatim>\<open>Close\<close> sends its operation over a session of its own instead of the queue.\<close>

definition Close_poll ::
  "'x ctru \<Rightarrow> (async_fs_msg, unit, 'k, 'x) ipc_session \<Rightarrow> u32 \<Rightarrow> waker \<Rightarrow> ctl_future \<Rightarrow>
   ('f, 'k, ('x, unit) bunny_result poll \<times> ctl_future) fsio" where
  "Close_poll C P client cx self w =
     (if \<not> c_registered self
      then (case ipc_request P client (Async_Close (control_of self cx)) (kern w) of
              (Inl e, k) \<Rightarrow> (Val (Ready (Inl (bunny_from_ctru e)), self), w\<lparr>kern := k\<rparr>)
            | (Inr _, k) \<Rightarrow> (Val (Pending, self\<lparr>c_registered := True\<rparr>), w\<lparr>kern := k\<rparr>))
      else if at_bool (mem w) (c_done self)
      then (Val (state_resolve C (at_i32 (mem w) (c_res self)) (), self), w)
      else (Val (Pending, self), w))"

section \<open>Files\<close>

record async_file =
  af_handle :: u32
  cursor :: u32

definition AsyncFile_wrap :: "u32 \<Rightarrow> async_file" where
  "AsyncFile_wrap file = \<lparr> af_handle = file, cursor = 0 \<rparr>"

definition AsyncFile_read_at :: "async_file \<Rightarrow> u32 \<Rightarrow> u32 \<Rightarrow> u32 \<Rightarrow> u32 \<Rightarrow> u32 \<Rightarrow> io_mem \<Rightarrow> io_future \<times> io_mem" where
  "AsyncFile_read_at self offset ptr len = Read_new (af_handle self) offset ptr len"

definition AsyncFile_write_at :: "async_file \<Rightarrow> u32 \<Rightarrow> u32 \<Rightarrow> u32 \<Rightarrow> u32 \<Rightarrow> u32 \<Rightarrow> io_mem \<Rightarrow> io_future \<times> io_mem" where
  "AsyncFile_write_at self offset ptr len = Write_new (af_handle self) offset ptr len"

definition AsyncFile_flush :: "async_file \<Rightarrow> u32 \<Rightarrow> u32 \<Rightarrow> io_mem \<Rightarrow> ctl_future \<times> io_mem" where
  "AsyncFile_flush self = Flush_new (af_handle self)"

definition AsyncFile_get_size ::
  "('k, 'x) file_session \<Rightarrow> 'x ctru \<Rightarrow> async_file \<Rightarrow> ('k, ('x, u64) bunny_result) io" where
  "AsyncFile_get_size S C self = FileHandle_get_size S C (af_handle self)"

text \<open>
  \<^verbatim>\<open>embedded_io_async\<close>'s \<^verbatim>\<open>read\<close> and \<^verbatim>\<open>write\<close>: the future they await starts at the cursor, and its
  result moves the cursor, with overflow checks.
\<close>

definition AsyncFile_read_start :: "async_file \<Rightarrow> u32 \<Rightarrow> u32 \<Rightarrow> u32 \<Rightarrow> u32 \<Rightarrow> io_mem \<Rightarrow> io_future \<times> io_mem" where
  "AsyncFile_read_start self = AsyncFile_read_at self (cursor self)"

definition AsyncFile_write_start :: "async_file \<Rightarrow> u32 \<Rightarrow> u32 \<Rightarrow> u32 \<Rightarrow> u32 \<Rightarrow> io_mem \<Rightarrow> io_future \<times> io_mem" where
  "AsyncFile_write_start self = AsyncFile_write_at self (cursor self)"

definition AsyncFile_advance ::
  "('x, usize) bunny_result \<Rightarrow> async_file \<Rightarrow> (('x, usize) bunny_result \<times> async_file) outcome" where
  "AsyncFile_advance res self =
     (case res of
        Inr v \<Rightarrow> (case add_u32 (cursor self) v of
                   Val c \<Rightarrow> Val (Inr v, self\<lparr>cursor := c\<rparr>)
                 | Panic p \<Rightarrow> Panic p)
      | Inl e \<Rightarrow> Val (Inl e, self))"

section \<open>The contract of a pooled future\<close>

text \<open>
  A future of the pool has a cell its operation points to. Its first poll queues the
  operation, and every later poll only looks at the cell.
\<close>

locale pool_future =
  fixes K :: "'k kernel"
    and poll :: "waker \<Rightarrow> 'u \<Rightarrow> ('f, 'k, 'r poll \<times> 'u) fsio"
    and msg :: "waker \<Rightarrow> 'u \<Rightarrow> async_fs_msg"
    and cell :: "'u \<Rightarrow> io_mem \<Rightarrow> 'c" and fresh :: 'c and observe :: "'c \<Rightarrow> 'r poll"
    and submitted :: "'u \<Rightarrow> bool" and mark :: "'u \<Rightarrow> 'u"
  assumes first_poll: "\<not> submitted f \<Longrightarrow> cell f (mem w) = fresh \<Longrightarrow>
      poll cx f w = io_bind (pool_add K (msg cx f)) (\<lambda>_. ret (Pending, mark f)) w"
    and later_poll: "submitted f \<Longrightarrow> poll cx f w = (Val (observe (cell f (mem w)), f), w)"
    and submitted_mark: "submitted (mark f)"
    and cell_mark: "cell (mark f) = cell f"
    and observe_fresh: "observe fresh = Pending"
begin

lemma submits:
  assumes "\<not> submitted f" "cell f (mem w) = fresh" "ASYNC_FS_POOL w = Some q"
  shows "poll cx f w = (Val (Pending, mark f),
    w\<lparr>kern := release_one K (semaphore_handle q) (kern w), ASYNC_FS_POOL := Some (push_back (msg cx f) q)\<rparr>)"
  using first_poll [OF assms(1,2)] assms(3) by (simp add: pool_add_def SyncQueue_add_def io_bind_def)

lemma waits: "cell f (mem w) = fresh \<Longrightarrow> poll cx (mark f) w = (Val (Pending, mark f), w)"
  by (simp add: later_poll submitted_mark cell_mark observe_fresh)

lemma finishes: "cell f (mem w) = c \<Longrightarrow> observe c = Ready r \<Longrightarrow> poll cx (mark f) w = (Val (Ready r, mark f), w)"
  by (simp add: later_poll submitted_mark cell_mark)

end

text \<open>The cells of the futures, and what their polls make of them.\<close>

definition io_cell :: "io_future \<Rightarrow> io_mem \<Rightarrow> i32 \<times> u32" where
  "io_cell f m = (at_i32 m (f_state f), at_u32 m (f_bytes f))"

definition observe_io :: "'x ctru \<Rightarrow> i32 \<times> u32 \<Rightarrow> ('x, usize) bunny_result poll" where
  "observe_io C c = (if snd c = u32_MAX then Pending else state_resolve C (fst c) (snd c))"

definition ctl_cell :: "ctl_future \<Rightarrow> io_mem \<Rightarrow> i32 \<times> bool" where
  "ctl_cell f m = (at_i32 m (c_res f), at_bool m (c_done f))"

definition observe_ctl :: "'x ctru \<Rightarrow> i32 \<times> bool \<Rightarrow> ('x, unit) bunny_result poll" where
  "observe_ctl C c = (if snd c then state_resolve C (fst c) () else Pending)"

interpretation read_fut: pool_future K "Read_poll C K" "\<lambda>cx f. Async_Read (operation_of f cx)" io_cell
  "(0, u32_MAX)" "observe_io C" f_registered "\<lambda>f. f\<lparr>f_registered := True\<rparr>" for K C
  by unfold_locales (simp_all add: Read_poll_def io_cell_def observe_io_def fun_eq_iff)

interpretation write_fut: pool_future K "Write_poll C K" "\<lambda>cx f. Async_Write (operation_of f cx)" io_cell
  "(0, u32_MAX)" "observe_io C" f_registered "\<lambda>f. f\<lparr>f_registered := True\<rparr>" for K C
  by unfold_locales (simp_all add: Write_poll_def io_cell_def observe_io_def fun_eq_iff)

interpretation flush_fut: pool_future K "Flush_poll C K" "\<lambda>cx f. Async_Flush (control_of f cx)" ctl_cell
  "(0, False)" "observe_ctl C" c_registered "\<lambda>f. f\<lparr>c_registered := True\<rparr>" for K C
  by unfold_locales (simp_all add: Flush_poll_def ctl_cell_def observe_ctl_def fun_eq_iff)

text \<open>
  The results a worker can pass on: a good value, or an OS error with a code that
  \<^verbatim>\<open>ds_try!\<close> refuses. For these the cell carries the result without loss.
\<close>

definition settled :: "'x ctru \<Rightarrow> ('v \<Rightarrow> bool) \<Rightarrow> ('x, 'v) bunny_result \<Rightarrow> bool" where
  "settled C good res \<longleftrightarrow>
     (case res of Inr v \<Rightarrow> good v | Inl e \<Rightarrow> (case e of Ctru (Os c) \<Rightarrow> ds_try C c \<noteq> None | _ \<Rightarrow> False))"

lemma settledE:
  assumes "settled C good res"
  obtains v where "res = Inr v" "good v" | c where "res = Inl (Ctru (Os c))" "ds_try C c \<noteq> None"
  using assms by (auto simp: settled_def split: sum.splits bunny_error.splits ctru_error.splits)

lemma state_resolve_ok: "result_code_law C \<Longrightarrow> state_resolve C 0 v = Ready (Inr v)"
  by (simp add: state_resolve_def result_code_law_def)

lemma state_resolve_err: "result_code_law C \<Longrightarrow> ds_try C c \<noteq> None \<Longrightarrow> state_resolve C c v = Ready (Inl (Ctru (Os c)))"
  unfolding state_resolve_def result_code_law_def by simp

lemma resolve_io_settled:
  assumes "result_code_law C" "settled C (\<lambda>n. n \<noteq> u32_MAX) res"
  obtains c where "resolve_io res = Val c" "observe_io C c = Ready res"
  using assms(2)
proof (rule settledE)
  fix v assume "res = Inr v" "v \<noteq> u32_MAX"
  then show thesis by (intro that [of "(0, v)"]) (simp_all add: observe_io_def state_resolve_ok [OF assms(1)])
next
  fix e assume "res = Inl (Ctru (Os e))" "ds_try C e \<noteq> None"
  then show thesis by (intro that [of "(e, 0)"]) (simp_all add: observe_io_def state_resolve_err [OF assms(1)])
qed

lemma resolve_ctl_settled:
  assumes "result_code_law C" "settled C (\<lambda>_. True) res"
  obtains c where "resolve_ctl res = Val c" "observe_ctl C c = Ready res"
  using assms(2)
proof (rule settledE)
  fix v assume "res = Inr v"
  then show thesis by (intro that [of "(0, True)"]) (simp_all add: observe_ctl_def state_resolve_ok [OF assms(1)])
next
  fix e assume "res = Inl (Ctru (Os e))" "ds_try C e \<noteq> None"
  then show thesis by (intro that [of "(e, True)"]) (simp_all add: observe_ctl_def state_resolve_err [OF assms(1)])
qed

section \<open>What a worker does with an operation\<close>

lemma store_slice_sel [simp]: "at_i32 (store_slice p bs m) = at_i32 m" "at_u32 (store_slice p bs m) = at_u32 m"
  by (simp_all add: store_slice_def)

lemma worker_wake_run:
  "WAKE_QUEUE w = Some q \<Longrightarrow> worker_wake K t w =
     (Val (), w\<lparr>WAKE_QUEUE := Some (push_back t q), kern := release_one K (semaphore_handle q) (kern w)\<rparr>)"
  by (simp add: worker_wake_def ExecutorSession_wake_def io_bind_def wake_queue_add_run)

lemma handle_write_run:
  assumes "FileHandle_write S C (io_file op) (ucast (io_offset op)) (slice_at (mem w) (io_data_ptr op) (io_len op)) 0 (kern w)
      = (Val res, k)" "resolve_io res = Val (st, n)" "WAKE_QUEUE w = Some q"
  shows "IoWorker_handle S C K (Async_Write op) w = (Val (),
    w\<lparr>mem := (mem w)\<lparr>at_i32 := (at_i32 (mem w))(io_state op := st), at_u32 := (at_u32 (mem w))(io_result op := n)\<rparr>,
      WAKE_QUEUE := Some (push_back (io_task op) q), kern := release_one K (semaphore_handle q) k\<rparr>)"
  using assms by (simp add: IoWorker_handle.simps io_bind_def on_kern_def on_mem_def io_views worker_wake_run)

lemma handle_read_run:
  assumes "FileHandle_read S C (io_file op) (ucast (io_offset op)) (slice_at (mem w) (io_data_ptr op) (io_len op)) (kern w)
      = (Val (res, data), k)" "resolve_io res = Val (st, n)" "WAKE_QUEUE w = Some q"
  shows "IoWorker_handle S C K (Async_Read op) w = (Val (),
    w\<lparr>mem := (store_slice (io_data_ptr op) data (mem w))
        \<lparr>at_i32 := (at_i32 (mem w))(io_state op := st), at_u32 := (at_u32 (mem w))(io_result op := n)\<rparr>,
      WAKE_QUEUE := Some (push_back (io_task op) q), kern := release_one K (semaphore_handle q) k\<rparr>)"
  using assms
  by (simp add: IoWorker_handle.simps io_bind_def on_kern_def on_mem_def io_views worker_wake_run)

lemma handle_flush_run:
  assumes "FileHandle_flush S C (ctl_file op) (kern w) = (Val res, k)" "resolve_ctl res = Val (st, d)" "WAKE_QUEUE w = Some q"
  shows "IoWorker_handle S C K (Async_Flush op) w = (Val (),
    w\<lparr>mem := (mem w)\<lparr>at_i32 := (at_i32 (mem w))(ctl_state op := st), at_bool := (at_bool (mem w))(ctl_done op := d)\<rparr>,
      WAKE_QUEUE := Some (push_back (ctl_task op) q), kern := release_one K (semaphore_handle q) k\<rparr>)"
  using assms by (simp add: IoWorker_handle.simps io_bind_def on_kern_def on_mem_def io_views worker_wake_run)

lemma slice_of_stored:
  assumes "length bs = unat len"
  shows "slice_at (store_slice ptr bs m) ptr len = bs"
proof (rule nth_equalityI)
  show "length (slice_at (store_slice ptr bs m) ptr len) = length bs" using assms by (simp add: slice_at_def)
  fix i assume "i < length (slice_at (store_slice ptr bs m) ptr len)"
  then have i: "i < unat len" by (simp add: slice_at_def)
  then have "i < 2 ^ 32" using unsigned_less [of len, where ?'a = nat] by simp
  then have "unat (word_of_nat i :: u32) = i" by (simp add: unat_of_nat take_bit_nat_eq_self)
  then show "slice_at (store_slice ptr bs m) ptr len ! i = bs ! i"
    using i assms by (simp add: slice_at_def store_slice_def)
qed

lemma slice_at_u8 [simp]: "slice_at (m\<lparr>at_i32 := x, at_u32 := y\<rparr>) ptr len = slice_at m ptr len"
  by (simp add: slice_at_def)

text \<open>A world with empty queues and blank memory.\<close>

definition blank_mem :: io_mem where
  "blank_mem = \<lparr> at_i32 = (\<lambda>_. 7), at_u32 = (\<lambda>_. 7), at_bool = (\<lambda>_. True), at_u8 = (\<lambda>_. 9) \<rparr>"

definition idle_fs :: "io_mem \<Rightarrow> (unit, sim_kernel_state) fs_world" where
  "idle_fs m = \<lparr> kern = sk_boot, TASK_QUEUE = None, WAKE_QUEUE = Some \<lparr>semaphore_handle = 1, vals = []\<rparr>,
     EXECUTOR_PORT = None, REACTOR_PORT = None, ASYNC_FS_POOL = Some \<lparr>semaphore_handle = 2, vals = []\<rparr>, mem = m \<rparr>"

section \<open>Properties\<close>

text \<open>C14: A read through the pool. The first poll of a new \<^verbatim>\<open>Read\<close> queues one operation, and polls before
  its completion change nothing. When a worker has handled the operation, the polling task is in the
  wake queue, the buffer holds what the service wrote, and from then on the future is \<^verbatim>\<open>Ready\<close>
  with the very result of the worker's call, byte count or error code.\<close>

theorem async_read_round_trip:
  fixes w :: "('f, 'k) fs_world"
  assumes C: "result_code_law C"
    and new: "Read_new file off ptr len sa ba m = (f, mem w)"
    and w: "ASYNC_FS_POOL w = Some pq" "WAKE_QUEUE w = Some wq"
    and w1: "w1 = w\<lparr>kern := release_one K (semaphore_handle pq) (kern w),
        ASYNC_FS_POOL := Some (push_back (Async_Read (operation_of f (make_waker t))) pq)\<rparr>"
    and call: "FileHandle_read S C file (ucast off) (slice_at m ptr len) (kern w1) = (Val (res, data), k)"
    and res: "settled C (\<lambda>n. n \<noteq> u32_MAX) res" "length data = unat len"
  shows "\<exists>f1 w2. Read_poll C K (make_waker t) f w = (Val (Pending, f1), w1) \<and>
    Read_poll C K cx f1 w1 = (Val (Pending, f1), w1) \<and>
    IoWorker_handle S C K (Async_Read (operation_of f (make_waker t))) w1 = (Val (), w2) \<and>
    WAKE_QUEUE w2 = Some (push_back t wq) \<and> slice_at (mem w2) ptr len = data \<and>
    (\<forall>w3 :: ('f, 'k) fs_world. io_cell f (mem w3) = io_cell f (mem w2) \<longrightarrow>
       Read_poll C K cx f1 w3 = (Val (Ready res, f1), w3))"
proof -
  let ?f1 = "f\<lparr>f_registered := True\<rparr>" and ?op = "operation_of f (make_waker t)"
  obtain st n where c: "resolve_io res = Val (st, n)" "observe_io C (st, n) = Ready res"
    using resolve_io_settled [OF C res(1)] by (metis surj_pair)
  have f: "f = \<lparr> f_file = file, f_offset = off, f_data_ptr = ptr, f_len = len, f_state = sa, f_bytes = ba, f_registered = False \<rparr>"
    and m: "mem w = m\<lparr>at_i32 := (at_i32 m)(sa := 0), at_u32 := (at_u32 m)(ba := u32_MAX)\<rparr>"
    using new by (simp_all add: Read_new_def)
  have fresh: "\<not> f_registered f" "io_cell f (mem w) = (0, u32_MAX)" "io_cell f (mem w1) = (0, u32_MAX)"
    by (simp_all add: f m io_cell_def w1)
  have w1': "mem w1 = mem w" "WAKE_QUEUE w1 = Some wq" by (simp_all add: w1 w)
  have h: "IoWorker_handle S C K (Async_Read ?op) w1 = (Val (),
      w1\<lparr>mem := (store_slice ptr data (mem w))
          \<lparr>at_i32 := (at_i32 (mem w))(sa := st), at_u32 := (at_u32 (mem w))(ba := n)\<rparr>,
        WAKE_QUEUE := Some (push_back t wq), kern := release_one K (semaphore_handle wq) k\<rparr>)"
    using handle_read_run [of S C ?op w1 res data k st n wq K] call c(1) w1'
    by (auto simp: operation_of_def f m)
  define w2 where "w2 = w1\<lparr>mem := (store_slice ptr data (mem w))
          \<lparr>at_i32 := (at_i32 (mem w))(sa := st), at_u32 := (at_u32 (mem w))(ba := n)\<rparr>,
        WAKE_QUEUE := Some (push_back t wq), kern := release_one K (semaphore_handle wq) k\<rparr>"
  have "io_cell f (mem w2) = (st, n)" "WAKE_QUEUE w2 = Some (push_back t wq)" "slice_at (mem w2) ptr len = data"
    using slice_of_stored [OF res(2)] by (simp_all add: w2_def io_cell_def f)
  moreover have "Read_poll C K (make_waker t) f w = (Val (Pending, ?f1), w1)"
    using read_fut.submits [OF fresh(1,2) w(1)] by (simp add: w1)
  moreover have "Read_poll C K cx ?f1 w1 = (Val (Pending, ?f1), w1)" by (rule read_fut.waits [OF fresh(3)])
  moreover have "Read_poll C K cx ?f1 w3 = (Val (Ready res, ?f1), w3)" if "io_cell f (mem w3) = (st, n)"
    for w3 :: "('f, 'k) fs_world"
    by (rule read_fut.finishes [OF that c(2)])
  ultimately show ?thesis
    using h by (intro exI [of _ ?f1] exI [of _ w2]) (simp add: w2_def [symmetric])
qed

theorem async_read_round_trip_witness:
  "\<exists>f1 w1 w2. Read_poll (sim_ctru :: unit ctru) sim_kernel (make_waker 3) (fst (Read_new 5 16 64 2 8 12 blank_mem))
      (idle_fs (snd (Read_new 5 16 64 2 8 12 blank_mem))) = (Val (Pending, f1), w1) \<and>
    IoWorker_handle demo_file sim_ctru sim_kernel
      (Async_Read (operation_of (fst (Read_new 5 16 64 2 8 12 blank_mem)) (make_waker 3))) w1 = (Val (), w2) \<and>
    WAKE_QUEUE w2 = Some (push_back 3 \<lparr>semaphore_handle = 1, vals = []\<rparr>) \<and>
    Read_poll (sim_ctru :: unit ctru) sim_kernel (make_waker 3) f1 w2 = (Val (Ready (Inr 0), f1), w2)"
proof -
  define n where "n = Read_new 5 16 64 2 8 12 blank_mem"
  define q :: "async_fs_msg sync_queue" where "q = \<lparr>semaphore_handle = 2, vals = []\<rparr>"
  define w1 where "w1 = (idle_fs (snd n))\<lparr>kern := release_one sim_kernel (semaphore_handle q) (kern (idle_fs (snd n))),
      ASYNC_FS_POOL := Some (push_back (Async_Read (operation_of (fst n) (make_waker 3))) q)\<rparr>"
  have new: "Read_new 5 16 64 2 8 12 blank_mem = (fst n, mem (idle_fs (snd n)))" by (simp add: n_def idle_fs_def)
  have w: "ASYNC_FS_POOL (idle_fs (snd n)) = Some q" "WAKE_QUEUE (idle_fs (snd n)) = Some \<lparr>semaphore_handle = 1, vals = []\<rparr>"
    by (simp_all add: idle_fs_def q_def)
  have call: "FileHandle_read demo_file sim_ctru 5 (ucast (16 :: u32)) (slice_at blank_mem 64 2) (kern w1) =
      (Val (Inr 0, slice_at blank_mem 64 2), kern w1)"
    by (simp add: FileHandle_read_def io_bind_def ipc_call_def demo_file_def sim_ctru_def)
  have res: "settled sim_ctru (\<lambda>n. n \<noteq> u32_MAX) (Inr 0 :: (unit, usize) bunny_result)" by (simp add: settled_def)
  have len: "length (slice_at blank_mem 64 2) = unat (2 :: u32)" by (simp add: slice_at_def)
  show ?thesis
    using async_read_round_trip [OF sim_ctru_laws(2) new w w1_def call res len, of "make_waker 3"] unfolding n_def by blast
qed

text \<open>A write through the pool, in the same way: one operation, which sends the bytes the buffer
  holds when the worker takes it, and the result of that call in every later poll.\<close>

lemma async_write_round_trip:
  fixes w :: "('f, 'k) fs_world"
  assumes C: "result_code_law C"
    and new: "Write_new file off ptr len sa ba m = (f, mem w)"
    and w: "ASYNC_FS_POOL w = Some pq" "WAKE_QUEUE w = Some wq"
    and w1: "w1 = w\<lparr>kern := release_one K (semaphore_handle pq) (kern w),
        ASYNC_FS_POOL := Some (push_back (Async_Write (operation_of f (make_waker t))) pq)\<rparr>"
    and call: "FileHandle_write S C file (ucast off) (slice_at m ptr len) 0 (kern w1) = (Val res, k)"
    and res: "settled C (\<lambda>n. n \<noteq> u32_MAX) res"
  shows "\<exists>f1 w2. Write_poll C K (make_waker t) f w = (Val (Pending, f1), w1) \<and>
    Write_poll C K cx f1 w1 = (Val (Pending, f1), w1) \<and>
    IoWorker_handle S C K (Async_Write (operation_of f (make_waker t))) w1 = (Val (), w2) \<and>
    WAKE_QUEUE w2 = Some (push_back t wq) \<and>
    (\<forall>w3 :: ('f, 'k) fs_world. io_cell f (mem w3) = io_cell f (mem w2) \<longrightarrow>
       Write_poll C K cx f1 w3 = (Val (Ready res, f1), w3))"
proof -
  let ?f1 = "f\<lparr>f_registered := True\<rparr>" and ?op = "operation_of f (make_waker t)"
  obtain st n where c: "resolve_io res = Val (st, n)" "observe_io C (st, n) = Ready res"
    using resolve_io_settled [OF C res] by (metis surj_pair)
  have f: "f = \<lparr> f_file = file, f_offset = off, f_data_ptr = ptr, f_len = len, f_state = sa, f_bytes = ba, f_registered = False \<rparr>"
    and m: "mem w = m\<lparr>at_i32 := (at_i32 m)(sa := 0), at_u32 := (at_u32 m)(ba := u32_MAX)\<rparr>"
    using new by (simp_all add: Write_new_def)
  have fresh: "\<not> f_registered f" "io_cell f (mem w) = (0, u32_MAX)" "io_cell f (mem w1) = (0, u32_MAX)"
    by (simp_all add: f m io_cell_def w1)
  define w2 where "w2 = w1\<lparr>mem := (mem w)\<lparr>at_i32 := (at_i32 (mem w))(sa := st), at_u32 := (at_u32 (mem w))(ba := n)\<rparr>,
        WAKE_QUEUE := Some (push_back t wq), kern := release_one K (semaphore_handle wq) k\<rparr>"
  have w1': "mem w1 = mem w" "WAKE_QUEUE w1 = Some wq" by (simp_all add: w1 w)
  have "IoWorker_handle S C K (Async_Write ?op) w1 = (Val (), w2)"
    using handle_write_run [of S C ?op w1 res k st n wq K] call c(1) w1' by (simp add: operation_of_def f m w2_def)
  moreover have "io_cell f (mem w2) = (st, n)" "WAKE_QUEUE w2 = Some (push_back t wq)"
    by (simp_all add: w2_def io_cell_def f)
  moreover have "Write_poll C K (make_waker t) f w = (Val (Pending, ?f1), w1)"
    using write_fut.submits [OF fresh(1,2) w(1)] by (simp add: w1)
  moreover have "Write_poll C K cx ?f1 w1 = (Val (Pending, ?f1), w1)" by (rule write_fut.waits [OF fresh(3)])
  moreover have "Write_poll C K cx ?f1 w3 = (Val (Ready res, ?f1), w3)" if "io_cell f (mem w3) = (st, n)"
    for w3 :: "('f, 'k) fs_world"
    by (rule write_fut.finishes [OF that c(2)])
  ultimately show ?thesis by (intro exI [of _ ?f1] exI [of _ w2]) simp
qed

text \<open>A flush through the pool: one operation, and the result of the worker's call in every later poll.\<close>

lemma async_flush_round_trip:
  fixes w :: "('f, 'k) fs_world"
  assumes C: "result_code_law C"
    and new: "Flush_new file ra da m = (f, mem w)"
    and w: "ASYNC_FS_POOL w = Some pq" "WAKE_QUEUE w = Some wq"
    and w1: "w1 = w\<lparr>kern := release_one K (semaphore_handle pq) (kern w),
        ASYNC_FS_POOL := Some (push_back (Async_Flush (control_of f (make_waker t))) pq)\<rparr>"
    and call: "FileHandle_flush S C file (kern w1) = (Val res, k)" and res: "settled C (\<lambda>_. True) res"
  shows "\<exists>f1 w2. Flush_poll C K (make_waker t) f w = (Val (Pending, f1), w1) \<and>
    Flush_poll C K cx f1 w1 = (Val (Pending, f1), w1) \<and>
    IoWorker_handle S C K (Async_Flush (control_of f (make_waker t))) w1 = (Val (), w2) \<and>
    WAKE_QUEUE w2 = Some (push_back t wq) \<and>
    (\<forall>w3 :: ('f, 'k) fs_world. ctl_cell f (mem w3) = ctl_cell f (mem w2) \<longrightarrow>
       Flush_poll C K cx f1 w3 = (Val (Ready res, f1), w3))"
proof -
  let ?f1 = "f\<lparr>c_registered := True\<rparr>" and ?op = "control_of f (make_waker t)"
  obtain st d where c: "resolve_ctl res = Val (st, d)" "observe_ctl C (st, d) = Ready res"
    using resolve_ctl_settled [OF C res] by (metis surj_pair)
  have f: "f = \<lparr> c_file = file, c_registered = False, c_res = ra, c_done = da \<rparr>"
    and m: "mem w = m\<lparr>at_i32 := (at_i32 m)(ra := 0), at_bool := (at_bool m)(da := False)\<rparr>"
    using new by (simp_all add: Flush_new_def)
  have fresh: "\<not> c_registered f" "ctl_cell f (mem w) = (0, False)" "ctl_cell f (mem w1) = (0, False)"
    by (simp_all add: f m ctl_cell_def w1)
  define w2 where "w2 = w1\<lparr>mem := (mem w)\<lparr>at_i32 := (at_i32 (mem w))(ra := st), at_bool := (at_bool (mem w))(da := d)\<rparr>,
        WAKE_QUEUE := Some (push_back t wq), kern := release_one K (semaphore_handle wq) k\<rparr>"
  have w1': "mem w1 = mem w" "WAKE_QUEUE w1 = Some wq" by (simp_all add: w1 w)
  have "IoWorker_handle S C K (Async_Flush ?op) w1 = (Val (), w2)"
    using handle_flush_run [of S C ?op w1 res k st d wq K] call c(1) w1' by (simp add: control_of_def f m w2_def)
  moreover have "ctl_cell f (mem w2) = (st, d)" "WAKE_QUEUE w2 = Some (push_back t wq)"
    by (simp_all add: w2_def ctl_cell_def f)
  moreover have "Flush_poll C K (make_waker t) f w = (Val (Pending, ?f1), w1)"
    using flush_fut.submits [OF fresh(1,2) w(1)] by (simp add: w1)
  moreover have "Flush_poll C K cx ?f1 w1 = (Val (Pending, ?f1), w1)" by (rule flush_fut.waits [OF fresh(3)])
  moreover have "Flush_poll C K cx ?f1 w3 = (Val (Ready res, ?f1), w3)" if "ctl_cell f (mem w3) = (st, d)"
    for w3 :: "('f, 'k) fs_world"
    by (rule flush_fut.finishes [OF that c(2)])
  ultimately show ?thesis by (intro exI [of _ ?f1] exI [of _ w2]) simp
qed

text \<open>A worker dies on any other error. When the call of a queued write fails with an error that is not
  an OS error, the worker panics at its \<^verbatim>\<open>todo!()\<close>: the cell of the future stays as it was, so
  that the future stays pending, and the task is not woken.\<close>

lemma worker_dies_on_other_error:
  assumes "\<And>c. e \<noteq> Ctru (Os c)" "f_registered f" "io_cell f (mem w) = (0, u32_MAX)"
    and "FileHandle_write S C (f_file f) (ucast (f_offset f)) (slice_at (mem w) (f_data_ptr f) (f_len f)) 0 (kern w) = (Val (Inl e), k)"
  shows "IoWorker_handle S C K (Async_Write (operation_of f cx)) w = (Panic Todo, w\<lparr>kern := k\<rparr>) \<and>
    Write_poll C K cx f (w\<lparr>kern := k\<rparr>) = (Val (Pending, f), w\<lparr>kern := k\<rparr>)"
proof -
  have "resolve_io (Inl e :: ('a, usize) bunny_result) = Panic Todo"
    using assms(1) by (cases "Inl e :: ('a, usize) bunny_result" rule: resolve_io.cases) auto
  then have "IoWorker_handle S C K (Async_Write (operation_of f cx)) w = (Panic Todo, w\<lparr>kern := k\<rparr>)"
    using assms(4)
    by (simp add: IoWorker_handle.simps operation_of_def io_bind_def on_kern_def on_mem_def io_views)
  moreover have "Write_poll C K cx f (w\<lparr>kern := k\<rparr>) = (Val (Pending, f), w\<lparr>kern := k\<rparr>)"
    using write_fut.later_poll [OF assms(2), of C K cx "w\<lparr>kern := k\<rparr>"] assms(3) by (simp add: observe_io_def)
  ultimately show ?thesis ..
qed

text \<open>The cursor over a sequence of reads and writes, given by their results.\<close>

fun advance_all :: "('x, usize) bunny_result list \<Rightarrow> async_file \<Rightarrow> async_file outcome" where
  "advance_all [] self = Val self"
| "advance_all (r # rs) self =
     (case AsyncFile_advance r self of Val (_, self') \<Rightarrow> advance_all rs self' | Panic p \<Rightarrow> Panic p)"

definition bytes_moved :: "('x, usize) bunny_result list \<Rightarrow> nat" where
  "bytes_moved rs = sum_list (map (\<lambda>r. case r of Inr v \<Rightarrow> unat v | Inl _ \<Rightarrow> 0) rs)"

lemma advance_all_run:
  "advance_all rs self =
     (if unat (cursor self) + bytes_moved rs < 2 ^ 32
      then Val (self\<lparr>cursor := cursor self + word_of_nat (bytes_moved rs)\<rparr>) else Panic Overflow)"
proof (induction rs arbitrary: self)
  case Nil
  have "unat (cursor self) < 2 ^ 32" using unsigned_less [of "cursor self", where ?'a = nat] by simp
  then show ?case by (simp add: bytes_moved_def)
next
  case (Cons r rs)
  show ?case
  proof (cases r)
    case (Inl e)
    then show ?thesis by (simp add: Cons.IH AsyncFile_advance_def bytes_moved_def)
  next
    case (Inr v)
    have "unat (cursor self + v) = unat (cursor self) + unat v" if "unat (cursor self) + unat v < 2 ^ 32"
      using that by (simp add: unat_word_ariths)
    then show ?thesis
      by (auto simp: Inr Cons.IH AsyncFile_advance_def add_u32_def bytes_moved_def ac_simps)
  qed
qed

text \<open>C34: The cursor of a file. After any sequence of reads and writes the cursor is the number of bytes they
  moved, so that the next one starts where they ended; failed ones do not move it, and moving it
  past 4 GiB is an overflow panic.\<close>

theorem cursor_counts_bytes:
  "advance_all rs (AsyncFile_wrap h) =
     (if bytes_moved rs < 2 ^ 32 then Val \<lparr> af_handle = h, cursor = word_of_nat (bytes_moved rs) \<rparr>
      else Panic Overflow)"
  by (simp add: advance_all_run AsyncFile_wrap_def)

end
