(* ===== verification/Pool_Workers.thy ===== *)
theory Pool_Workers
  imports Fs_Pool
begin

text \<open>
  The workers of \<^verbatim>\<open>src/fs/async_pool.rs\<close> against the futures that queue operations. Unlike the
  executor, a worker takes one operation for each permit of the queue's semaphore, which
  holds at most 255 permits, so the count matters. The code of futures and workers is shown to
  be a run of this system.
\<close>

section \<open>The system\<close>

text \<open>
  The kernel and the queue, the number of calls of \<^verbatim>\<open>add\<close> between their push and their
  release, and the number of workers between \<^verbatim>\<open>wait\<close> and \<^verbatim>\<open>remove\<close>.
\<close>

record 'k pool_sys =
  pk :: 'k
  pq :: "async_fs_msg sync_queue"
  adding :: nat
  taking :: nat

definition pool_start :: "'k kernel \<Rightarrow> 'k pool_sys \<Rightarrow> bool" where
  "pool_start K s \<longleftrightarrow> vals (pq s) = [] \<and> adding s = 0 \<and> taking s = 0 \<and>
     sem_count K (pk s) (semaphore_handle (pq s)) = 0 \<and> sem_max K (pk s) (semaphore_handle (pq s)) = 255"

text \<open>
  At most \<open>cap\<close> operations are queued at a time, and there are \<open>n\<close> workers. Everything else may change
  the kernel, but takes no permit of the queue's semaphore.
\<close>

inductive pool_step :: "'k kernel \<Rightarrow> nat \<Rightarrow> nat \<Rightarrow> 'k pool_sys \<Rightarrow> 'k pool_sys \<Rightarrow> bool" for K n cap where
  push: "length (vals (pq s)) < cap \<Longrightarrow>
    pool_step K n cap s (s\<lparr>pq := push_back op (pq s), adding := Suc (adding s)\<rparr>)"
| release: "adding s = Suc a \<Longrightarrow>
    pool_step K n cap s (s\<lparr>pk := release_one K (semaphore_handle (pq s)) (pk s), adding := a\<rparr>)"
| wait: "taking s < n \<Longrightarrow> svcWaitSynchronization K (semaphore_handle (pq s)) i64_MAX (pk s) = Some (r, k) \<Longrightarrow>
    pool_step K n cap s (s\<lparr>pk := k, taking := Suc (taking s)\<rparr>)"
| take: "taking s = Suc t \<Longrightarrow> pool_step K n cap s (s\<lparr>pq := snd (SyncQueue_remove (pq s)), taking := t\<rparr>)"
| other: "keeps_permits K (pk s) k {semaphore_handle (pq s)} \<Longrightarrow> pool_step K n cap s (s\<lparr>pk := k\<rparr>)"

definition pool_permits :: "'k kernel \<Rightarrow> 'k pool_sys \<Rightarrow> nat" where
  "pool_permits K s = sem_count K (pk s) (semaphore_handle (pq s))"

text \<open>Every queued operation is covered by a permit, one to come, or a worker on its way.\<close>

definition pool_inv :: "'k kernel \<Rightarrow> nat \<Rightarrow> 'k pool_sys \<Rightarrow> bool" where
  "pool_inv K cap s \<longleftrightarrow> length (vals (pq s)) \<le> cap \<and>
     sem_max K (pk s) (semaphore_handle (pq s)) = 255 \<and>
     length (vals (pq s)) \<le> pool_permits K s + adding s + taking s"

lemma pool_inv_start: "pool_start K s \<Longrightarrow> pool_inv K cap s"
  by (simp add: pool_start_def pool_inv_def)

lemma length_remove: "length (vals (snd (SyncQueue_remove q))) = length (vals q) - 1"
  by (auto simp: SyncQueue_remove_def split: list.split)

lemma pool_inv_step:
  assumes "pool_step K n cap s s'" "release_law K" "wait_law K" "cap \<le> 255" "pool_inv K cap s"
  shows "pool_inv K cap s'"
  using assms(1)
proof (cases rule: pool_step.cases)
  case (push op)
  then show ?thesis using assms(5) by (simp add: pool_inv_def pool_permits_def)
next
  case (release a)
  then show ?thesis
    using assms(4,5) release_lawD [OF assms(2), of "semaphore_handle (pq s)" "pk s"]
    by (auto simp: pool_inv_def pool_permits_def release_one_def)
next
  case (wait r k)
  then show ?thesis
    using assms(5) wait_law_Some [OF assms(3) wait(3)] by (auto simp: pool_inv_def pool_permits_def)
next
  case (take t)
  then show ?thesis using assms(5) by (auto simp: pool_inv_def pool_permits_def length_remove)
next
  case (other k)
  then show ?thesis using assms(5) keeps_permitsD [OF other(2)] by (auto simp: pool_inv_def pool_permits_def)
qed

definition pool_laws :: "'k kernel \<Rightarrow> bool" where
  "pool_laws K \<longleftrightarrow> release_law K \<and> wait_law K"

interpretation pool: inductive_invariant "pool_start K" "pool_step K n cap"
  "\<lambda>s. pool_laws K \<and> cap \<le> 255 \<longrightarrow> pool_inv K cap s" for K n cap
  by unfold_locales (auto simp: pool_laws_def intro: pool_inv_start pool_inv_step)

section \<open>The code of the pool is a run of the system\<close>

text \<open>Code that leaves the queue alone and takes no permit.\<close>

definition off_pool :: "'k kernel \<Rightarrow> ('f, 'k, 'a) fsio \<Rightarrow> bool" where
  "off_pool K m \<longleftrightarrow> permits_kept K m \<and> (\<forall>w. ASYNC_FS_POOL (snd (m w)) = ASYNC_FS_POOL w)"

lemma off_pool_bind:
  assumes "off_pool K m" "\<And>x. off_pool K (f x)"
  shows "off_pool K (io_bind m f)"
proof -
  have "ASYNC_FS_POOL (snd (io_bind m f w)) = ASYNC_FS_POOL w" for w
  proof (cases "m w")
    case (Pair r w1)
    then have "ASYNC_FS_POOL w1 = ASYNC_FS_POOL w" using assms(1) unfolding off_pool_def by (metis snd_conv)
    then show ?thesis using assms(2) by (simp add: io_bind_run off_pool_def Pair split: outcome.split)
  qed
  with assms show ?thesis by (simp add: off_pool_def permits_kept_bind)
qed

lemma off_pool_basic:
  "off_pool K (ret x)" "off_pool K (lift_outcome y)" "off_pool K (on_mem g)"
  "quiet K f \<Longrightarrow> off_pool K (on_kern f)" "release_law K \<Longrightarrow> off_pool K (wake_queue_add K t)"
  by (auto simp: off_pool_def permits_kept_basic)
    (auto simp: permits_kept_def on_mem_def on_kern_def wake_queue_add_def SyncQueue_add_def keeps_permits_refl
      split: prod.split option.split)

lemma off_pool_wake: "release_law K \<Longrightarrow> off_pool K (worker_wake K t)"
  unfolding worker_wake_def ExecutorSession_wake_def by (intro off_pool_bind off_pool_basic)

lemma off_pool_served:
  "release_law K \<Longrightarrow> quiet K f \<Longrightarrow> off_pool K (io_bind (on_kern f) (\<lambda>res. io_bind (on_mem (g res)) (\<lambda>_. worker_wake K t)))"
  by (intro off_pool_bind off_pool_basic off_pool_wake)

lemma off_pool_read_served:
  "release_law K \<Longrightarrow> quiet K f \<Longrightarrow> off_pool K (io_bind (on_kern f) (\<lambda>(res, d). io_bind (on_mem (g' d)) (\<lambda>_.
     io_bind (on_mem (g res)) (\<lambda>_. worker_wake K t))))"
  unfolding case_prod_beta by (intro off_pool_bind off_pool_basic off_pool_wake)

text \<open>What a worker does with an operation is off the pool.\<close>

lemma off_pool_handle:
  assumes "release_law K" "quiet_session K S"
  shows "ASYNC_FS_POOL (snd (IoWorker_handle S C K op w)) = ASYNC_FS_POOL w \<and>
    keeps_permits K (kern w) (kern (snd (IoWorker_handle S C K op w))) H"
proof -
  have q: "quiet K (FileHandle_write S C h off d opts)" "quiet K (FileHandle_read S C h off d)" "quiet K (FileHandle_flush S C h)"
    "quiet K (FileHandle_close S C h)" for h off d opts
    using assms(2)
    by (simp_all add: quiet_def FileHandle_write_def FileHandle_flush_def FileHandle_close_def coded_call_state read_state quiet_request)
  note D = off_pool_served [unfolded off_pool_def permits_kept_def, rule_format, OF assms(1)]
    off_pool_read_served [unfolded off_pool_def permits_kept_def, rule_format, OF assms(1)]
  show ?thesis by (cases op) (simp_all add: IoWorker_handle.simps Let_def D q)
qed

text \<open>The pool with all its futures and workers, at the level of the code.\<close>

inductive pool_life :: "('k, 'x) file_session \<Rightarrow> 'x ctru \<Rightarrow> 'k kernel \<Rightarrow> nat \<Rightarrow> ('f, 'k) fs_world \<Rightarrow> ('f, 'k) fs_world \<Rightarrow> bool"
  for S C K cap where
  submit: "pool_add K msg w = (Val (), w') \<Longrightarrow> ASYNC_FS_POOL w = Some q \<Longrightarrow> length (vals q) < cap \<Longrightarrow> pool_life S C K cap w w'"
| round: "IoWorker_round S C K w = Returns (r, w') \<Longrightarrow> pool_life S C K cap w w'"
| elsewhere: "ASYNC_FS_POOL w' = ASYNC_FS_POOL w \<Longrightarrow> (\<And>H. keeps_permits K (kern w) (kern w') H) \<Longrightarrow> pool_life S C K cap w w'"

definition pool_displays :: "('f, 'k) fs_world \<Rightarrow> 'k pool_sys \<Rightarrow> bool" where
  "pool_displays w s \<longleftrightarrow> ASYNC_FS_POOL w = Some (pq s) \<and> kern w = pk s \<and> adding s = 0 \<and> taking s = 0"

definition pool_life_start :: "'k kernel \<Rightarrow> ('f, 'k) fs_world \<Rightarrow> bool" where
  "pool_life_start K w \<longleftrightarrow> (\<exists>s. pool_start K s \<and> pool_displays w s)"

lemma pool_other_run:
  assumes "pool_displays w s" "ASYNC_FS_POOL w' = ASYNC_FS_POOL w" "\<And>H. keeps_permits K (kern w) (kern w') H"
  shows "\<exists>s'. (pool_step K n cap)\<^sup>*\<^sup>* s s' \<and> pool_displays w' s'"
proof (intro exI conjI)
  show "(pool_step K n cap)\<^sup>*\<^sup>* s (s\<lparr>pk := kern w'\<rparr>)"
    using pool_step.other [of K s "kern w'" n cap] assms(1,3) by (auto simp: pool_displays_def)
qed (use assms(1,2) in \<open>simp add: pool_displays_def\<close>)

lemma pool_submit_run:
  assumes "pool_displays w s" "pool_add K msg w = (Val (), w')" "ASYNC_FS_POOL w = Some q" "length (vals q) < cap"
  shows "\<exists>s'. (pool_step K n cap)\<^sup>*\<^sup>* s s' \<and> pool_displays w' s'"
proof -
  let ?s1 = "s\<lparr>pq := push_back msg q, adding := Suc 0\<rparr>"
  let ?s2 = "s\<lparr>pk := release_one K (semaphore_handle q) (pk s), pq := push_back msg q\<rparr>"
  have q: "pq s = q" "adding s = 0" using assms(1,3) by (simp_all add: pool_displays_def)
  have "pool_step K n cap s ?s1" using pool_step.push [of s cap K n msg] q assms(4) by simp
  moreover have "pool_step K n cap ?s1 ?s2" using pool_step.release [of ?s1 0 K n cap] q by (cases s) simp
  ultimately have "(pool_step K n cap)\<^sup>*\<^sup>* s ?s2" by (meson r_into_rtranclp rtranclp_trans)
  moreover have "pool_displays w' ?s2" using assms(1-3) by (auto simp: pool_displays_def pool_add_def SyncQueue_add_def)
  ultimately show ?thesis by blast
qed

lemma pool_round_run:
  assumes laws: "release_law K" "wait_law K" "ds_try_law C" "quiet_session K S"
    and d: "pool_displays w s" and r: "IoWorker_round S C K w = Returns (r, w')" and n: "0 < n"
  shows "\<exists>s'. (pool_step K n cap)\<^sup>*\<^sup>* s s' \<and> pool_displays w' s'"
proof -
  have q: "ASYNC_FS_POOL w = Some (pq s)" "kern w = pk s" "adding s = 0" "taking s = 0" using d by (simp_all add: pool_displays_def)
  obtain c k where k: "svcWaitSynchronization K (semaphore_handle (pq s)) i64_MAX (pk s) = Some (c, k)"
    using r q by (auto simp: IoWorker_round_def SyncQueue_wait_def split: option.splits)
  have wait: "SyncQueue_wait K C i64_MAX (pq s) (kern w) = Some (Inr (), k)"
    using k q wait_law_Some(1) [OF laws(2) k] laws(3) by (simp add: SyncQueue_wait_def ds_try_law_def)
  obtain x q' where rm: "SyncQueue_remove (pq s) = (x, q')" by force
  let ?s2 = "s\<lparr>pk := k, pq := q'\<rparr>" and ?w2 = "w\<lparr>kern := k, ASYNC_FS_POOL := Some q'\<rparr>"
  have "pool_step K n cap s (s\<lparr>pk := k, taking := Suc 0\<rparr>)" using pool_step.wait [of s n K c k cap] k q n by simp
  moreover have "pool_step K n cap (s\<lparr>pk := k, taking := Suc 0\<rparr>) ?s2"
    using pool_step.take [of "s\<lparr>pk := k, taking := Suc 0\<rparr>" 0 K n cap] q rm by (cases s) simp
  ultimately have run: "(pool_step K n cap)\<^sup>*\<^sup>* s ?s2" by (meson r_into_rtranclp rtranclp_trans)
  have d2: "pool_displays ?w2 ?s2" using q by (simp add: pool_displays_def)
  have "(r, w') = (Val (), ?w2) \<or> (\<exists>op. IoWorker_handle S C K op ?w2 = (r, w'))"
    using r q wait rm by (cases x) (auto simp: IoWorker_round_def)
  then have "w' = ?w2 \<or> (\<exists>op. w' = snd (IoWorker_handle S C K op ?w2))" by (metis snd_conv)
  then have "ASYNC_FS_POOL w' = ASYNC_FS_POOL ?w2 \<and> (\<forall>H. keeps_permits K (kern ?w2) (kern w') H)"
    using off_pool_handle [OF laws(1,4), of C _ ?w2] by (auto simp: keeps_permits_refl)
  then show ?thesis using pool_other_run [OF d2, of w' K n cap] run by (meson rtranclp_trans)
qed

definition pool_code_laws :: "'k kernel \<Rightarrow> 'x ctru \<Rightarrow> ('k, 'x) file_session \<Rightarrow> bool" where
  "pool_code_laws K C S \<longleftrightarrow> pool_laws K \<and> ds_try_law C \<and> quiet_session K S"

lemma pool_life_sim:
  assumes "pool_code_laws K C S" "pool_displays w s" "pool_life S C K cap w w'"
  shows "\<exists>s'. (pool_step K 1 cap)\<^sup>*\<^sup>* s s' \<and> pool_displays w' s'"
  using assms(3)
proof cases
  case (submit msg q)
  then show ?thesis using pool_submit_run [OF assms(2)] by blast
next
  case (round r)
  then show ?thesis using pool_round_run [OF _ _ _ _ assms(2) round] assms(1) by (auto simp: pool_code_laws_def pool_laws_def)
next
  case elsewhere
  then show ?thesis using pool_other_run [OF assms(2)] by blast
qed

interpretation pool_code: step_refinement "pool_life_start K" "pool_life S C K cap" "pool_start K" "pool_step K 1 cap"
  "\<lambda>w s. pool_code_laws K C S \<longrightarrow> pool_displays w s" for S C K cap
proof unfold_locales
  show "pool_life_start K c \<Longrightarrow> \<exists>s. pool_start K s \<and> (pool_code_laws K C S \<longrightarrow> pool_displays c s)" for c
    by (auto simp: pool_life_start_def)
  show "\<exists>s'. (pool_step K 1 cap)\<^sup>*\<^sup>* s s' \<and> (pool_code_laws K C S \<longrightarrow> pool_displays c' s')"
    if "pool_code_laws K C S \<longrightarrow> pool_displays c s" "pool_life S C K cap c c'" for c s c'
    using that pool_life_sim by (metis rtranclp.rtrancl_refl)
qed

section \<open>More operations than permits\<close>

lemma wait_blocks: "wait_law K \<Longrightarrow> sem_count K k h = 0 \<Longrightarrow> svcWaitSynchronization K h i64_MAX k = None"
  by (metis less_irrefl not_None_eq surj_pair wait_law_Some(2))

lemma reach_adds:
  assumes "release_law K" "pool_start K s0" "m \<le> cap"
  shows "\<exists>s. reachable (pool_start K) (pool_step K n cap) s \<and> length (vals (pq s)) = m \<and> adding s = 0 \<and>
    taking s = 0 \<and> pool_permits K s = min m 255 \<and> sem_max K (pk s) (semaphore_handle (pq s)) = 255"
  using assms(3)
proof (induction m)
  case 0
  then show ?case using assms(2) by (intro exI [of _ s0]) (auto simp: pool_start_def pool_permits_def intro: reachable.intros)
next
  case (Suc m)
  then obtain s where s: "reachable (pool_start K) (pool_step K n cap) s" "length (vals (pq s)) = m" "adding s = 0"
    "taking s = 0" "pool_permits K s = min m 255" "sem_max K (pk s) (semaphore_handle (pq s)) = 255" by auto
  let ?s1 = "s\<lparr>pq := push_back (Async_Flush \<lparr>ctl_file = 0, ctl_task = 0, ctl_state = 0, ctl_done = 0\<rparr>) (pq s), adding := Suc 0\<rparr>"
  let ?s2 = "?s1\<lparr>pk := release_one K (semaphore_handle (pq ?s1)) (pk ?s1), adding := 0\<rparr>"
  have "pool_step K n cap s ?s1" using pool_step.push [of s cap K n] s(2,3) Suc.prems by simp
  moreover have "pool_step K n cap ?s1 ?s2" using pool_step.release [of ?s1 0 K n cap] by simp
  ultimately have "reachable (pool_start K) (pool_step K n cap) ?s2" using s(1) by (meson reachable.intros)
  then show ?case
    using s release_lawD [OF assms(1), of "semaphore_handle (pq s)" "pk s"]
    by (intro exI [of _ ?s2]) (auto simp: pool_permits_def release_one_def)
qed

lemma reach_takes:
  assumes "wait_law K" "0 < n" "reachable (pool_start K) (pool_step K n cap) s" "adding s = 0" "taking s = 0"
    and "pool_permits K s = c" "length (vals (pq s)) = c + l"
  shows "\<exists>s'. reachable (pool_start K) (pool_step K n cap) s' \<and> length (vals (pq s')) = l \<and> adding s' = 0 \<and>
    taking s' = 0 \<and> pool_permits K s' = 0"
  using assms(3-)
proof (induction c arbitrary: s)
  case 0
  then show ?case by (intro exI [of _ s]) simp
next
  case (Suc c)
  let ?h = "semaphore_handle (pq s)"
  have "0 < sem_count K (pk s) ?h" using Suc.prems(4) by (simp add: pool_permits_def)
  then obtain r k where k: "svcWaitSynchronization K ?h i64_MAX (pk s) = Some (r, k)"
    using wait_law_returns [OF assms(1)] by fastforce
  let ?s1 = "s\<lparr>pk := k, taking := Suc 0\<rparr>"
  let ?s2 = "?s1\<lparr>pq := snd (SyncQueue_remove (pq s)), taking := 0\<rparr>"
  have "pool_step K n cap s ?s1" using pool_step.wait [of s n K r k cap] k assms(2) Suc.prems(3) by simp
  moreover have "pool_step K n cap ?s1 ?s2" using pool_step.take [of ?s1 0 K n cap] by simp
  ultimately have "reachable (pool_start K) (pool_step K n cap) ?s2" using Suc.prems(1) by (meson reachable.intros)
  moreover have "pool_permits K ?s2 = c"
    using Suc.prems(4) wait_law_Some(3) [OF assms(1) k] by (simp add: pool_permits_def)
  ultimately show ?case using Suc.IH [of ?s2] Suc.prems by (simp add: length_remove)
qed

lemma pool_inv_blocked:
  assumes "pool_laws K" "pool_inv K cap s" "adding s = 0" "taking s = 0"
    and "svcWaitSynchronization K (semaphore_handle (pq s)) i64_MAX (pk s) = None"
  shows "vals (pq s) = []"
proof -
  have "pool_permits K s = 0" using assms(1,5) wait_law_None by (auto simp: pool_laws_def pool_permits_def)
  with assms show ?thesis by (simp add: pool_inv_def)
qed

section \<open>Properties\<close>

text \<open>C4: The pool serves every operation. As long as at most 255 operations are queued at a time, in
  every interleaving of futures and workers, when no call of \<^verbatim>\<open>add\<close> and no worker is under way
  and a worker's wait would block, no operation is left in the queue.\<close>

theorem pool_serves_all:
  assumes "pool_laws K" "cap \<le> 255" "reachable (pool_start K) (pool_step K n cap) s"
    and "adding s = 0" "taking s = 0"
    and "svcWaitSynchronization K (semaphore_handle (pq s)) i64_MAX (pk s) = None"
  shows "vals (pq s) = []"
proof -
  have "pool_inv K cap s" using pool.reachable_inv [OF assms(3)] assms(1,2) by simp
  with assms(1) show ?thesis using assms(4-) by (rule pool_inv_blocked)
qed

text \<open>A kernel with the pool's semaphore, and the pool before its first operation.\<close>

definition pool_boot :: "sim_kernel_state pool_sys" where
  "pool_boot = \<lparr> pk = sk_boot\<lparr>sk_max := (\<lambda>_. 255), sk_count := (\<lambda>_. 0)\<rparr>, pq = \<lparr>semaphore_handle = 2, vals = []\<rparr>,
     adding = 0, taking = 0 \<rparr>"

lemma pool_boot_start: "pool_start sim_kernel pool_boot"
  by (simp add: pool_start_def pool_boot_def sim_kernel_def)

lemma sim_pool_laws: "pool_laws sim_kernel"
  by (simp add: pool_laws_def sim_kernel_laws)

theorem pool_serves_all_witness:
  "svcWaitSynchronization sim_kernel (semaphore_handle (pq pool_boot)) i64_MAX (pk pool_boot) = None \<and>
   vals (pq pool_boot) = []"
proof
  show b: "svcWaitSynchronization sim_kernel (semaphore_handle (pq pool_boot)) i64_MAX (pk pool_boot) = None"
    by (simp add: pool_boot_def sim_kernel_def)
  have "reachable (pool_start sim_kernel) (pool_step sim_kernel 2 255) pool_boot"
    using pool_boot_start by (rule reachable.intros)
  then show "vals (pq pool_boot) = []"
    by (rule pool_serves_all [OF sim_pool_laws order.refl]) (use b in \<open>simp_all add: pool_boot_def\<close>)
qed

text \<open>C36: The bound is sharp. With 256 operations queued the semaphore refuses the last release, whose
  failure is ignored; once 255 of them are served, every worker blocks and one operation stays in
  the queue, with nothing under way that would start it.\<close>

theorem pool_forgets_beyond_permits:
  assumes "pool_laws K" "pool_start K s0" "0 < n"
  shows "\<exists>s. reachable (pool_start K) (pool_step K n 256) s \<and> adding s = 0 \<and> taking s = 0 \<and>
    length (vals (pq s)) = 1 \<and> svcWaitSynchronization K (semaphore_handle (pq s)) i64_MAX (pk s) = None"
proof -
  have L: "release_law K" "wait_law K" using assms(1) by (simp_all add: pool_laws_def)
  obtain s where s: "reachable (pool_start K) (pool_step K n 256) s" "length (vals (pq s)) = 256" "adding s = 0"
    "taking s = 0" "pool_permits K s = 255"
    using reach_adds [OF L(1) assms(2), of 256 256 n] by auto
  then obtain s' where s': "reachable (pool_start K) (pool_step K n 256) s'" "length (vals (pq s')) = 1"
    "adding s' = 0" "taking s' = 0" "pool_permits K s' = 0"
    using reach_takes [OF L(2) assms(3) s(1,3,4), of 255 1] by auto
  then have "svcWaitSynchronization K (semaphore_handle (pq s')) i64_MAX (pk s') = None"
    using wait_blocks [OF L(2)] by (simp add: pool_permits_def)
  with s' show ?thesis by blast
qed

theorem pool_forgets_beyond_permits_witness:
  "\<exists>s. reachable (pool_start sim_kernel) (pool_step sim_kernel 2 256) s \<and> adding s = 0 \<and> taking s = 0 \<and>
    length (vals (pq s)) = 1 \<and> svcWaitSynchronization sim_kernel (semaphore_handle (pq s)) i64_MAX (pk s) = None"
  by (rule pool_forgets_beyond_permits [OF sim_pool_laws pool_boot_start]) simp



end
