(* ===== verification/Fs_Cells.thy ===== *)
theory Fs_Cells
  imports Fs_Pool
begin

text \<open>
  \<^verbatim>\<open>src/fs/async_pool.rs\<close>, the two atomics of a pooled future, step by step. A worker resolves an operation with two
  stores and then wakes the task; the future, polled at any time, looks at them with two loads. Between these
  accesses the other side can run. For a read or a write the second atomic is the byte count, for a flush it is the flag \<^verbatim>\<open>done\<close>.
\<close>

section \<open>Worker and future, interleaved\<close>

datatype resolve_pc =
    VState                   \<comment> \<open>in \<^verbatim>\<open>resolve\<close>, about to store the result code\<close>
  | VResult                  \<comment> \<open>about to store the count or the flag\<close>
  | VWake                    \<comment> \<open>about to wake the task\<close>
  | VDone

datatype 'd observe_pc =
    PParked                  \<comment> \<open>the last poll returned \<^verbatim>\<open>Pending\<close>\<close>
  | PLoad                    \<comment> \<open>in \<^verbatim>\<open>poll\<close>, about to load the count or the flag\<close>
  | PState 'd                \<comment> \<open>has found the operation done, about to load the result code\<close>
  | PFinished                \<comment> \<open>the poll returned \<^verbatim>\<open>Ready\<close>\<close>

record ('d, 'r) cell_sys =
  state_cell :: i32
  done_cell :: 'd
  task_wakes :: "task_token sync_queue"
  v_pc :: resolve_pc
  p_pc :: "'d observe_pc"
  p_out :: "'r poll option"

text \<open>The worker resolves with result code \<open>st\<close> and count or flag \<open>d\<close>; the task has token \<open>me\<close>.\<close>

definition resolve_micro :: "task_token \<Rightarrow> i32 \<Rightarrow> 'd \<Rightarrow> ('d, 'r) cell_sys \<Rightarrow> ('d, 'r) cell_sys" where
  "resolve_micro me st d s =
     (case v_pc s of
        VState \<Rightarrow> s\<lparr>state_cell := st, v_pc := VResult\<rparr>
      | VResult \<Rightarrow> s\<lparr>done_cell := d, v_pc := VWake\<rparr>
      | VWake \<Rightarrow> s\<lparr>task_wakes := push_back me (task_wakes s), v_pc := VDone\<rparr>
      | VDone \<Rightarrow> s)"

text \<open>
  A poll of a future that has queued its operation. \<open>pend\<close> says which value of the second atomic means that
  the operation is not done, \<open>resolve\<close> what the two values give when it is.
\<close>

definition observe_micro ::
  "('d \<Rightarrow> bool) \<Rightarrow> (i32 \<Rightarrow> 'd \<Rightarrow> 'r poll) \<Rightarrow> ('d, 'r) cell_sys \<Rightarrow> ('d, 'r) cell_sys" where
  "observe_micro pend resolve s =
     (case p_pc s of
        PLoad \<Rightarrow> if pend (done_cell s) then s\<lparr>p_pc := PParked\<rparr> else s\<lparr>p_pc := PState (done_cell s)\<rparr>
      | PState d \<Rightarrow> s\<lparr>p_out := Some (resolve (state_cell s) d), p_pc := PFinished\<rparr>
      | _ \<Rightarrow> s)"

inductive cell_step ::
  "task_token \<Rightarrow> ('d \<Rightarrow> bool) \<Rightarrow> (i32 \<Rightarrow> 'd \<Rightarrow> 'r poll) \<Rightarrow> i32 \<Rightarrow> 'd \<Rightarrow> ('d, 'r) cell_sys \<Rightarrow> ('d, 'r) cell_sys \<Rightarrow> bool"
  for me pend resolve st d where
  resolver: "v_pc s \<noteq> VDone \<Longrightarrow> cell_step me pend resolve st d s (resolve_micro me st d s)"
| observer: "p_pc s \<notin> {PParked, PFinished} \<Longrightarrow> cell_step me pend resolve st d s (observe_micro pend resolve s)"
| poll_again: "p_pc s \<in> {PParked, PFinished} \<Longrightarrow> SyncQueue_remove (task_wakes s) = (Some t, q) \<Longrightarrow>
    cell_step me pend resolve st d s
      (s\<lparr>task_wakes := q, p_pc := (if t = me \<and> p_pc s = PParked then PLoad else p_pc s)\<rparr>)"

text \<open>
  The first poll has queued the operation and the worker has made its call. The queue of wakes may hold any
  tokens, also the task's own: it can be polled before the operation is done.
\<close>

definition cell_start :: "'d \<Rightarrow> ('d, 'r) cell_sys \<Rightarrow> bool" where
  "cell_start fresh s \<longleftrightarrow> state_cell s = 0 \<and> done_cell s = fresh \<and> v_pc s = VState \<and> p_pc s = PParked \<and> p_out s = None"

section \<open>The invariant\<close>

definition cell_inv ::
  "task_token \<Rightarrow> ('d \<Rightarrow> bool) \<Rightarrow> i32 \<Rightarrow> 'd \<Rightarrow> 'r poll \<Rightarrow> ('d, 'r) cell_sys \<Rightarrow> bool" where
  "cell_inv me pend st d r s \<longleftrightarrow>
     (v_pc s \<in> {VWake, VDone} \<longrightarrow> state_cell s = st \<and> done_cell s = d) \<and>
     (v_pc s = VResult \<longrightarrow> state_cell s = st) \<and> (v_pc s \<in> {VState, VResult} \<longrightarrow> pend (done_cell s)) \<and>
     (\<forall>x. p_pc s = PState x \<longrightarrow> x = d \<and> v_pc s \<in> {VWake, VDone}) \<and>
     (p_pc s = PFinished \<longrightarrow> v_pc s \<in> {VWake, VDone}) \<and>
     (p_pc s = PParked \<and> v_pc s = VDone \<longrightarrow> me \<in> set (vals (task_wakes s))) \<and>
     p_out s = (if p_pc s = PFinished then Some r else None)"

lemma cell_inv_start: "cell_start fresh s \<Longrightarrow> pend fresh \<Longrightarrow> cell_inv me pend st d r s"
  by (simp add: cell_start_def cell_inv_def)

lemma cell_inv_resolve: "cell_inv me pend st d r s \<Longrightarrow> cell_inv me pend st d r (resolve_micro me st d s)"
  by (cases "v_pc s") (auto simp: cell_inv_def resolve_micro_def)

lemma cell_inv_observe:
  "cell_inv me pend st d r s \<Longrightarrow> \<not> pend d \<Longrightarrow> resolve st d = r \<Longrightarrow> cell_inv me pend st d r (observe_micro pend resolve s)"
  by (cases "p_pc s"; cases "v_pc s") (auto simp: cell_inv_def observe_micro_def)

lemma cell_inv_again:
  assumes "cell_inv me pend st d r s" "SyncQueue_remove (task_wakes s) = (Some t, q)"
  shows "cell_inv me pend st d r (s\<lparr>task_wakes := q, p_pc := (if t = me \<and> p_pc s = PParked then PLoad else p_pc s)\<rparr>)"
  using assms(1) SyncQueue_remove_SomeD [OF assms(2)] by (cases "p_pc s") (auto simp: cell_inv_def)

lemma cell_inv_step:
  "cell_step me pend resolve st d s t \<Longrightarrow> \<not> pend d \<Longrightarrow> resolve st d = r \<Longrightarrow> cell_inv me pend st d r s \<Longrightarrow> cell_inv me pend st d r t"
  by (erule cell_step.cases) (blast intro: cell_inv_resolve cell_inv_observe cell_inv_again)+

text \<open>The values a worker stores: they say that the operation is done, and give the result \<open>r\<close>.\<close>

definition stored_right :: "('d \<Rightarrow> bool) \<Rightarrow> (i32 \<Rightarrow> 'd \<Rightarrow> 'r poll) \<Rightarrow> i32 \<Rightarrow> 'd \<Rightarrow> 'd \<Rightarrow> 'r poll \<Rightarrow> bool" where
  "stored_right pend resolve st d fresh r \<longleftrightarrow> pend fresh \<and> \<not> pend d \<and> resolve st d = r"

interpretation cells: inductive_invariant "cell_start fresh" "cell_step me pend resolve st d"
  "\<lambda>s. stored_right pend resolve st d fresh r \<longrightarrow> cell_inv me pend st d r s" for fresh me pend resolve st d r
  by unfold_locales (auto simp: stored_right_def intro: cell_inv_start cell_inv_step)

text \<open>Every step makes progress.\<close>

definition cell_measure :: "('d, 'r) cell_sys \<Rightarrow> nat" where
  "cell_measure s = 4 * (case v_pc s of VState \<Rightarrow> 3 | VResult \<Rightarrow> 2 | VWake \<Rightarrow> 1 | VDone \<Rightarrow> 0) +
     3 * length (vals (task_wakes s)) + (case p_pc s of PLoad \<Rightarrow> 2 | PState _ \<Rightarrow> 1 | _ \<Rightarrow> 0)"

lemma cell_measure_resolve: "v_pc s \<noteq> VDone \<Longrightarrow> cell_measure (resolve_micro me st d s) < cell_measure s"
  by (cases "v_pc s") (simp_all add: cell_measure_def resolve_micro_def)

lemma cell_measure_observe: "p_pc s \<notin> {PParked, PFinished} \<Longrightarrow> cell_measure (observe_micro pend resolve s) < cell_measure s"
  by (cases "p_pc s") (simp_all add: cell_measure_def observe_micro_def)

lemma cell_measure_step: "cell_step me pend resolve st d s t \<Longrightarrow> cell_measure t < cell_measure s"
  by (erule cell_step.cases)
     (simp_all add: cell_measure_resolve cell_measure_observe del: insert_iff,
      auto simp: cell_measure_def dest!: SyncQueue_remove_SomeD split: observe_pc.split)

lemma cell_stuck:
  assumes inv: "cell_inv me pend st d r s" and stuck: "stuck (cell_step me pend resolve st d) s"
  shows "p_out s = Some r"
proof -
  have v: "v_pc s = VDone" using stuck resolver [of s me pend resolve st d] by (auto simp: stuck_def)
  have p: "p_pc s \<in> {PParked, PFinished}" using stuck observer [of s me pend resolve st d] by (auto simp: stuck_def)
  have "fst (SyncQueue_remove (task_wakes s)) = None"
    using stuckD [OF stuck poll_again [OF p]] by (metis not_None_eq prod.collapse)
  then have "vals (task_wakes s) = []" using sq.pop_None_iff [of "task_wakes s"] by simp
  with inv v p show ?thesis by (auto simp: cell_inv_def)
qed

lemma cells_never_torn:
  assumes "stored_right pend resolve st d fresh r" "reachable (cell_start fresh) (cell_step me pend resolve st d) s"
  shows "(\<forall>t. cell_step me pend resolve st d s t \<longrightarrow> cell_measure t < cell_measure s) \<and> p_out s \<in> {None, Some r} \<and>
    (stuck (cell_step me pend resolve st d) s \<longrightarrow> p_out s = Some r)"
proof -
  have inv: "cell_inv me pend st d r s" using cells.reachable_inv [OF assms(2), of r] assms(1) by simp
  then have "p_out s \<in> {None, Some r}" by (auto simp: cell_inv_def)
  then show ?thesis using cell_measure_step [of me pend resolve st d s] cell_stuck [OF inv, of resolve] by blast
qed

section \<open>The steps are the code\<close>

text \<open>
  Uninterrupted, the first two steps of the worker are \<^verbatim>\<open>resolve\<close> on the two atomics, and the steps of the
  future are its \<^verbatim>\<open>poll\<close>, for each kind of future.
\<close>

lemma resolve_steps_are_the_code:
  assumes "v_pc s = VState" "resolve_io res = Val (st, n)" "FileIoOperationView_resolve view res m = (Val (), m')"
  shows "(resolve_micro me st n ^^ 2) s =
    s\<lparr>state_cell := at_i32 m' (v_state view), done_cell := at_u32 m' (v_result view), v_pc := VWake\<rparr>"
  using assms by (cases s) (auto simp: resolve_micro_def eval_nat_numeral FileIoOperationView_resolve_def Let_def)

lemma control_steps_are_the_code:
  assumes "v_pc s = VState" "resolve_ctl res = Val (st, b)" "FileControlOpView_resolve view res m = (Val (), m')"
  shows "(resolve_micro me st b ^^ 2) s =
    s\<lparr>state_cell := at_i32 m' (cv_state view), done_cell := at_bool m' (cv_done view), v_pc := VWake\<rparr>"
  using assms by (cases s) (auto simp: resolve_micro_def eval_nat_numeral FileControlOpView_resolve_def Let_def)

definition after_observing :: "'r poll \<Rightarrow> ('d, 'r) cell_sys \<Rightarrow> ('d, 'r) cell_sys" where
  "after_observing r s = (case r of Pending \<Rightarrow> s\<lparr>p_pc := PParked\<rparr> | Ready _ \<Rightarrow> s\<lparr>p_out := Some r, p_pc := PFinished\<rparr>)"

lemma io_poll_steps_are_the_code:
  assumes "p_pc s = PLoad" "f_registered f" "io_cell f (mem w) = (state_cell s, done_cell s)"
  shows "\<exists>r. Read_poll C K cx f w = (Val (r, f), w) \<and> Write_poll C K cx f w = (Val (r, f), w) \<and>
    (observe_micro (\<lambda>n. n = u32_MAX) (state_resolve C) ^^ 2) s = after_observing r s"
  using assms
  by (cases "done_cell s = u32_MAX"; cases s)
    (simp_all add: Read_poll_def Write_poll_def Let_def io_cell_def observe_micro_def eval_nat_numeral after_observing_def
      state_resolve_def)

lemma ctl_poll_steps_are_the_code:
  assumes "p_pc s = PLoad" "c_registered f" "ctl_cell f (mem w) = (state_cell s, done_cell s)"
  shows "\<exists>r. Flush_poll C K cx f w = (Val (r, f), w) \<and> Close_poll C P client cx f w = (Val (r, f), w) \<and>
    (observe_micro Not (\<lambda>st _. state_resolve C st ()) ^^ 2) s = after_observing r s"
  using assms
  by (cases "done_cell s"; cases s)
    (simp_all add: Flush_poll_def Close_poll_def ctl_cell_def observe_micro_def eval_nat_numeral after_observing_def state_resolve_def)

section \<open>Properties\<close>

lemma control_result_is_never_torn:
  assumes "result_code_law C" "settled C (\<lambda>_. True) res" "resolve_ctl res = Val (st, b)"
    and "reachable (cell_start False) (cell_step me Not (\<lambda>st _. state_resolve C st ()) st b) s"
  shows "p_out s \<in> {None, Some (Ready res)} \<and>
    (stuck (cell_step me Not (\<lambda>st _. state_resolve C st ()) st b) s \<longrightarrow> p_out s = Some (Ready res))"
proof -
  have "stored_right Not (\<lambda>st _. state_resolve C st ()) st b False (Ready res)"
    by (rule resolve_ctl_settled [OF assms(1,2)]) (use assms(3) in \<open>auto simp: stored_right_def observe_ctl_def split: if_splits\<close>)
  from cells_never_torn [OF this assms(4)] show ?thesis by blast
qed

text \<open>C15: A pooled result is never torn. A worker stores the result code of a read or write and then the byte count, and wakes
  the task; the task may be polled at any moment, by this wake or another, and loads the count and then the code. In every
  interleaving a poll is either pending or returns the worker's result, never a count with a code that is not
  its own; each step uses up a finite budget; and when nothing can move any more, the future has returned the result.\<close>

theorem pooled_result_is_never_torn:
  assumes "result_code_law C" "settled C (\<lambda>n. n \<noteq> u32_MAX) res" "resolve_io res = Val (st, n)"
    and "reachable (cell_start u32_MAX) (cell_step me (\<lambda>n. n = u32_MAX) (state_resolve C) st n) s"
  shows "(\<forall>t. cell_step me (\<lambda>n. n = u32_MAX) (state_resolve C) st n s t \<longrightarrow> cell_measure t < cell_measure s) \<and>
    p_out s \<in> {None, Some (Ready res)} \<and>
    (stuck (cell_step me (\<lambda>n. n = u32_MAX) (state_resolve C) st n) s \<longrightarrow> p_out s = Some (Ready res))"
proof -
  have "stored_right (\<lambda>n. n = u32_MAX) (state_resolve C) st n u32_MAX (Ready res)"
    by (rule resolve_io_settled [OF assms(1,2)]) (use assms(3) in \<open>auto simp: stored_right_def observe_io_def split: if_splits\<close>)
  from cells_never_torn [OF this assms(4)] show ?thesis .
qed

text \<open>The worker fails with code -5; the task is polled in between by a wake of its own, in vain, and then by the worker's.\<close>

definition cell_boot :: "(u32, (unit, usize) bunny_result) cell_sys" where
  "cell_boot = \<lparr> state_cell = 0, done_cell = u32_MAX, task_wakes = \<lparr>semaphore_handle = 1, vals = [7]\<rparr>,
     v_pc = VState, p_pc = PParked, p_out = None \<rparr>"

theorem pooled_result_is_never_torn_witness:
  "\<exists>s. reachable (cell_start u32_MAX) (cell_step 7 (\<lambda>n. n = u32_MAX) (state_resolve (sim_ctru :: unit ctru)) (- 5) 0) s \<and>
     stuck (cell_step 7 (\<lambda>n. n = u32_MAX) (state_resolve (sim_ctru :: unit ctru)) (- 5) 0) s \<and>
     p_out s = Some (Ready (Inl (Ctru (Os (- 5)))))"
proof -
  let ?step = "cell_step 7 (\<lambda>n. n = u32_MAX) (state_resolve (sim_ctru :: unit ctru)) (- 5) 0"
  let ?V = "resolve_micro 7 (- 5) 0" and ?P = "observe_micro (\<lambda>n. n = u32_MAX) (state_resolve (sim_ctru :: unit ctru))"
  define s1 where "s1 = ?V cell_boot"
  define s2 where "s2 = s1\<lparr>task_wakes := \<lparr>semaphore_handle = 1, vals = []\<rparr>, p_pc := PLoad\<rparr>"
  define s3 where "s3 = ?P s2"
  define s4 where "s4 = ?V s3"
  define s5 where "s5 = ?V s4"
  define s6 where "s6 = s5\<lparr>task_wakes := \<lparr>semaphore_handle = 1, vals = []\<rparr>, p_pc := PLoad\<rparr>"
  define s7 where "s7 = ?P s6"
  define s8 where "s8 = ?P s7"
  note eval = s1_def s2_def s3_def s4_def s5_def s6_def s7_def s8_def cell_boot_def resolve_micro_def observe_micro_def push_back_def
  have 1: "?step cell_boot s1" unfolding s1_def by (rule resolver) (simp add: eval)
  have 2: "?step s1 s2" using poll_again [where me = 7 and s = s1 and t = 7 and q = "\<lparr>semaphore_handle = 1, vals = []\<rparr>"] by (simp add: eval SyncQueue_remove_def)
  have 3: "?step s2 s3" unfolding s3_def by (rule observer) (simp add: eval)
  have 4: "?step s3 s4" unfolding s4_def by (rule resolver) (simp add: eval)
  have 5: "?step s4 s5" unfolding s5_def by (rule resolver) (simp add: eval)
  have 6: "?step s5 s6" using poll_again [where me = 7 and s = s5 and t = 7 and q = "\<lparr>semaphore_handle = 1, vals = []\<rparr>"] by (simp add: eval SyncQueue_remove_def)
  have 7: "?step s6 s7" unfolding s7_def by (rule observer) (simp add: eval)
  have 8: "?step s7 s8" unfolding s8_def by (rule observer) (simp add: eval)
  have "cell_start u32_MAX cell_boot" by (simp add: cell_start_def cell_boot_def)
  then have r: "reachable (cell_start u32_MAX) ?step s8" using 1 2 3 4 5 6 7 8 by (meson reach_start reach_step)
  have "stuck ?step s8" by (auto simp: stuck_def eval elim!: cell_step.cases)
  moreover have "settled (sim_ctru :: unit ctru) (\<lambda>n. n \<noteq> u32_MAX) (Inl (Ctru (Os (- 5))))" by (simp add: settled_def sim_ctru_def)
  ultimately show ?thesis
    using pooled_result_is_never_torn [OF sim_ctru_laws(2) _ _ r, of "Inl (Ctru (Os (- 5)))"] r by auto
qed

end
