(* ===== verification/Join_Handle.thy ===== *)
theory Join_Handle
  imports Executor
begin

text \<open>
  \<^verbatim>\<open>src/executor.rs\<close>, the user side: \<^verbatim>\<open>JoinHandle\<close>, the wrapper future around every
  spawned future, \<^verbatim>\<open>spawn\<close> and \<^verbatim>\<open>spawn_and_block\<close>. The shared objects (the join state
  behind its mutex, the event of a blocking spawn) live in an explicit store, since the
  handle and the wrapper alias them.
\<close>

section \<open>State\<close>

datatype (plugins del: size) 't join_state = Unawaited | Awaited waker | JoinReady 't | JoinDone

text \<open>\<^verbatim>\<open>Mutex<JoinState<T>>\<close>: a panic while the guard is held poisons the mutex.\<close>

record 't join_cell =
  jstate :: "'t join_state"
  poisoned :: bool

text \<open>
  The boxed future of a task is \<^verbatim>\<open>wrap_with_join_state(future, join_state, signal)\<close>: the
  user's future and the addresses of the cell and, for a blocking spawn, of the event.
\<close>

datatype (plugins del: size) 'g boxed = Wrapped 'g nat "nat option"

record ('g, 'k, 't, 'e) join_world = "('g boxed, 'k) runtime" +
  cells :: "'t join_cell list"
  signals :: "'e wait_signal list"

type_synonym ('g, 'k, 't, 'e, 'a) jio = "(('g, 'k, 't, 'e) join_world, 'a) io"

section \<open>Operations\<close>

text \<open>\<^verbatim>\<open>JoinHandle::poll\<close> on the cell.\<close>

definition JoinHandle_poll_cell :: "waker \<Rightarrow> 't join_cell \<Rightarrow> 't poll outcome \<times> 't join_cell" where
  "JoinHandle_poll_cell cx c =
     (if poisoned c then (Panic UnwrapErr, c)
      else case jstate c of
             JoinReady val \<Rightarrow> (Val (Ready val), c\<lparr>jstate := JoinDone\<rparr>)
           | Unawaited \<Rightarrow> (Val Pending, c\<lparr>jstate := Awaited (clone_waker cx)\<rparr>)
           | Awaited _ \<Rightarrow> (Val Pending, c\<lparr>jstate := Awaited (clone_waker cx)\<rparr>)
           | JoinDone \<Rightarrow> (Panic (Explicit ''polled ready future ):''),
                          c\<lparr>jstate := JoinDone, poisoned := True\<rparr>))"

definition JoinHandle_poll :: "nat \<Rightarrow> waker \<Rightarrow> ('g, 'k, 't, 'e, 't poll) jio" where
  "JoinHandle_poll a cx w =
     (let (r, c) = JoinHandle_poll_cell cx (cells w ! a) in (r, w\<lparr>cells := (cells w)[a := c]\<rparr>))"

text \<open>
  The tail of \<^verbatim>\<open>wrap_with_join_state\<close>, after \<^verbatim>\<open>future.await\<close> returned \<open>value\<close>: the state is
  stored, then the stored state is matched for a waker, then the event is signalled.
\<close>

definition join_complete ::
  "'k kernel \<Rightarrow> ('s, 'e, 'y) light_scheme \<Rightarrow> nat \<Rightarrow> nat option \<Rightarrow> 't \<Rightarrow> ('g, 'k, 't, 'e, unit) jio" where
  "join_complete K Lt a signal value w =
     (let c = cells w ! a in
      if poisoned c then (Panic UnwrapErr, w)
      else
        (let c' = c\<lparr>jstate := JoinReady value\<rparr>; w1 = w\<lparr>cells := (cells w)[a := c']\<rparr> in
         case (case jstate c' of
                 Awaited wk \<Rightarrow> wake_queue_add K (TaskToken_from_waker wk) w1
               | _ \<Rightarrow> (Val (), w1)) of
           (Panic p, w2) \<Rightarrow> (Panic p, w2\<lparr>cells := (cells w2)[a := c'\<lparr>poisoned := True\<rparr>]\<rparr>)
         | (Val _, w2) \<Rightarrow>
             (Val (), case signal of
                        None \<Rightarrow> w2
                      | Some s \<Rightarrow> w2\<lparr>signals := (signals w2)[s := WaitSignal_signal Lt (signals w2 ! s)]\<rparr>)))"

text \<open>Polling the boxed future: the user's future is polled, and completes the join when ready.\<close>

definition wrap_poll ::
  "'k kernel \<Rightarrow> ('s, 'e, 'y) light_scheme \<Rightarrow> ('g \<Rightarrow> waker \<Rightarrow> ('g, 'k, 't, 'e, 't poll \<times> 'g) jio) \<Rightarrow>
   'g boxed \<Rightarrow> waker \<Rightarrow> ('g, 'k, 't, 'e, unit poll \<times> 'g boxed) jio" where
  "wrap_poll K Lt pf fut cx =
     (case fut of Wrapped g a signal \<Rightarrow>
        io_bind (pf g cx) (\<lambda>(r, g').
          case r of
            Pending \<Rightarrow> ret (Pending, Wrapped g' a signal)
          | Ready value \<Rightarrow>
              io_bind (join_complete K Lt a signal value) (\<lambda>_. ret (Ready (), Wrapped g' a signal))))"

definition spawn :: "'k kernel \<Rightarrow> 'g \<Rightarrow> ('g, 'k, 't, 'e, nat) jio" where
  "spawn K future w =
     (let a = length (cells w);
          w1 = w\<lparr>cells := cells w @ [\<lparr>jstate = Unawaited, poisoned = False\<rparr>]\<rparr> in
      io_bind (task_queue_add K (Wrapped future a None)) (\<lambda>_. ret a) w1)"

text \<open>\<^verbatim>\<open>spawn_and_block\<close> up to \<^verbatim>\<open>signal.wait()\<close>, and from there on.\<close>

definition spawn_and_block_start ::
  "'k kernel \<Rightarrow> ('s, 'e, 'y) light_scheme \<Rightarrow> 'g \<Rightarrow> ('g, 'k, 't, 'e, nat \<times> nat) jio" where
  "spawn_and_block_start K Lt future w =
     (let a = length (cells w); s = length (signals w);
          w1 = w\<lparr>cells := cells w @ [\<lparr>jstate = Unawaited, poisoned = False\<rparr>],
                 signals := signals w @ [WaitSignal_new Lt]\<rparr> in
      io_bind (task_queue_add K (Wrapped future a (Some s))) (\<lambda>_. ret (a, s)) w1)"

definition spawn_and_block_finish ::
  "('s, 'e, 'y) light_scheme \<Rightarrow> nat \<times> nat \<Rightarrow> ('g, 'k, 't, 'e) join_world \<Rightarrow>
   ('t outcome \<times> ('g, 'k, 't, 'e) join_world) blocking" where
  "spawn_and_block_finish Lt h w =
     (case h of (a, s) \<Rightarrow>
        (case WaitSignal_wait Lt (signals w ! s) of
           None \<Rightarrow> Blocks
         | Some sg \<Rightarrow>
             (let w1 = w\<lparr>signals := (signals w)[s := sg]\<rparr>; c = cells w1 ! a in
              Returns
                (if poisoned c then (Panic UnwrapErr, w1)
                 else case jstate c of
                        JoinReady val \<Rightarrow> (Val val, w1\<lparr>cells := (cells w1)[a := c\<lparr>jstate := JoinDone\<rparr>]\<rparr>)
                      | _ \<Rightarrow> (Panic (Explicit ''got ready signal, but future wasn't actually ready''),
                              w1\<lparr>cells := (cells w1)[a := c\<lparr>jstate := JoinDone, poisoned := True\<rparr>]\<rparr>)))))"

section \<open>Lemmas\<close>

text \<open>The stored state is \<^const>\<open>JoinReady\<close>, so the branch that wakes the awaiting task is dead.\<close>

lemma join_complete_run [io_simps]:
  "join_complete K Lt a sg v w =
     (if poisoned (cells w ! a) then (Panic UnwrapErr, w)
      else (Val (), (case sg of None \<Rightarrow> (\<lambda>w. w)
              | Some s \<Rightarrow> (\<lambda>w. w\<lparr>signals := (signals w)[s := WaitSignal_signal Lt (signals w ! s)]\<rparr>))
              (w\<lparr>cells := (cells w)[a := (cells w ! a)\<lparr>jstate := JoinReady v\<rparr>]\<rparr>)))"
  by (simp add: join_complete_def Let_def split: option.split)

lemma wrap_poll_ready:
  assumes "pf g cx w = (Val (Ready v, g'), w1)" "\<not> poisoned (cells w1 ! a)"
  shows "wrap_poll K Lt pf (Wrapped g a sg) cx w =
    (Val (Ready (), Wrapped g' a sg), snd (join_complete K Lt a sg v w1))"
  using assms by (simp add: wrap_poll_def io_bind_run join_complete_run)

text \<open>A poll of the handle in each state of the cell.\<close>

lemma JoinHandle_poll_cases [io_simps]:
  "poisoned (cells w ! a) \<Longrightarrow> JoinHandle_poll a cx w = (Panic UnwrapErr, w)"
  "\<not> poisoned (cells w ! a) \<Longrightarrow> jstate (cells w ! a) = JoinReady v \<Longrightarrow> JoinHandle_poll a cx w =
     (Val (Ready v), w\<lparr>cells := (cells w)[a := (cells w ! a)\<lparr>jstate := JoinDone\<rparr>]\<rparr>)"
  "\<not> poisoned (cells w ! a) \<Longrightarrow> jstate (cells w ! a) = JoinDone \<Longrightarrow> JoinHandle_poll a cx w =
     (Panic (Explicit ''polled ready future ):''),
      w\<lparr>cells := (cells w)[a := (cells w ! a)\<lparr>jstate := JoinDone, poisoned := True\<rparr>]\<rparr>)"
  by (simp_all add: JoinHandle_poll_def JoinHandle_poll_cell_def)

lemma join_complete_cell:
  assumes "a < length (cells w)" "\<not> poisoned (cells w ! a)"
  shows "cells (snd (join_complete K Lt a sg v w)) ! a = (cells w ! a)\<lparr>jstate := JoinReady v\<rparr>"
    "length (cells (snd (join_complete K Lt a sg v w))) = length (cells w)"
  using assms by (simp_all add: join_complete_run split: option.split)

section \<open>Properties\<close>

text \<open>C37: Completing a task wakes nobody. Whatever the join state was, also when a task awaits the
  handle, the wrapper's completion leaves the queue of wakes and the kernel as they were: the
  token of the awaiting task is never queued.\<close>

theorem join_completion_wakes_nobody:
  "WAKE_QUEUE (snd (join_complete K Lt a sg v w)) = WAKE_QUEUE w \<and>
   kern (snd (join_complete K Lt a sg v w)) = kern w"
  by (simp add: join_complete_run split: option.split)

text \<open>A handle yields its task's value exactly once. If the user's future becomes ready with
  \<open>v\<close>, then, however often the handle was polled before, the next poll of the handle returns
  \<open>v\<close>; a poll after that panics, and one more finds the mutex poisoned.\<close>

lemma join_handle_yields_once:
  assumes "pf g cx w = (Val (Ready v, g'), w1)" "a < length (cells w1)" "\<not> poisoned (cells w1 ! a)"
  shows "let r2 = wrap_poll K Lt pf (Wrapped g a sg) cx w; r3 = JoinHandle_poll a cx2 (snd r2);
             r4 = JoinHandle_poll a cx3 (snd r3); r5 = JoinHandle_poll a cx4 (snd r4) in
    fst r2 = Val (Ready (), Wrapped g' a sg) \<and> fst r3 = Val (Ready v) \<and>
    fst r4 = Panic (Explicit ''polled ready future ):'') \<and> fst r5 = Panic UnwrapErr"
proof -
  define w2 where "w2 = snd (join_complete K Lt a sg v w1)"
  have "wrap_poll K Lt pf (Wrapped g a sg) cx w = (Val (Ready (), Wrapped g' a sg), w2)"
    unfolding w2_def using assms(1,3) by (rule wrap_poll_ready)
  moreover have "\<not> poisoned (cells w2 ! a)" "jstate (cells w2 ! a) = JoinReady v" "a < length (cells w2)"
    using join_complete_cell [OF assms(2,3), of K Lt sg v] assms(2,3) by (simp_all add: w2_def)
  ultimately show ?thesis by (simp add: JoinHandle_poll_cases)
qed

text \<open>\<^verbatim>\<open>spawn_and_block\<close> returns the value of its future. It blocks until the task's wrapper has
  completed; once the user's future was polled to ready with \<open>v\<close>, the wait returns and the
  caller gets \<open>v\<close> without a panic.\<close>

lemma spawn_and_block_returns_value:
  assumes law: "light_event_law Lt" and q: "TASK_QUEUE w = Some q"
    and pf: "pf g cx (snd (spawn_and_block_start K Lt g w)) = (Val (Ready v, g'), snd (spawn_and_block_start K Lt g w))"
  shows "\<exists>h w1 w2 w3 sg. spawn_and_block_start K Lt g w = (Val h, w1) \<and>
    spawn_and_block_finish Lt h w1 = Blocks \<and>
    wrap_poll K Lt pf (Wrapped g (fst h) (Some (snd h))) cx w1 = (Val (Ready (), sg), w2) \<and>
    spawn_and_block_finish Lt h w2 = Returns (Val v, w3)"
proof -
  obtain w1 where w1: "spawn_and_block_start K Lt g w = (Val (length (cells w), length (signals w)), w1)"
    and c1: "cells w1 = cells w @ [\<lparr>jstate = Unawaited, poisoned = False\<rparr>]"
    and s1: "signals w1 = signals w @ [WaitSignal_new Lt]"
    using q by (simp add: spawn_and_block_start_def Let_def io_bind_run task_queue_add_def SyncQueue_add_def)
  obtain sg where sg: "WaitSignal_wait Lt (WaitSignal_signal Lt (WaitSignal_new Lt)) = Some sg"
    using WaitSignal_signal_wait [OF law] by blast
  have "spawn_and_block_finish Lt (length (cells w), length (signals w)) w1 = Blocks"
    by (simp add: spawn_and_block_finish_def s1 WaitSignal_new_blocks [OF law])
  moreover have "wrap_poll K Lt pf (Wrapped g (length (cells w)) (Some (length (signals w)))) cx w1 =
      (Val (Ready (), Wrapped g' (length (cells w)) (Some (length (signals w)))),
       snd (join_complete K Lt (length (cells w)) (Some (length (signals w))) v w1))"
    using pf by (intro wrap_poll_ready) (simp_all add: w1 c1)
  moreover have "\<exists>w3. spawn_and_block_finish Lt (length (cells w), length (signals w))
      (snd (join_complete K Lt (length (cells w)) (Some (length (signals w))) v w1)) = Returns (Val v, w3)"
    by (simp add: join_complete_run spawn_and_block_finish_def c1 s1 sg Let_def)
  ultimately show ?thesis using w1 by auto
qed

end
