(* ===== verification/Net_Addr.thy ===== *)
theory Net_Addr
  imports Externals
begin

unbundle bit_operations_syntax

text \<open>
  \<^verbatim>\<open>src/net_sync/mod.rs\<close>, the conversion between socket addresses and the byte form of the
  socket service: a length byte, a family byte, and the data of the address. The \<^verbatim>\<open>socket2\<close> crate,
  which lays out addresses the way the C library does, is an argument.
\<close>

section \<open>Addresses\<close>

datatype ipv4 = Ipv4 u8 u8 u8 u8

record socket_addr_v4 =
  ip :: ipv4
  port :: u16

text \<open>
  \<^verbatim>\<open>SockAddr::from(addr)\<close> with its family and the bytes behind it (\<^verbatim>\<open>sa_data\<close>), \<^verbatim>\<open>SockAddr::new\<close> on a
  zeroed storage into which family and bytes were written, \<^verbatim>\<open>as_socket_ipv4\<close>, and how many
  bytes the storage has behind the family.
\<close>

record 'sa socket2 =
  sa_family :: "socket_addr_v4 \<Rightarrow> u16"
  sa_data :: "socket_addr_v4 \<Rightarrow> u8 list"
  sockaddr_new :: "u16 \<Rightarrow> u8 list \<Rightarrow> u32 \<Rightarrow> 'sa"
  as_socket_ipv4 :: "'sa \<Rightarrow> socket_addr_v4 option"
  sa_capacity :: nat

text \<open>\<^verbatim>\<open>copy_nonoverlapping(sa_data, tmp_addr + 2, 6)\<close> copies the port and the address.\<close>

definition sockaddr_as_bytes :: "(string \<Rightarrow> i32) \<Rightarrow> 'sa socket2 \<Rightarrow> socket_addr_v4 \<Rightarrow> u8 list outcome" where
  "sockaddr_as_bytes libc Z addr =
     (if ucast (sa_family Z addr) \<noteq> libc ''AF_INET''
      then Panic (Explicit ''only AF_INET addrs supported'')
      else Val ([8, ucast (sa_family Z addr)] @ take 6 (sa_data Z addr)))"

definition read_sockaddr :: "(string \<Rightarrow> i32) \<Rightarrow> 'sa socket2 \<Rightarrow> u8 list \<Rightarrow> 'sa outcome" where
  "read_sockaddr libc Z tmpaddr =
     (if length tmpaddr < 2 then Panic (Explicit ''index out of bounds'')
      else
        (let family = ucast (tmpaddr ! 1) :: u16;
             user_addrlen = unat (tmpaddr ! 0) + (if family = ucast (libc ''AF_INET'') then 8 else 0) in
         if user_addrlen < 2 then Panic Overflow
         else if length tmpaddr < user_addrlen \<or> sa_capacity Z < user_addrlen - 2 then Panic OutOfBounds
         else Val (sockaddr_new Z family (take (user_addrlen - 2) (drop 2 tmpaddr)) (word_of_nat user_addrlen))))"

text \<open>
  The layout of an IPv4 address of the C library: the family fits a byte, the data is two
  bytes of port, four of address and eight zeros, and from these \<^verbatim>\<open>as_socket_ipv4\<close> reads the
  address. The storage has room for the largest address the service's 28 bytes can hold.
\<close>

definition socket2_law :: "(string \<Rightarrow> i32) \<Rightarrow> 'sa socket2 \<Rightarrow> bool" where
  "socket2_law libc Z \<longleftrightarrow> 26 \<le> sa_capacity Z \<and> 0 \<le> sint (libc ''AF_INET'') \<and> sint (libc ''AF_INET'') < 256 \<and>
     (\<forall>a. ucast (sa_family Z a) = libc ''AF_INET'' \<and>
          length (sa_data Z a) = 14 \<and> drop 6 (sa_data Z a) = replicate 8 0 \<and>
          as_socket_ipv4 Z (sockaddr_new Z (sa_family Z a) (sa_data Z a) 16) = Some a)"

lemma socket2_lawD:
  assumes "socket2_law libc Z"
  shows "26 \<le> sa_capacity Z" "0 \<le> sint (libc ''AF_INET'')" "sint (libc ''AF_INET'') < 256"
    "ucast (sa_family Z a) = libc ''AF_INET''" "length (sa_data Z a) = 14" "drop 6 (sa_data Z a) = replicate 8 0"
    "as_socket_ipv4 Z (sockaddr_new Z (sa_family Z a) (sa_data Z a) 16) = Some a"
  using assms by (simp_all add: socket2_law_def)

text \<open>A family below 256 survives the cast to a byte and back.\<close>

lemma family_byte:
  fixes f :: u16 and c :: i32
  assumes "ucast f = c" "0 \<le> sint c" "sint c < 256"
  shows "ucast (ucast f :: u8) = f" "ucast c = f"
proof -
  have u: "uint c = sint c" using assms(2) sint_i32_range(2) [of c] by (simp add: uint_sint take_bit_int_eq_self)
  have b: "uint f < 2 ^ 16" using unsigned_less [of f, where ?'a = int] by simp
  then have "uint (ucast f :: i32) = uint f" by (simp add: unsigned_ucast_eq unsigned_take_bit_eq take_bit_int_eq_self)
  then have f: "uint f < 256" using assms u by simp
  then have "uint (ucast (ucast f :: u8) :: u16) = uint f"
    by (simp add: unsigned_ucast_eq unsigned_take_bit_eq take_bit_int_eq_self)
  then show "ucast (ucast f :: u8) = f" by (simp only: word_uint_eq_iff)
  have "uint (ucast (ucast f :: i32) :: u16) = uint f" using b by (simp add: unsigned_ucast_eq unsigned_take_bit_eq take_bit_int_eq_self)
  then show "ucast c = f" unfolding assms(1) [symmetric] by (simp only: word_uint_eq_iff)
qed

section \<open>Properties\<close>

lemma sockaddr_bytes_run:
  assumes "socket2_law libc Z"
  shows "sockaddr_as_bytes libc Z a = Val ([8, ucast (sa_family Z a)] @ take 6 (sa_data Z a))"
  using socket2_lawD(4) [OF assms] by (simp add: sockaddr_as_bytes_def)


text \<open>When \<^verbatim>\<open>read_sockaddr\<close> stays inside its buffers. On the 28 bytes of a reply it copies within
  bounds exactly if the length byte, plus 8 for an IPv4 address, is at most 28, and the
  subtraction does not overflow exactly if that sum is at least 2; the code checks neither.\<close>

lemma read_sockaddr_bounds:
  assumes "26 \<le> sa_capacity Z" "length tmpaddr = 28"
  shows "read_sockaddr libc Z tmpaddr =
    (let n = unat (tmpaddr ! 0) + (if (ucast (tmpaddr ! 1) :: u16) = ucast (libc ''AF_INET'') then 8 else 0) in
     if n < 2 then Panic Overflow else if 28 < n then Panic OutOfBounds
     else Val (sockaddr_new Z (ucast (tmpaddr ! 1)) (take (n - 2) (drop 2 tmpaddr)) (word_of_nat n)))"
  using assms by (auto simp: read_sockaddr_def Let_def)

text \<open>The layout of the C library, with \<^verbatim>\<open>AF_INET\<close> as 2.\<close>

fun sim_parse :: "u16 \<times> u8 list \<times> u32 \<Rightarrow> socket_addr_v4 option" where
  "sim_parse (f, p0 # p1 # a # b # c # d # _, n) =
     (if f = 2 then Some \<lparr> ip = Ipv4 a b c d, port = push_bit 8 (ucast p0) OR ucast p1 \<rparr> else None)"
| "sim_parse _ = None"

definition sim_socket2 :: "(u16 \<times> u8 list \<times> u32) socket2" where
  "sim_socket2 = \<lparr> sa_family = (\<lambda>_. 2),
     sa_data = (\<lambda>r. case ip r of Ipv4 a b c d \<Rightarrow>
       [ucast (drop_bit 8 (port r)), ucast (port r), a, b, c, d] @ replicate 8 0),
     sockaddr_new = (\<lambda>f d n. (f, d, n)), as_socket_ipv4 = sim_parse, sa_capacity = 26 \<rparr>"

definition sim_libc :: "string \<Rightarrow> i32" where
  "sim_libc name = (if name = ''AF_INET'' then 2 else if name = ''EAGAIN'' then 11 else 1)"

lemma port_bytes: "push_bit 8 (ucast (ucast (drop_bit 8 p) :: u8)) OR ucast (ucast p :: u8) = p" for p :: u16
  by (rule bit_word_eqI) (auto simp: bit_or_iff bit_push_bit_iff bit_unsigned_iff bit_drop_bit_eq)

lemma sim_socket2_law: "socket2_law sim_libc sim_socket2"
  by (auto simp: socket2_law_def sim_socket2_def sim_libc_def port_bytes split: ipv4.split)


end
