(* ===== verification/Net_Ipc.thy ===== *)
theory Net_Ipc
  imports Executor Ipc_Call Net_Addr
begin

text \<open>
  \<^verbatim>\<open>src/net_sync/mod.rs\<close>: the messages of the socket service, the blocking calls of
  \<^verbatim>\<open>SocketService\<close>, the socket handle that closes itself, \<^verbatim>\<open>TcpSocket\<close> and \<^verbatim>\<open>TcpListener\<close>. The
  service is an argument; its replies come with the contents of the buffers it wrote.
\<close>

section \<open>Messages\<close>

type_synonym poll_flags = u32

definition POLLIN :: poll_flags where "POLLIN = 0x01"
definition POLLPRI :: poll_flags where "POLLPRI = 0x02"
definition POLLWRNORM :: poll_flags where "POLLWRNORM = 0x08"
definition POLLWRBAND :: poll_flags where "POLLWRBAND = 0x10"
definition POLLNVAL :: poll_flags where "POLLNVAL = 0x20"
definition POLLOUT :: poll_flags where "POLLOUT = 0x08"

record poll_fd =
  pfd :: u32
  poll_in :: poll_flags
  poll_out :: poll_flags

definition PollFd_new :: "u32 \<Rightarrow> poll_flags \<Rightarrow> poll_fd" where
  "PollFd_new fd flags = \<lparr> pfd = fd, poll_in = flags, poll_out = 0 \<rparr>"

definition PollFd_default :: poll_fd where
  "PollFd_default = \<lparr> pfd = 0, poll_in = 0, poll_out = 0 \<rparr>"

datatype socket_message =
    Soc_Initialize u32 u32 u32
  | Soc_Socket i32 i32 i32 u32
  | Soc_Listen u32 u32 u32
  | Soc_Accept u32 u32 u32 "u8 list"
  | Soc_Bind u32 u32 u32 "u8 list"
  | Soc_Connect u32 u32 u32 "u8 list"
  | Soc_RecvFrom u32 u32 u32 u32 u32 "u8 list" "u8 list"
  | Soc_SendTo u32 u32 u32 u32 u32 "u8 list" "u8 list"
  | Soc_Close u32 u32
  | Soc_Shutdown u32 i32 u32
  | Soc_Poll u32 i32 u32 "poll_fd list" "poll_fd list"
  | Soc_Fcntl u32 i32 u32 u32
  | Soc_ShutdownSockets

datatype socket_reply =
    Rep_Init i32
  | Rep_Socket i32 u32
  | Rep_Listen i32 i32
  | Rep_Accept i32 i32
  | Rep_Bind i32 i32
  | Rep_Connect i32 i32
  | Rep_RecvFrom i32 i32 u32
  | Rep_SendTo i32 i32
  | Rep_Close i32 i32
  | Rep_Shutdown i32 i32
  | Rep_Fcntl i32 i32
  | Rep_Poll i32 i32
  | Rep_ShutdownSockets i32

fun SocketMessage_id :: "socket_message \<Rightarrow> u32" where
  "SocketMessage_id (Soc_Initialize _ _ _) = 0x1"
| "SocketMessage_id (Soc_Socket _ _ _ _) = 0x2"
| "SocketMessage_id (Soc_Listen _ _ _) = 0x3"
| "SocketMessage_id (Soc_Accept _ _ _ _) = 0x4"
| "SocketMessage_id (Soc_Bind _ _ _ _) = 0x5"
| "SocketMessage_id (Soc_Connect _ _ _ _) = 0x6"
| "SocketMessage_id (Soc_RecvFrom _ _ _ _ _ _ _) = 0x8"
| "SocketMessage_id (Soc_SendTo _ _ _ _ _ _ _) = 0xA"
| "SocketMessage_id (Soc_Close _ _) = 0xB"
| "SocketMessage_id (Soc_Shutdown _ _ _) = 0xC"
| "SocketMessage_id (Soc_Poll _ _ _ _ _) = 0x14"
| "SocketMessage_id (Soc_Fcntl _ _ _ _) = 0x13"
| "SocketMessage_id Soc_ShutdownSockets = 0x19"

fun SocketReply_id :: "socket_reply \<Rightarrow> u32" where
  "SocketReply_id (Rep_Init _) = 0x1"
| "SocketReply_id (Rep_Socket _ _) = 0x2"
| "SocketReply_id (Rep_Listen _ _) = 0x3"
| "SocketReply_id (Rep_Accept _ _) = 0x4"
| "SocketReply_id (Rep_Bind _ _) = 0x5"
| "SocketReply_id (Rep_Connect _ _) = 0x6"
| "SocketReply_id (Rep_RecvFrom _ _ _) = 0x8"
| "SocketReply_id (Rep_SendTo _ _) = 0xA"
| "SocketReply_id (Rep_Close _ _) = 0xB"
| "SocketReply_id (Rep_Shutdown _ _) = 0xC"
| "SocketReply_id (Rep_Fcntl _ _) = 0x13"
| "SocketReply_id (Rep_Poll _ _) = 0x14"
| "SocketReply_id (Rep_ShutdownSockets _) = 0x19"

text \<open>A reply and the buffers the service wrote: an address, received data, and poll results.\<close>

record net_buffers =
  buf_addr :: "u8 list"
  buf_data :: "u8 list"
  buf_fds :: "poll_fd list"

type_synonym net_reply = "socket_reply \<times> net_buffers"
type_synonym ('k, 'x) net_session = "(socket_message, net_reply, 'k, 'x) ipc_session"

definition net_reply_id :: "net_reply \<Rightarrow> u32" where
  "net_reply_id r = SocketReply_id (fst r)"

section \<open>Patterns of the replies\<close>

text \<open>Each gives the result code, the code of the socket call, and what the caller reads besides.\<close>

fun as_Init :: "net_reply \<Rightarrow> (i32 \<times> unit) option" where
  "as_Init (Rep_Init c, _) = Some (c, ())" | "as_Init _ = None"

fun as_Socket :: "net_reply \<Rightarrow> (i32 \<times> u32) option" where
  "as_Socket (Rep_Socket c desc, _) = Some (c, desc)" | "as_Socket _ = None"

fun as_Listen :: "net_reply \<Rightarrow> (i32 \<times> i32 \<times> unit) option" where
  "as_Listen (Rep_Listen c p, _) = Some (c, p, ())" | "as_Listen _ = None"

fun as_Accept :: "net_reply \<Rightarrow> (i32 \<times> i32 \<times> u8 list) option" where
  "as_Accept (Rep_Accept c p, b) = Some (c, p, buf_addr b)" | "as_Accept _ = None"

fun as_Bind :: "net_reply \<Rightarrow> (i32 \<times> i32 \<times> unit) option" where
  "as_Bind (Rep_Bind c p, _) = Some (c, p, ())" | "as_Bind _ = None"

fun as_Connect :: "net_reply \<Rightarrow> (i32 \<times> i32 \<times> unit) option" where
  "as_Connect (Rep_Connect c p, _) = Some (c, p, ())" | "as_Connect _ = None"

fun as_RecvFrom :: "net_reply \<Rightarrow> (i32 \<times> i32 \<times> u32 \<times> u8 list) option" where
  "as_RecvFrom (Rep_RecvFrom c p n, b) = Some (c, p, n, buf_data b)" | "as_RecvFrom _ = None"

fun as_SendTo :: "net_reply \<Rightarrow> (i32 \<times> i32 \<times> unit) option" where
  "as_SendTo (Rep_SendTo c p, _) = Some (c, p, ())" | "as_SendTo _ = None"

fun as_SocClose :: "net_reply \<Rightarrow> (i32 \<times> i32 \<times> unit) option" where
  "as_SocClose (Rep_Close c p, _) = Some (c, p, ())" | "as_SocClose _ = None"

fun as_Shutdown :: "net_reply \<Rightarrow> (i32 \<times> i32 \<times> unit) option" where
  "as_Shutdown (Rep_Shutdown c p, _) = Some (c, p, ())" | "as_Shutdown _ = None"

fun as_Fcntl :: "net_reply \<Rightarrow> (i32 \<times> i32 \<times> unit) option" where
  "as_Fcntl (Rep_Fcntl c p, _) = Some (c, p, ())" | "as_Fcntl _ = None"

fun as_Poll :: "net_reply \<Rightarrow> (i32 \<times> i32 \<times> poll_fd list) option" where
  "as_Poll (Rep_Poll c p, b) = Some (c, p, buf_fds b)" | "as_Poll _ = None"

fun as_ShutdownSockets :: "net_reply \<Rightarrow> (i32 \<times> unit) option" where
  "as_ShutdownSockets (Rep_ShutdownSockets c, _) = Some (c, ())" | "as_ShutdownSockets _ = None"

section \<open>The service\<close>

text \<open>
  \<^verbatim>\<open>let Reply(res_code, posix_code) = self.inner.request(..)? else { panic!() }; ds_try!(res_code);
  net_try(posix_code)?\<close>
\<close>

definition posix_call ::
  "('k, 'x) net_session \<Rightarrow> 'x ctru \<Rightarrow> (string \<Rightarrow> i32) \<Rightarrow> u32 \<Rightarrow> socket_message \<Rightarrow>
   (net_reply \<Rightarrow> (i32 \<times> i32 \<times> 'v) option) \<Rightarrow> ('k, ('x, 'v) bunny_result) io" where
  "posix_call S C libc session msg pick =
     try_bind (coded_call S C session msg pick)
       (\<lambda>(posix_code, v). try_bind (lift_outcome (net_try libc posix_code)) (\<lambda>_. ret (Inr v)))"

lemma posix_call_state: "snd (posix_call S C l h m pick k) = snd (ipc_request S h m k)"
  using coded_call_state [of S C h m pick k]
  by (auto simp: posix_call_def try_bind_run split: prod.split outcome.split sum.split)

definition SocketService_create_socket ::
  "('k, 'x) net_session \<Rightarrow> 'x ctru \<Rightarrow> (string \<Rightarrow> i32) \<Rightarrow> u32 \<Rightarrow> ('k, ('x, u32) bunny_result) io" where
  "SocketService_create_socket S C libc inner =
     coded_call S C inner (Soc_Socket (libc ''AF_INET'') (libc ''SOCK_STREAM'') 0 0) as_Socket"

definition SocketService_connect ::
  "('k, 'x) net_session \<Rightarrow> 'x ctru \<Rightarrow> (string \<Rightarrow> i32) \<Rightarrow> 'sa socket2 \<Rightarrow> u32 \<Rightarrow> u32 \<Rightarrow> socket_addr_v4 \<Rightarrow>
   ('k, ('x, unit) bunny_result) io" where
  "SocketService_connect S C libc Z inner socket addr =
     io_bind (lift_outcome (sockaddr_as_bytes libc Z addr))
       (\<lambda>bs. posix_call S C libc inner (Soc_Connect socket (word_of_nat (length bs)) 0 bs) as_Connect)"

definition SocketService_bind ::
  "('k, 'x) net_session \<Rightarrow> 'x ctru \<Rightarrow> (string \<Rightarrow> i32) \<Rightarrow> 'sa socket2 \<Rightarrow> u32 \<Rightarrow> u32 \<Rightarrow> socket_addr_v4 \<Rightarrow>
   ('k, ('x, unit) bunny_result) io" where
  "SocketService_bind S C libc Z inner socket addr =
     io_bind (lift_outcome (sockaddr_as_bytes libc Z addr))
       (\<lambda>bs. posix_call S C libc inner (Soc_Bind socket (word_of_nat (length bs)) 0 bs) as_Bind)"

definition SocketService_listen ::
  "('k, 'x) net_session \<Rightarrow> 'x ctru \<Rightarrow> (string \<Rightarrow> i32) \<Rightarrow> u32 \<Rightarrow> u32 \<Rightarrow> ('k, ('x, unit) bunny_result) io" where
  "SocketService_listen S C libc inner socket = posix_call S C libc inner (Soc_Listen socket 8 0) as_Listen"

definition SocketService_send_to ::
  "('k, 'x) net_session \<Rightarrow> 'x ctru \<Rightarrow> (string \<Rightarrow> i32) \<Rightarrow> 'sa socket2 \<Rightarrow> u32 \<Rightarrow> u32 \<Rightarrow> socket_addr_v4 \<Rightarrow> u8 list \<Rightarrow>
   ('k, ('x, unit) bunny_result) io" where
  "SocketService_send_to S C libc Z inner socket addr data =
     (if length data < 0x2000
      then io_bind (lift_outcome (sockaddr_as_bytes libc Z addr))
        (\<lambda>bs. posix_call S C libc inner
           (Soc_SendTo socket (word_of_nat (length data)) 0 (word_of_nat (length bs)) 0 data bs) as_SendTo)
      else panic_with AssertFailed)"

text \<open>\<^verbatim>\<open>recvfrom\<close> also returns the buffer, which the service may have written before an error.\<close>

definition SocketService_recvfrom ::
  "('k, 'x) net_session \<Rightarrow> 'x ctru \<Rightarrow> (string \<Rightarrow> i32) \<Rightarrow> 'sa socket2 \<Rightarrow> u32 \<Rightarrow> u32 \<Rightarrow> u8 list \<Rightarrow>
   ('k, ('x, 'sa \<times> u32) bunny_result \<times> u8 list) io" where
  "SocketService_recvfrom S C libc Z inner socket data =
     (if length data < 0x2000
      then io_bind (ipc_call S inner
             (Soc_RecvFrom socket (word_of_nat (length data)) 0 0x1C 0 data (replicate 0x1C 0)) as_RecvFrom)
        (\<lambda>res. case res of
           Inl e \<Rightarrow> ret (Inl e, data)
         | Inr (res_code, posix_code, data_rxed, data') \<Rightarrow>
             (case ds_try C res_code of
                Some e \<Rightarrow> ret (Inl e, data')
              | None \<Rightarrow>
                  io_bind (lift_outcome (net_try libc posix_code))
                    (\<lambda>r. ret (case r of Inl e \<Rightarrow> Inl e | Inr _ \<Rightarrow> Inr (sockaddr_new Z 0 [] 0, data_rxed), data'))))
      else panic_with AssertFailed)"

definition SocketService_poll ::
  "('k, 'x) net_session \<Rightarrow> 'x ctru \<Rightarrow> (string \<Rightarrow> i32) \<Rightarrow> u32 \<Rightarrow> poll_fd list \<Rightarrow> poll_fd list \<Rightarrow> i32 \<Rightarrow>
   ('k, ('x, poll_fd list) bunny_result) io" where
  "SocketService_poll S C libc inner poll_fds out timeout =
     (if length poll_fds = length out
      then posix_call S C libc inner (Soc_Poll (word_of_nat (length poll_fds)) timeout 0 poll_fds out) as_Poll
      else panic_with AssertFailed)"

definition SocketService_set_nonblock ::
  "('k, 'x) net_session \<Rightarrow> 'x ctru \<Rightarrow> (string \<Rightarrow> i32) \<Rightarrow> u32 \<Rightarrow> u32 \<Rightarrow> ('k, ('x, unit) bunny_result) io" where
  "SocketService_set_nonblock S C libc inner socket = posix_call S C libc inner (Soc_Fcntl socket 0x4 0x4 0) as_Fcntl"

definition SocketService_close ::
  "('k, 'x) net_session \<Rightarrow> 'x ctru \<Rightarrow> (string \<Rightarrow> i32) \<Rightarrow> u32 \<Rightarrow> u32 \<Rightarrow> ('k, ('x, unit) bunny_result) io" where
  "SocketService_close S C libc inner socket = posix_call S C libc inner (Soc_Close socket 0) as_SocClose"

definition shutdown_how :: "bool \<Rightarrow> bool \<Rightarrow> i32" where
  "shutdown_how rd wr = (if rd \<and> wr then 2 else if wr \<and> \<not> rd then 1 else 0)"

definition SocketService_shutdown ::
  "('k, 'x) net_session \<Rightarrow> 'x ctru \<Rightarrow> (string \<Rightarrow> i32) \<Rightarrow> u32 \<Rightarrow> u32 \<Rightarrow> bool \<Rightarrow> bool \<Rightarrow> ('k, ('x, unit) bunny_result) io" where
  "SocketService_shutdown S C libc inner socket rd wr =
     posix_call S C libc inner (Soc_Shutdown socket (shutdown_how rd wr) 0) as_Shutdown"

definition SocketService_shutdown_service_inner ::
  "('k, 'x) net_session \<Rightarrow> 'x ctru \<Rightarrow> u32 \<Rightarrow> ('k, ('x, unit) bunny_result) io" where
  "SocketService_shutdown_service_inner S C inner = coded_call S C inner Soc_ShutdownSockets as_ShutdownSockets"

text \<open>Dropping the service ignores the result of the shutdown.\<close>

definition SocketService_drop :: "('k, 'x) net_session \<Rightarrow> 'x ctru \<Rightarrow> u32 \<Rightarrow> ('k, unit) io" where
  "SocketService_drop S C inner = io_bind (SocketService_shutdown_service_inner S C inner) (\<lambda>_. ret ())"

text \<open>\<^verbatim>\<open>shutdown_service\<close> owns the service, which is dropped when it returns or unwinds.\<close>

definition SocketService_shutdown_service ::
  "('k, 'x) net_session \<Rightarrow> 'x ctru \<Rightarrow> u32 \<Rightarrow> ('k, ('x, unit) bunny_result) io" where
  "SocketService_shutdown_service S C inner k =
     (case SocketService_shutdown_service_inner S C inner k of
        (Val r, k1) \<Rightarrow> io_bind (SocketService_drop S C inner) (\<lambda>_. ret r) k1
      | (Panic p, k1) \<Rightarrow> (Panic p, snd (SocketService_drop S C inner k1)))"

section \<open>The contract of a socket call\<close>

text \<open>The code of the socket call in a reply; a reply without one counts as success.\<close>

fun posix_of :: "socket_reply \<Rightarrow> i32" where
  "posix_of (Rep_Listen _ p) = p"
| "posix_of (Rep_Accept _ p) = p"
| "posix_of (Rep_Bind _ p) = p"
| "posix_of (Rep_Connect _ p) = p"
| "posix_of (Rep_RecvFrom _ p _) = p"
| "posix_of (Rep_SendTo _ p) = p"
| "posix_of (Rep_Close _ p) = p"
| "posix_of (Rep_Shutdown _ p) = p"
| "posix_of (Rep_Fcntl _ p) = p"
| "posix_of (Rep_Poll _ p) = p"
| "posix_of _ = 0"

text \<open>The service's documented error codes are those of the table, 1 to 76, negated.\<close>

definition posix_known :: "('k, 'x) net_session \<Rightarrow> bool" where
  "posix_known S \<longleftrightarrow> (\<forall>h q k r k'. ipc_request S h q k = (Inr r, k') \<longrightarrow> -77 < sint (posix_of (fst r)))"

text \<open>
  What a socket call promises: it returns the error of a failed transport, the error for a
  refused result code, the \<^verbatim>\<open>errno\<close> of a negative socket code, or its value.
\<close>

definition posix_spec ::
  "'x ctru \<Rightarrow> (string \<Rightarrow> i32) \<Rightarrow> ('x ctru_error + net_reply) \<times> 'k \<Rightarrow> (net_reply \<Rightarrow> (i32 \<times> i32 \<times> 'v) option) \<Rightarrow>
   ('x, 'v) bunny_result outcome \<times> 'k \<Rightarrow> bool" where
  "posix_spec C libc answer pick out \<longleftrightarrow>
     (case answer of
        (Inl e, k) \<Rightarrow> out = (Val (Inl (Ctru e)), k)
      | (Inr r, k) \<Rightarrow> (\<exists>c p v. pick r = Some (c, p, v) \<and>
          out = (Val (case ds_try C c of
                   Some e \<Rightarrow> Inl e
                 | None \<Rightarrow> if 0 \<le> sint p then Inr v else Inl (Libc (ERROR_MAP libc ! nat (- sint p)))), k)))"

text \<open>The pattern of a call that has a socket code reads that code.\<close>

locale posix_op = ipc_op SocketMessage_id net_reply_id msg pick
  for msg :: socket_message and pick :: "net_reply \<Rightarrow> (i32 \<times> i32 \<times> 'v) option" +
  assumes pick_posix: "pick r = Some (c, p, v) \<Longrightarrow> p = posix_of (fst r)"
begin

lemma posix_call_spec:
  fixes S :: "('k, 'x) net_session"
  assumes "answers SocketMessage_id net_reply_id S" "posix_known S"
  shows "posix_spec C libc (ipc_request S h msg k) pick (posix_call S C libc h msg pick k)"
proof (rule call_cases [OF assms(1), of h k])
  fix e k' assume "ipc_request S h msg k = (Inl e, k')" "ipc_call S h msg pick k = (Val (Inl (Ctru e)), k')"
  then show ?thesis by (simp add: posix_spec_def posix_call_def coded_call_def try_bind_run)
next
  fix r c v k'
  assume a: "ipc_request S h msg k = (Inr r, k')" "pick r = Some (c, v)" "ipc_call S h msg pick k = (Val (Inr (c, v)), k')"
  obtain p u where v: "v = (p, u)" by force
  have "-77 < sint p"
    using assms(2) a(1) pick_posix a(2) unfolding v posix_known_def by blast
  then have "(net_try libc p :: ('x, unit) bunny_result outcome) = Val (if 0 \<le> sint p then Inr () else Inl (Libc (ERROR_MAP libc ! nat (- sint p))))"
    by (simp add: net_try_ok net_try_known)
  with a v show ?thesis
    by (auto simp: posix_spec_def posix_call_def coded_call_def try_bind_run ds_try_io_def split: option.split)
qed

end

lemma net_reply_cases:
  "net_reply_id r = 0x3 \<Longrightarrow> \<exists>a. as_Listen r = Some a"
  "net_reply_id r = 0x4 \<Longrightarrow> \<exists>a. as_Accept r = Some a"
  "net_reply_id r = 0x5 \<Longrightarrow> \<exists>a. as_Bind r = Some a"
  "net_reply_id r = 0x6 \<Longrightarrow> \<exists>a. as_Connect r = Some a"
  "net_reply_id r = 0x8 \<Longrightarrow> \<exists>a. as_RecvFrom r = Some a"
  "net_reply_id r = 0xA \<Longrightarrow> \<exists>a. as_SendTo r = Some a"
  "net_reply_id r = 0xB \<Longrightarrow> \<exists>a. as_SocClose r = Some a"
  "net_reply_id r = 0xC \<Longrightarrow> \<exists>a. as_Shutdown r = Some a"
  "net_reply_id r = 0x13 \<Longrightarrow> \<exists>a. as_Fcntl r = Some a"
  "net_reply_id r = 0x14 \<Longrightarrow> \<exists>a. as_Poll r = Some a"
  "net_reply_id r = 0x1 \<Longrightarrow> \<exists>a. as_Init r = Some a"
  "net_reply_id r = 0x2 \<Longrightarrow> \<exists>a. as_Socket r = Some a"
  "net_reply_id r = 0x19 \<Longrightarrow> \<exists>a. as_ShutdownSockets r = Some a"
  by (cases r; cases "fst r"; simp add: net_reply_id_def)+

interpretation soc_listen: posix_op "Soc_Listen socket n ph" as_Listen for socket n ph
  by unfold_locales (simp only: SocketMessage_id.simps net_reply_cases, erule as_Listen.elims, simp_all)

interpretation soc_bind: posix_op "Soc_Bind socket n ph bs" as_Bind for socket n ph bs
  by unfold_locales (simp only: SocketMessage_id.simps net_reply_cases, erule as_Bind.elims, simp_all)

interpretation soc_connect: posix_op "Soc_Connect socket n ph bs" as_Connect for socket n ph bs
  by unfold_locales (simp only: SocketMessage_id.simps net_reply_cases, erule as_Connect.elims, simp_all)

interpretation soc_send: posix_op "Soc_SendTo socket n flags m ph data bs" as_SendTo for socket n flags m ph data bs
  by unfold_locales (simp only: SocketMessage_id.simps net_reply_cases, erule as_SendTo.elims, simp_all)

interpretation soc_recv: posix_op "Soc_RecvFrom socket n flags m ph data bs" as_RecvFrom for socket n flags m ph data bs
  by unfold_locales (simp only: SocketMessage_id.simps net_reply_cases, erule as_RecvFrom.elims, simp_all)

interpretation soc_close: posix_op "Soc_Close socket ph" as_SocClose for socket ph
  by unfold_locales (simp only: SocketMessage_id.simps net_reply_cases, erule as_SocClose.elims, simp_all)

interpretation soc_shutdown: posix_op "Soc_Shutdown socket how ph" as_Shutdown for socket how ph
  by unfold_locales (simp only: SocketMessage_id.simps net_reply_cases, erule as_Shutdown.elims, simp_all)

interpretation soc_fcntl: posix_op "Soc_Fcntl socket cmd arg ph" as_Fcntl for socket cmd arg ph
  by unfold_locales (simp only: SocketMessage_id.simps net_reply_cases, erule as_Fcntl.elims, simp_all)

interpretation soc_poll: posix_op "Soc_Poll n timeout ph fds out" as_Poll for n timeout ph fds out
  by unfold_locales (simp only: SocketMessage_id.simps net_reply_cases, erule as_Poll.elims, simp_all)

interpretation soc_socket: ipc_op SocketMessage_id net_reply_id "Soc_Socket d t p ph" as_Socket for d t p ph
  by unfold_locales (simp only: SocketMessage_id.simps net_reply_cases)

interpretation soc_stop: ipc_op SocketMessage_id net_reply_id Soc_ShutdownSockets as_ShutdownSockets
  by unfold_locales (simp only: SocketMessage_id.simps net_reply_cases)

section \<open>Properties\<close>

text \<open>The bytes of an address, as the calls send them.\<close>

definition addr_bytes :: "'sa socket2 \<Rightarrow> socket_addr_v4 \<Rightarrow> u8 list" where
  "addr_bytes Z a = [8, ucast (sa_family Z a)] @ take 6 (sa_data Z a)"

lemma addr_bytes:
  assumes "socket2_law libc Z"
  shows "sockaddr_as_bytes libc Z a = Val (addr_bytes Z a)" "length (addr_bytes Z a) = 8"
  using sockaddr_bytes_run [OF assms] socket2_lawD(5) [OF assms] by (simp_all add: addr_bytes_def)

text \<open>C26: The blocking socket calls are total. With a service that answers a request under its own command id
  and uses the documented error codes, no call panics: each returns the error of the failed request, the
  error \<^verbatim>\<open>ds_try!\<close> makes of the result code, the \<^verbatim>\<open>errno\<close> that belongs to a negative socket code, or
  its value; connecting, binding and sending pass the eight bytes of the address.\<close>

theorem socket_calls_meet_spec:
  assumes A: "answers SocketMessage_id net_reply_id S" "posix_known S" and Z: "socket2_law libc Z"
  shows "call_spec C (ipc_request S h (Soc_Socket (libc ''AF_INET'') (libc ''SOCK_STREAM'') 0 0) k) as_Socket
      (SocketService_create_socket S C libc h k) \<and>
    posix_spec C libc (ipc_request S h (Soc_Connect fd 8 0 (addr_bytes Z a)) k) as_Connect
      (SocketService_connect S C libc Z h fd a k) \<and>
    posix_spec C libc (ipc_request S h (Soc_Bind fd 8 0 (addr_bytes Z a)) k) as_Bind
      (SocketService_bind S C libc Z h fd a k) \<and>
    posix_spec C libc (ipc_request S h (Soc_Listen fd 8 0) k) as_Listen (SocketService_listen S C libc h fd k) \<and>
    (length data < 0x2000 \<longrightarrow>
      posix_spec C libc (ipc_request S h (Soc_SendTo fd (word_of_nat (length data)) 0 8 0 data (addr_bytes Z a)) k) as_SendTo
        (SocketService_send_to S C libc Z h fd a data k)) \<and>
    (length fds = length outs \<longrightarrow>
      posix_spec C libc (ipc_request S h (Soc_Poll (word_of_nat (length fds)) t 0 fds outs) k) as_Poll
        (SocketService_poll S C libc h fds outs t k)) \<and>
    posix_spec C libc (ipc_request S h (Soc_Fcntl fd 4 4 0) k) as_Fcntl (SocketService_set_nonblock S C libc h fd k) \<and>
    posix_spec C libc (ipc_request S h (Soc_Close fd 0) k) as_SocClose (SocketService_close S C libc h fd k) \<and>
    posix_spec C libc (ipc_request S h (Soc_Shutdown fd (shutdown_how rd wr) 0) k) as_Shutdown
      (SocketService_shutdown S C libc h fd rd wr k) \<and>
    call_spec C (ipc_request S h Soc_ShutdownSockets k) as_ShutdownSockets (SocketService_shutdown_service_inner S C h k)"
  unfolding SocketService_create_socket_def SocketService_connect_def SocketService_bind_def SocketService_listen_def
    SocketService_send_to_def SocketService_poll_def SocketService_set_nonblock_def SocketService_close_def
    SocketService_shutdown_def SocketService_shutdown_service_inner_def
  using soc_connect.posix_call_spec [OF A, of C libc h fd 8 0 "addr_bytes Z a" k]
    soc_bind.posix_call_spec [OF A, of C libc h fd 8 0 "addr_bytes Z a" k]
    soc_send.posix_call_spec [OF A, of C libc h fd "word_of_nat (length data)" 0 8 0 data "addr_bytes Z a" k]
  by (intro conjI impI soc_socket.coded_call_spec [OF A(1)] soc_stop.coded_call_spec [OF A(1)])
    (simp_all add: addr_bytes [OF Z] io_bind_run soc_listen.posix_call_spec [OF A] soc_fcntl.posix_call_spec [OF A]
      soc_close.posix_call_spec [OF A] soc_shutdown.posix_call_spec [OF A] soc_poll.posix_call_spec [OF A])

text \<open>\<^verbatim>\<open>shutdown_service\<close> returns what the shutdown gave, having sent it twice, once for the drop.\<close>

lemma shutdown_service_sends_twice:
  assumes A: "answers SocketMessage_id net_reply_id S"
  shows "fst (SocketService_shutdown_service S C h k) = fst (SocketService_shutdown_service_inner S C h k)"
    and "snd (SocketService_shutdown_service S C h k) =
      snd (ipc_request S h Soc_ShutdownSockets (snd (ipc_request S h Soc_ShutdownSockets k)))"
proof -
  have "\<exists>r. SocketService_shutdown_service_inner S C h k = (Val r, snd (ipc_request S h Soc_ShutdownSockets k))" for k
    using soc_stop.coded_call_spec [OF A, of C h k]
    by (auto simp: SocketService_shutdown_service_inner_def call_spec_def split: prod.splits sum.splits)
  then obtain r where r: "\<And>k. SocketService_shutdown_service_inner S C h k = (Val (r k), snd (ipc_request S h Soc_ShutdownSockets k))"
    by metis
  show "fst (SocketService_shutdown_service S C h k) = fst (SocketService_shutdown_service_inner S C h k)"
    and "snd (SocketService_shutdown_service S C h k) =
      snd (ipc_request S h Soc_ShutdownSockets (snd (ipc_request S h Soc_ShutdownSockets k)))"
    by (simp_all add: SocketService_shutdown_service_def SocketService_drop_def r io_bind_run)
qed

text \<open>A service with one socket, 3, that refuses connections.\<close>

definition demo_net :: "('k, unit) net_session" where
  "demo_net = \<lparr> ipc_request = (\<lambda>_ q k. (Inr (case q of
       Soc_Initialize _ _ _ \<Rightarrow> Rep_Init 0
     | Soc_Socket _ _ _ _ \<Rightarrow> Rep_Socket 0 3
     | Soc_Listen _ _ _ \<Rightarrow> Rep_Listen 0 0
     | Soc_Accept _ _ _ _ \<Rightarrow> Rep_Accept 1 (-6)
     | Soc_Bind _ _ _ _ \<Rightarrow> Rep_Bind 0 0
     | Soc_Connect _ _ _ _ \<Rightarrow> Rep_Connect 0 (-14)
     | Soc_RecvFrom _ _ _ _ _ _ _ \<Rightarrow> Rep_RecvFrom 0 (-6) 0
     | Soc_SendTo _ _ _ _ _ _ _ \<Rightarrow> Rep_SendTo 0 1
     | Soc_Close _ _ \<Rightarrow> Rep_Close 0 0
     | Soc_Shutdown _ _ _ \<Rightarrow> Rep_Shutdown 0 0
     | Soc_Poll _ _ _ _ _ \<Rightarrow> Rep_Poll 0 1
     | Soc_Fcntl _ _ _ _ \<Rightarrow> Rep_Fcntl 0 0
     | Soc_ShutdownSockets \<Rightarrow> Rep_ShutdownSockets 0,
       \<lparr> buf_addr = [8, 2, 0, 80, 10, 0, 0, 7] @ replicate 20 0, buf_data = [],
         buf_fds = [\<lparr> pfd = 3, poll_in = POLLIN, poll_out = POLLIN \<rparr>] \<rparr>), k)) \<rparr>"

lemma demo_net_laws: "answers SocketMessage_id net_reply_id demo_net" "posix_known demo_net"
  by (auto simp: answers_def posix_known_def demo_net_def net_reply_id_def split: socket_message.split)

theorem socket_calls_meet_spec_witness:
  "SocketService_connect demo_net sim_ctru sim_libc sim_socket2 1 3 \<lparr> ip = Ipv4 10 0 0 7, port = 80 \<rparr> () =
     (Val (Inl (Libc (ERROR_MAP sim_libc ! 14))), ()) \<and>
   SocketService_create_socket demo_net sim_ctru sim_libc 1 () = (Val (Inr 3), ())"
  using socket_calls_meet_spec [OF demo_net_laws sim_socket2_law, of sim_ctru 1 "()" 3
      "\<lparr> ip = Ipv4 10 0 0 7, port = 80 \<rparr>" "[]" "[]" "[]" 0 True True]
  by (simp add: posix_spec_def call_spec_def demo_net_def sim_ctru_def)

end
