(* ===== verification/Net_Tcp.thy ===== *)
theory Net_Tcp
  imports Net_Ipc
begin

text \<open>
  \<^verbatim>\<open>src/net_sync/mod.rs\<close>, the part that goes through the global \<^verbatim>\<open>SOCKET_SERVICES\<close>: setting up the
  service, socket handles, which close their descriptor when dropped, \<^verbatim>\<open>TcpSocket\<close> and \<^verbatim>\<open>TcpListener\<close>.
\<close>

section \<open>State\<close>

record socket_service =
  memory_handle :: u32
  inner :: u32

record ('f, 'k) net_world = "('f, 'k) runtime" +
  SOCKET_SERVICES :: "socket_service option"

type_synonym ('f, 'k, 'z, 'a) netio = "(('f, 'k, 'z) net_world_scheme, 'a) io"

text \<open>The parts of the environment the calls need: the service, result codes, \<^verbatim>\<open>libc\<close> and \<^verbatim>\<open>socket2\<close>.\<close>

record ('k, 'x, 'sa) net_env =
  ses :: "('k, 'x) net_session"
  codes :: "'x ctru"
  libc :: "string \<Rightarrow> i32"
  sock2 :: "'sa socket2"

text \<open>The system calls of \<^verbatim>\<open>SocketService::init\<close>; the last two give a result code and a handle.\<close>

record 'k soc_setup =
  memalign :: "u32 \<Rightarrow> u32 \<Rightarrow> 'k \<Rightarrow> u32 \<times> 'k"
  svcCreateMemoryBlock :: "u32 \<Rightarrow> u32 \<Rightarrow> u32 \<Rightarrow> u32 \<Rightarrow> 'k \<Rightarrow> (i32 \<times> u32) \<times> 'k"
  srvGetServiceHandle :: "string \<Rightarrow> 'k \<Rightarrow> (i32 \<times> u32) \<times> 'k"

definition SocketService_setup ::
  "'k soc_setup \<Rightarrow> ('k, 'x, 'sa) net_env \<Rightarrow> ('k, ('x, socket_service) bunny_result) io" where
  "SocketService_setup Y E k =
     (let num_bytes = 0x100000; (socket_memory, k1) = memalign Y 0x1000 num_bytes k;
          ((r1, shared_mem), k2) = svcCreateMemoryBlock Y socket_memory num_bytes 0 3 k1 in
      try_bind (ds_try_io (codes E) r1) (\<lambda>_ k3.
        let ((r2, service_handle), k4) = srvGetServiceHandle Y ''soc:U'' k3 in
        try_bind (ds_try_io (codes E) r2) (\<lambda>_.
          try_bind (coded_call (ses E) (codes E) service_handle (Soc_Initialize num_bytes 0 shared_mem) as_Init)
            (\<lambda>_. ret (Inr \<lparr> memory_handle = shared_mem, inner = service_handle \<rparr>))) k4) k2)"

text \<open>A service that cannot be put into the static, because there is one, is dropped.\<close>

definition SocketService_init ::
  "'k soc_setup \<Rightarrow> ('k, 'x, 'sa) net_env \<Rightarrow> ('f, 'k, 'z, ('x, unit) bunny_result) netio" where
  "SocketService_init Y E =
     try_bind (on_kern (SocketService_setup Y E))
       (\<lambda>s w. case SOCKET_SERVICES w of
           None \<Rightarrow> (Val (Inr ()), w\<lparr>SOCKET_SERVICES := Some s\<rparr>)
         | Some _ \<Rightarrow> io_bind (on_kern (SocketService_drop (ses E) (codes E) (inner s))) (\<lambda>_. ret (Inr ())) w)"

definition net_init ::
  "'k soc_setup \<Rightarrow> ('k, 'x, 'sa) net_env \<Rightarrow> ('f, 'k, 'z, ('x, unit) bunny_result) netio" where
  "net_init Y E w = (case SOCKET_SERVICES w of Some _ \<Rightarrow> (Val (Inr ()), w) | None \<Rightarrow> SocketService_init Y E w)"

section \<open>Handles\<close>

text \<open>\<^verbatim>\<open>SOCKET_SERVICES.get().unwrap()\<close>\<close>

definition services :: "('f, 'k, 'z, socket_service) netio" where
  "services w = (unwrap (SOCKET_SERVICES w), w)"

text \<open>A \<^verbatim>\<open>SocketHandle\<close> is its descriptor. Dropping it ignores the result of the close.\<close>

definition SocketHandle_drop :: "('k, 'x, 'sa) net_env \<Rightarrow> u32 \<Rightarrow> ('f, 'k, 'z, unit) netio" where
  "SocketHandle_drop E fd =
     io_bind services (\<lambda>soc. io_bind (on_kern (SocketService_close (ses E) (codes E) (libc E) (inner soc) fd)) (\<lambda>_. ret ()))"

text \<open>
  Code that owns a handle: if it returns an error or panics, the handle is dropped; if it
  succeeds, it has moved the handle into its result.
\<close>

definition closing ::
  "('k, 'x, 'sa) net_env \<Rightarrow> u32 \<Rightarrow> ('f, 'k, 'z, ('x, 'a) bunny_result) netio \<Rightarrow> ('f, 'k, 'z, ('x, 'a) bunny_result) netio" where
  "closing E fd m w =
     (case m w of
        (Val (Inr a), w1) \<Rightarrow> (Val (Inr a), w1)
      | (Val (Inl e), w1) \<Rightarrow> (case SocketHandle_drop E fd w1 of (Val _, w2) \<Rightarrow> (Val (Inl e), w2) | (Panic p, w2) \<Rightarrow> (Panic p, w2))
      | (Panic p, w1) \<Rightarrow> (Panic p, snd (SocketHandle_drop E fd w1)))"

text \<open>\<^verbatim>\<open>accept\<close>: the socket code is looked at only if the result code is 0.\<close>

definition SocketService_accept ::
  "('k, 'x, 'sa) net_env \<Rightarrow> socket_service \<Rightarrow> u32 \<Rightarrow> ('f, 'k, 'z, ('x, u32 \<times> socket_addr_v4) bunny_result) netio" where
  "SocketService_accept E soc socket =
     try_bind (on_kern (ipc_call (ses E) (inner soc) (Soc_Accept socket 0x1C 0 (replicate 0x1C 0)) as_Accept))
       (\<lambda>(res_code, posix_code, tmpaddr).
          try_bind (if res_code = 0 then lift_outcome (net_try (libc E) posix_code) else ret (Inr ()))
            (\<lambda>_. closing E posix_code
               (io_bind (lift_outcome (read_sockaddr (libc E) (sock2 E) tmpaddr)) (\<lambda>sa.
                  io_bind (lift_outcome (unwrap (as_socket_ipv4 (sock2 E) sa))) (\<lambda>addr.
                    ret (Inr (posix_code, addr)))))))"

section \<open>Sockets and listeners\<close>

record tcp_socket =
  addr :: socket_addr_v4
  handle :: u32

record tcp_listener =
  listening :: tcp_socket

text \<open>\<^verbatim>\<open>addr.to_socket_addrs().unwrap().next().unwrap()\<close> and the match on \<^verbatim>\<open>SocketAddr::V4\<close>\<close>

datatype socket_addr = V4 socket_addr_v4 | V6

type_synonym 'e resolved = "'e + socket_addr list"

definition first_addr :: "'e resolved \<Rightarrow> socket_addr outcome" where
  "first_addr addrs =
     (case addrs of Inl _ \<Rightarrow> Panic UnwrapErr | Inr [] \<Rightarrow> Panic UnwrapNone | Inr (a # _) \<Rightarrow> Val a)"

definition expect_v4 :: "socket_addr \<Rightarrow> socket_addr_v4 outcome" where
  "expect_v4 a = (case a of V4 v \<Rightarrow> Val v | V6 \<Rightarrow> Panic (Explicit ''only ipv4 supported''))"

definition TcpSocket_connect ::
  "('k, 'x, 'sa) net_env \<Rightarrow> 'e resolved \<Rightarrow> ('f, 'k, 'z, ('x, tcp_socket) bunny_result) netio" where
  "TcpSocket_connect E addrs =
     io_bind services (\<lambda>soc.
       try_bind (on_kern (SocketService_create_socket (ses E) (codes E) (libc E) (inner soc))) (\<lambda>fd.
         closing E fd (io_bind (lift_outcome (first_addr addrs)) (\<lambda>a.
           io_bind (lift_outcome (expect_v4 a)) (\<lambda>v.
             try_bind (on_kern (SocketService_connect (ses E) (codes E) (libc E) (sock2 E) (inner soc) fd v))
               (\<lambda>_. ret (Inr \<lparr> addr = v, handle = fd \<rparr>)))))))"

definition TcpSocket_bind ::
  "('k, 'x, 'sa) net_env \<Rightarrow> 'e resolved \<Rightarrow> ('f, 'k, 'z, ('x, tcp_listener) bunny_result) netio" where
  "TcpSocket_bind E addrs =
     io_bind services (\<lambda>soc.
       try_bind (on_kern (SocketService_create_socket (ses E) (codes E) (libc E) (inner soc))) (\<lambda>fd.
         closing E fd (io_bind (lift_outcome (first_addr addrs)) (\<lambda>a.
           io_bind (lift_outcome (expect_v4 a)) (\<lambda>v.
             try_bind (on_kern (SocketService_bind (ses E) (codes E) (libc E) (sock2 E) (inner soc) fd v)) (\<lambda>_.
               try_bind (on_kern (SocketService_listen (ses E) (codes E) (libc E) (inner soc) fd))
                 (\<lambda>_. ret (Inr \<lparr> listening = \<lparr> addr = v, handle = fd \<rparr> \<rparr>))))))))"

text \<open>\<^verbatim>\<open>recv\<close>, with the buffer.\<close>

definition TcpSocket_recv ::
  "('k, 'x, 'sa) net_env \<Rightarrow> tcp_socket \<Rightarrow> u8 list \<Rightarrow> ('f, 'k, 'z, ('x, usize) bunny_result \<times> u8 list) netio" where
  "TcpSocket_recv E self rd_buf =
     io_bind services (\<lambda>soc.
       io_bind (on_kern (SocketService_recvfrom (ses E) (codes E) (libc E) (sock2 E) (inner soc) (handle self) rd_buf))
         (\<lambda>(r, buf). ret (case r of Inl e \<Rightarrow> Inl e | Inr (_, bytes_read) \<Rightarrow> Inr bytes_read, buf)))"

definition TcpSocket_send ::
  "('k, 'x, 'sa) net_env \<Rightarrow> tcp_socket \<Rightarrow> u8 list \<Rightarrow> ('f, 'k, 'z, ('x, unit) bunny_result) netio" where
  "TcpSocket_send E self data =
     io_bind services (\<lambda>soc.
       on_kern (SocketService_send_to (ses E) (codes E) (libc E) (sock2 E) (inner soc) (handle self) (addr self) data))"

text \<open>The output array has one element, which stays as it was if the service writes nothing.\<close>

definition TcpSocket_poll ::
  "('k, 'x, 'sa) net_env \<Rightarrow> tcp_socket \<Rightarrow> poll_flags \<Rightarrow> i32 \<Rightarrow> ('f, 'k, 'z, ('x, poll_flags) bunny_result) netio" where
  "TcpSocket_poll E self events timeout =
     io_bind services (\<lambda>soc.
       try_bind (on_kern (SocketService_poll (ses E) (codes E) (libc E) (inner soc)
                   [PollFd_new (handle self) events] [PollFd_default] timeout))
         (\<lambda>out_fds. ret (Inr (poll_out (case out_fds of [] \<Rightarrow> PollFd_default | f # _ \<Rightarrow> f)))))"

definition TcpSocket_set_nonblock ::
  "('k, 'x, 'sa) net_env \<Rightarrow> tcp_socket \<Rightarrow> ('f, 'k, 'z, ('x, unit) bunny_result) netio" where
  "TcpSocket_set_nonblock E self =
     io_bind services (\<lambda>soc.
       try_bind (on_kern (SocketService_set_nonblock (ses E) (codes E) (libc E) (inner soc) (handle self))) (\<lambda>_. ret (Inr ())))"

text \<open>\<^verbatim>\<open>std::io::Write\<close>; an I/O error carries the text of the crate's error, which \<open>fmt\<close> gives.\<close>

definition TcpSocket_write ::
  "('k, 'x, 'sa) net_env \<Rightarrow> ('x bunny_error \<Rightarrow> string) \<Rightarrow> tcp_socket \<Rightarrow> u8 list \<Rightarrow> ('f, 'k, 'z, string + nat) netio" where
  "TcpSocket_write E fmt self buf =
     (let buf = (if 0x2000 \<le> length buf then take (0x2000 - 1) buf else buf) in
      io_bind (TcpSocket_send E self buf) (\<lambda>r. ret (case r of Inl e \<Rightarrow> Inl (fmt e) | Inr _ \<Rightarrow> Inr (length buf))))"

definition TcpListener_accept ::
  "('k, 'x, 'sa) net_env \<Rightarrow> tcp_listener \<Rightarrow> ('f, 'k, 'z, ('x, tcp_socket) bunny_result) netio" where
  "TcpListener_accept E self =
     io_bind services (\<lambda>soc.
       try_bind (SocketService_accept E soc (handle (listening self))) (\<lambda>(fd, a). ret (Inr \<lparr> addr = a, handle = fd \<rparr>)))"

section \<open>Lemmas\<close>

text \<open>What the model asks of the environment of the network calls.\<close>

definition net_laws :: "('k, 'x, 'sa) net_env \<Rightarrow> bool" where
  "net_laws E \<longleftrightarrow> answers SocketMessage_id net_reply_id (ses E) \<and> posix_known (ses E) \<and> socket2_law (libc E) (sock2 E)"

lemma net_lawsD:
  "net_laws E \<Longrightarrow> answers SocketMessage_id net_reply_id (ses E)" "net_laws E \<Longrightarrow> posix_known (ses E)"
  "net_laws E \<Longrightarrow> socket2_law (libc E) (sock2 E)"
  by (simp_all add: net_laws_def)

lemma posix_spec_returns: "posix_spec C l (ipc_request S h q k) pick out \<Longrightarrow> \<exists>r. out = (Val r, snd (ipc_request S h q k))"
  by (auto simp: posix_spec_def split: prod.splits sum.splits)

text \<open>Dropping a handle sends one close request and never panics.\<close>

lemma SocketHandle_drop_run:
  assumes "net_laws E" "SOCKET_SERVICES w = Some soc"
  shows "SocketHandle_drop E fd w = (Val (), w\<lparr>kern := snd (ipc_request (ses E) (inner soc) (Soc_Close fd 0) (kern w))\<rparr>)"
proof -
  have "posix_spec (codes E) (libc E) (ipc_request (ses E) (inner soc) (Soc_Close fd 0) (kern w)) as_SocClose
      (SocketService_close (ses E) (codes E) (libc E) (inner soc) fd (kern w))"
    unfolding SocketService_close_def by (rule soc_close.posix_call_spec [OF net_lawsD(1,2) [OF assms(1)]])
  from posix_spec_returns [OF this] obtain r where "SocketService_close (ses E) (codes E) (libc E) (inner soc) fd (kern w) =
      (Val r, snd (ipc_request (ses E) (inner soc) (Soc_Close fd 0) (kern w)))" by blast
  then show ?thesis using assms(2) by (simp add: SocketHandle_drop_def services_def io_bind_run on_kern_def)
qed

lemma closing_run:
  assumes "net_laws E" "m w = (r, w1)" "SOCKET_SERVICES w1 = Some soc"
  shows "closing E fd m w =
    (case r of Val (Inr a) \<Rightarrow> (Val (Inr a), w1)
     | _ \<Rightarrow> (r, w1\<lparr>kern := snd (ipc_request (ses E) (inner soc) (Soc_Close fd 0) (kern w1))\<rparr>))"
  using assms(2) SocketHandle_drop_run [OF assms(1,3)]
  by (auto simp: closing_def split: outcome.splits sum.splits)

lemma on_kern_services [simp]: "SOCKET_SERVICES (snd (on_kern f w)) = SOCKET_SERVICES w"
  by (simp add: on_kern_def split: prod.split)

section \<open>Properties\<close>

text \<open>C28: No descriptor leaks from a failed connect. If the socket was created, then a refused connection and
  an address that is not IPv4 both end with a close request for exactly that descriptor, after which the
  caller gets the connection's error, or the panic.\<close>

theorem failed_connect_closes_socket:
  assumes E: "net_laws E" and w: "SOCKET_SERVICES w = Some soc"
    and create: "SocketService_create_socket (ses E) (codes E) (libc E) (inner soc) (kern w) = (Val (Inr fd), k1)"
    and fails: "SocketService_connect (ses E) (codes E) (libc E) (sock2 E) (inner soc) fd a k1 = (Val (Inl e), k2)"
  shows "TcpSocket_connect E (Inr (V4 a # rest) :: 'e resolved) w =
      (Val (Inl e), w\<lparr>kern := snd (ipc_request (ses E) (inner soc) (Soc_Close fd 0) k2)\<rparr>) \<and>
    TcpSocket_connect E (Inr (V6 # rest) :: 'e resolved) w =
      (Panic (Explicit ''only ipv4 supported''), w\<lparr>kern := snd (ipc_request (ses E) (inner soc) (Soc_Close fd 0) k1)\<rparr>)"
proof -
  let ?m = "\<lambda>addrs :: 'e resolved. io_bind (lift_outcome (first_addr addrs)) (\<lambda>a.
           io_bind (lift_outcome (expect_v4 a)) (\<lambda>v.
             try_bind (on_kern (SocketService_connect (ses E) (codes E) (libc E) (sock2 E) (inner soc) fd v))
               (\<lambda>_. ret (Inr \<lparr> addr = v, handle = fd \<rparr>))))"
  have run: "TcpSocket_connect E addrs w = closing E fd (?m addrs) (w\<lparr>kern := k1\<rparr>)" for addrs :: "'e resolved"
    using w create by (simp add: TcpSocket_connect_def services_def io_bind_run try_bind_run on_kern_def)
  have "?m (Inr (V4 a # rest)) (w\<lparr>kern := k1\<rparr>) = (Val (Inl e), w\<lparr>kern := k2\<rparr>)"
    using fails by (simp add: first_addr_def expect_v4_def io_bind_run try_bind_run on_kern_def)
  moreover have "?m (Inr (V6 # rest)) (w\<lparr>kern := k1\<rparr>) = (Panic (Explicit ''only ipv4 supported''), w\<lparr>kern := k1\<rparr>)"
    by (simp add: first_addr_def expect_v4_def io_bind_run)
  ultimately show ?thesis
    using closing_run [OF E, of "?m (Inr (V4 a # rest))" "w\<lparr>kern := k1\<rparr>" "Val (Inl e)" "w\<lparr>kern := k2\<rparr>" soc fd]
      closing_run [OF E, of "?m (Inr (V6 # rest))" "w\<lparr>kern := k1\<rparr>" "Panic (Explicit ''only ipv4 supported'')" "w\<lparr>kern := k1\<rparr>" soc fd] w
    unfolding run by simp
qed

text \<open>The demonstration service as an environment, with a kernel without state.\<close>

definition demo_env :: "('k, unit, u16 \<times> u8 list \<times> u32) net_env" where
  "demo_env = \<lparr> ses = demo_net, codes = sim_ctru, libc = sim_libc, sock2 = sim_socket2 \<rparr>"

definition demo_world :: "(unit, unit) net_world" where
  "demo_world = \<lparr> kern = (), TASK_QUEUE = None, WAKE_QUEUE = Some \<lparr>semaphore_handle = 1, vals = []\<rparr>,
     EXECUTOR_PORT = None, REACTOR_PORT = None, SOCKET_SERVICES = Some \<lparr> memory_handle = 2, inner = 1 \<rparr> \<rparr>"

definition demo_addr :: socket_addr_v4 where
  "demo_addr = \<lparr> ip = Ipv4 10 0 0 7, port = 80 \<rparr>"

lemma demo_env_laws: "net_laws demo_env"
  by (simp add: net_laws_def demo_env_def demo_net_laws sim_socket2_law)

theorem failed_connect_closes_socket_witness:
  "fst (TcpSocket_connect demo_env (Inr [V4 demo_addr] :: unit resolved) demo_world) = Val (Inl (Libc (ERROR_MAP sim_libc ! 14))) \<and>
   fst (TcpSocket_connect demo_env (Inr [V6] :: unit resolved) demo_world) = Panic (Explicit ''only ipv4 supported'')"
proof -
  have w: "SOCKET_SERVICES demo_world = Some \<lparr> memory_handle = 2, inner = 1 \<rparr>" by (simp add: demo_world_def)
  have c: "SocketService_create_socket (ses demo_env) (codes demo_env) (libc demo_env)
      (inner \<lparr> memory_handle = 2, inner = 1 \<rparr>) (kern demo_world) = (Val (Inr 3), ())"
    by (simp add: SocketService_create_socket_def coded_call_def ipc_call_def try_bind_run ds_try_io_def
        demo_env_def demo_net_def sim_ctru_def)
  have f: "SocketService_connect (ses demo_env) (codes demo_env) (libc demo_env) (sock2 demo_env)
      (inner \<lparr> memory_handle = 2, inner = 1 \<rparr>) 3 demo_addr () = (Val (Inl (Libc (ERROR_MAP sim_libc ! 14))), ())"
    by (simp add: SocketService_connect_def posix_call_def coded_call_def ipc_call_def try_bind_run io_bind_run ds_try_io_def
        demo_env_def demo_net_def sim_ctru_def addr_bytes [OF sim_socket2_law] net_try_known)
  show ?thesis using failed_connect_closes_socket [OF demo_env_laws w c f, of "[]", where ?'e = unit] by simp
qed

text \<open>A short write. \<^verbatim>\<open>write\<close> sends at most \<open>0x1FFF\<close> bytes, so that the assertion in \<^verbatim>\<open>send_to\<close> never fails,
  and returns the number of bytes it passed to the service; how many of them the service says it
  took does not matter, as long as its code is not negative.\<close>

lemma tcp_write_sends_a_prefix:
  assumes E: "net_laws E" and w: "SOCKET_SERVICES w = Some soc"
    and w': "w' = w\<lparr>kern := snd (ipc_request (ses E) (inner soc)
        (Soc_SendTo (handle self) (word_of_nat (min (length buf) 0x1FFF)) 0 8 0
          (take 0x1FFF buf) (addr_bytes (sock2 E) (addr self))) (kern w))\<rparr>"
  shows "\<exists>r. posix_spec (codes E) (libc E)
      (ipc_request (ses E) (inner soc) (Soc_SendTo (handle self) (word_of_nat (min (length buf) 0x1FFF)) 0 8 0
         (take 0x1FFF buf) (addr_bytes (sock2 E) (addr self))) (kern w)) as_SendTo (Val r, kern w') \<and>
    TcpSocket_write E fmt self buf w =
      (Val (case r of Inl e \<Rightarrow> Inl (fmt e) | Inr _ \<Rightarrow> Inr (min (length buf) 0x1FFF)), w')"
proof -
  let ?d = "take 0x1FFF buf"
  let ?a = "ipc_request (ses E) (inner soc) (Soc_SendTo (handle self) (word_of_nat (length ?d)) 0 8 0 ?d
      (addr_bytes (sock2 E) (addr self))) (kern w)"
  have d: "(if 0x2000 \<le> length buf then take (0x2000 - 1) buf else buf) = ?d" "length ?d < 0x2000"
    "length ?d = min (length buf) 0x1FFF" by simp_all
  have "posix_spec (codes E) (libc E) ?a as_SendTo
      (SocketService_send_to (ses E) (codes E) (libc E) (sock2 E) (inner soc) (handle self) (addr self) ?d (kern w))"
    using soc_send.posix_call_spec [OF net_lawsD(1,2) [OF E]] d(2)
    by (simp add: SocketService_send_to_def io_bind_run addr_bytes [OF net_lawsD(3) [OF E]])
  moreover obtain r where r: "SocketService_send_to (ses E) (codes E) (libc E) (sock2 E) (inner soc) (handle self) (addr self) ?d (kern w)
      = (Val r, snd ?a)"
    using posix_spec_returns [OF calculation] by blast
  moreover have "TcpSocket_write E fmt self buf w =
      (Val (case r of Inl e \<Rightarrow> Inl (fmt e) | Inr _ \<Rightarrow> Inr (length ?d)), w\<lparr>kern := snd ?a\<rparr>)"
    using r w by (simp add: TcpSocket_write_def d(1) Let_def TcpSocket_send_def services_def io_bind_run on_kern_def)
  ultimately show ?thesis using w' by (intro exI [of _ r]) (simp add: d(3) split: sum.split)
qed

text \<open>\<^verbatim>\<open>accept\<close> does not report a failure. When the service answers with any result code other than 0, and
  with a readable address in the reply, \<^verbatim>\<open>accept\<close> returns a socket whose descriptor is whatever stands
  in the place of the socket code, be it a negative error code.\<close>

lemma accept_ignores_result_code:
  assumes "SOCKET_SERVICES w = Some soc" "c \<noteq> 0"
    and "ipc_request (ses E) (inner soc) (Soc_Accept (handle (listening l)) 0x1C 0 (replicate 0x1C 0)) (kern w) =
      (Inr (Rep_Accept c p, b), k)"
    and "read_sockaddr (libc E) (sock2 E) (buf_addr b) = Val sa" "as_socket_ipv4 (sock2 E) sa = Some a"
  shows "TcpListener_accept E l w = (Val (Inr \<lparr> addr = a, handle = p \<rparr>), w\<lparr>kern := k\<rparr>)"
proof -
  have "ipc_call (ses E) (inner soc) (Soc_Accept (handle (listening l)) 0x1C 0 (replicate 0x1C 0)) as_Accept (kern w) =
      (Val (Inr (c, p, buf_addr b)), k)"
    using assms(3) by (simp add: ipc_call_def)
  then show ?thesis
    using assms(1,2,4,5)
    by (simp add: TcpListener_accept_def SocketService_accept_def services_def io_bind_run try_bind_run on_kern_def closing_def)
qed

end
