(* ===== verification/Reactor.thy ===== *)
theory Reactor
  imports Executor
begin

text \<open>
  \<^verbatim>\<open>src/reactor.rs\<close>: the server that wakes tasks when kernel objects are signalled, and the
  \<^verbatim>\<open>Sleep\<close> future that uses it. The kernel's timers, the clock and the port are arguments.
\<close>

section \<open>The handler\<close>

datatype reactor_cmd = AddHandle task_token u32 | PopHandle

datatype reactor_reply = ReactorOk

record 'm reactor_handler =
  wait_tokens :: 'm

definition ReactorHandler_handle_request ::
  "('m, u32, task_token list) lite_map \<Rightarrow> 's ipc_server \<Rightarrow> reactor_cmd \<Rightarrow>
   ('m reactor_handler \<times> 's, reactor_reply) io" where
  "ReactorHandler_handle_request L S cmd = (\<lambda>(h, server).
     case cmd of
       AddHandle task handle \<Rightarrow>
         (let m = lm_entry_or L handle [] (wait_tokens h);
              m' = (case lm_get L m handle of Some v \<Rightarrow> lm_set L handle (v @ [task]) m | None \<Rightarrow> m) in
          (Val ReactorOk, (h\<lparr>wait_tokens := m'\<rparr>, add_handle_to_list S handle server)))
     | PopHandle \<Rightarrow> (Panic Todo, (h, server)))"

text \<open>The loop over the tokens of a signalled handle.\<close>

fun wake_all :: "'k kernel \<Rightarrow> task_token list \<Rightarrow> (('f, 'k, 'z) runtime_scheme, unit) io" where
  "wake_all K [] = ret ()"
| "wake_all K (token # ts) = io_bind (wake_queue_add K token) (\<lambda>_. wake_all K ts)"

definition ReactorHandler_handle_additional_oshandle ::
  "('m, u32, task_token list) lite_map \<Rightarrow> 'k kernel \<Rightarrow> u32 \<Rightarrow>
   ('m reactor_handler \<times> ('f, 'k, 'z) runtime_scheme, unit) io" where
  "ReactorHandler_handle_additional_oshandle L K handle = (\<lambda>(h, w).
     case lm_remove L handle (wait_tokens h) of
       (None, m) \<Rightarrow> (Panic UnwrapNone, (h\<lparr>wait_tokens := m\<rparr>, w))
     | (Some tokens, m) \<Rightarrow> (case wake_all K tokens w of (r, w') \<Rightarrow> (r, (h\<lparr>wait_tokens := m\<rparr>, w'))))"

definition add_handle_for_waker :: "waker \<Rightarrow> u32 \<Rightarrow> reactor_cmd" where
  "add_handle_for_waker waker handle = AddHandle (waker_data waker) handle"

text \<open>\<^verbatim>\<open>Reactor::run\<close> up to the server's loop: a port that is already set stays.\<close>

definition Reactor_run :: "('m, u32, task_token list) lite_map \<Rightarrow> u32 \<Rightarrow>
   ('f, 'k, 'z) runtime_scheme \<Rightarrow> 'm reactor_handler \<times> ('f, 'k, 'z) runtime_scheme" where
  "Reactor_run L client w =
     (\<lparr> wait_tokens = lm_new L \<rparr>,
      case REACTOR_PORT w of None \<Rightarrow> w\<lparr>REACTOR_PORT := Some client\<rparr> | Some _ \<Rightarrow> w)"

section \<open>The sleep future\<close>

text \<open>
  An \<^verbatim>\<open>Instant\<close> is a number of nanoseconds; its seconds are 64-bit and signed. The value
  \<^verbatim>\<open>svcCreateTimer\<close> leaves in its argument is the handle.
\<close>

record 'k timers =
  Instant_now :: "'k \<Rightarrow> nat"
  svcCreateTimer :: "'k \<Rightarrow> u32 \<times> 'k"
  svcSetTimer :: "u32 \<Rightarrow> i64 \<Rightarrow> i64 \<Rightarrow> 'k \<Rightarrow> 'k"

record sleep =
  deadline :: nat
  timer :: "u32 option"

definition instant_add :: "nat \<Rightarrow> nat \<Rightarrow> nat outcome" where
  "instant_add a d =
     (if a + d < 2 ^ 63 * 10 ^ 9 then Val (a + d)
      else Panic (Explicit ''overflow when adding duration to instant''))"

definition sleep_new :: "'k timers \<Rightarrow> nat \<Rightarrow> 'k \<Rightarrow> sleep outcome" where
  "sleep_new T time k =
     (case instant_add (Instant_now T k) time of
        Val d \<Rightarrow> Val \<lparr> deadline = d, timer = None \<rparr>
      | Panic p \<Rightarrow> Panic p)"

definition Sleep_poll ::
  "'k timers \<Rightarrow> ('k, 'x) ipc_port \<Rightarrow> (reactor_cmd, reactor_reply, 'k, 'x) ipc_session \<Rightarrow> waker \<Rightarrow> sleep \<Rightarrow>
   (('f, 'k, 'z) runtime_scheme, unit poll \<times> sleep) io" where
  "Sleep_poll T P S cx self w =
     (let cur = Instant_now T (kern w) in
      if deadline self \<le> cur then (Val (Ready (), self), w)
      else case timer self of
        Some _ \<Rightarrow> (Val (Pending, self), w)
      | None \<Rightarrow>
          (let (tm, k1) = svcCreateTimer T (kern w);
               k2 = svcSetTimer T tm (word_of_nat (deadline self - cur)) 0 k1 in
           case REACTOR_PORT w of
             None \<Rightarrow> (Panic UnwrapNone, w\<lparr>kern := k2\<rparr>)
           | Some port \<Rightarrow>
               (case make_session P port k2 of
                  (Inl _, k3) \<Rightarrow> (Panic UnwrapErr, w\<lparr>kern := k3\<rparr>)
                | (Inr session, k3) \<Rightarrow>
                    (case ipc_request S session (add_handle_for_waker cx tm) k3 of
                       (Inl _, k4) \<Rightarrow> (Panic UnwrapErr, w\<lparr>kern := k4\<rparr>)
                     | (Inr _, k4) \<Rightarrow> (Val (Pending, self\<lparr>timer := Some tm\<rparr>), w\<lparr>kern := k4\<rparr>)))))"

section \<open>Lemmas\<close>

lemma wake_all_run:
  "WAKE_QUEUE w = Some q \<Longrightarrow>
   \<exists>k. wake_all K ts w = (Val (), w\<lparr>WAKE_QUEUE := Some (q\<lparr>vals := vals q @ ts\<rparr>), kern := k\<rparr>)"
proof (induction ts arbitrary: w q)
  case Nil
  then show ?case by (intro exI [of _ "kern w"]) (cases w, simp add: ret_def)
next
  case (Cons t ts)
  let ?q = "push_back t q"
  obtain w1 where w1: "wake_queue_add K t w = (Val (), w1)"
    "w1 = w\<lparr>WAKE_QUEUE := Some ?q, kern := release_one K (semaphore_handle q) (kern w)\<rparr>"
    using wake_queue_add_run(1) [OF Cons.prems] by simp
  with Cons.IH [of w1 ?q] obtain k where
    "wake_all K ts w1 = (Val (), w1\<lparr>WAKE_QUEUE := Some (?q\<lparr>vals := vals ?q @ ts\<rparr>), kern := k\<rparr>)" by auto
  with w1 show ?case by (auto simp: io_bind_def push_back_def)
qed

text \<open>A burst of registrations, in the order the requests arrive.\<close>

fun register_all ::
  "('m, u32, task_token list) lite_map \<Rightarrow> 's ipc_server \<Rightarrow> (task_token \<times> u32) list \<Rightarrow>
   ('m reactor_handler \<times> 's, unit) io" where
  "register_all L S [] = ret ()"
| "register_all L S ((t, hdl) # rs) =
     io_bind (ReactorHandler_handle_request L S (AddHandle t hdl)) (\<lambda>_. register_all L S rs)"

text \<open>The abstract reactor: the tokens registered for a handle, oldest first.\<close>

definition tokens_for :: "(task_token \<times> u32) list \<Rightarrow> u32 \<Rightarrow> task_token list" where
  "tokens_for rs handle = map fst (filter (\<lambda>r. snd r = handle) rs)"

definition registered :: "('m, u32, task_token list) lite_map \<Rightarrow> 'm reactor_handler \<Rightarrow> u32 \<Rightarrow> task_token list" where
  "registered L h handle = (case lm_get L (wait_tokens h) handle of None \<Rightarrow> [] | Some ts \<Rightarrow> ts)"

text \<open>No handle is mapped to an empty list.\<close>

definition reactor_wf :: "('m, u32, task_token list) lite_map \<Rightarrow> 'm reactor_handler \<Rightarrow> bool" where
  "reactor_wf L h \<longleftrightarrow> (\<forall>handle. lm_get L (wait_tokens h) handle \<noteq> Some [])"

lemma handle_request_add:
  assumes L: "lite_map_laws L"
  obtains h' where "ReactorHandler_handle_request L S (AddHandle t hdl) (h, srv) =
      (Val ReactorOk, (h', add_handle_to_list S hdl srv))"
    and "registered L h' = (registered L h)(hdl := registered L h hdl @ [t])"
    and "reactor_wf L h \<Longrightarrow> reactor_wf L h'"
proof -
  define m where "m = lm_entry_or L hdl [] (wait_tokens h)"
  have m: "lm_get L m hdl = Some (registered L h hdl)"
    "handle \<noteq> hdl \<Longrightarrow> lm_get L m handle = lm_get L (wait_tokens h) handle" for handle
    by (auto simp: m_def lite_map_lawsD(6) [OF L] registered_def split: option.split)
  then have set: "lm_get L (lm_set L hdl v m) = (lm_get L m)(hdl \<mapsto> v)" for v
    using lite_map_lawsD(5) [OF L, of m hdl v] by simp
  show thesis
  proof (rule that)
    show "ReactorHandler_handle_request L S (AddHandle t hdl) (h, srv) =
      (Val ReactorOk, (h\<lparr>wait_tokens := lm_set L hdl (registered L h hdl @ [t]) m\<rparr>, add_handle_to_list S hdl srv))"
      using m(1) by (simp add: ReactorHandler_handle_request_def m_def)
  qed (use m(2) in \<open>auto simp: registered_def [of _ "_\<lparr>wait_tokens := _\<rparr>"] reactor_wf_def set fun_eq_iff registered_def\<close>)
qed

lemma register_all_run:
  assumes L: "lite_map_laws L"
  shows "\<exists>h' srv'. register_all L S rs (h, srv) = (Val (), (h', srv')) \<and>
    registered L h' = (\<lambda>hdl. registered L h hdl @ tokens_for rs hdl) \<and> (reactor_wf L h \<longrightarrow> reactor_wf L h')"
proof (induction rs arbitrary: h srv)
  case (Cons r rs)
  obtain t hdl where r: "r = (t, hdl)" by force
  obtain h1 where h1: "ReactorHandler_handle_request L S (AddHandle t hdl) (h, srv) =
      (Val ReactorOk, (h1, add_handle_to_list S hdl srv))"
    "registered L h1 = (registered L h)(hdl := registered L h hdl @ [t])"
    "reactor_wf L h \<Longrightarrow> reactor_wf L h1"
    using handle_request_add [OF L] by metis
  obtain h' srv' where "register_all L S rs (h1, add_handle_to_list S hdl srv) = (Val (), (h', srv'))"
    "registered L h' = (\<lambda>hdl. registered L h1 hdl @ tokens_for rs hdl)" "reactor_wf L h1 \<longrightarrow> reactor_wf L h'"
    using Cons.IH by blast
  with h1 show ?case by (auto simp: r io_bind_def tokens_for_def)
qed (simp add: ret_def tokens_for_def)

text \<open>The handle of a signalled object, in terms of the tokens registered for it.\<close>

lemma oshandle_run:
  assumes L: "lite_map_laws L" and wf: "reactor_wf L h" and q: "WAKE_QUEUE w = Some q"
    and r: "registered L h hdl = ts"
  obtains h' k where
    "ReactorHandler_handle_additional_oshandle L K hdl (h, w) =
       (if ts = [] then (Panic UnwrapNone, (h', w))
        else (Val (), (h', w\<lparr>WAKE_QUEUE := Some (q\<lparr>vals := vals q @ ts\<rparr>), kern := k\<rparr>)))"
    "registered L h' = (registered L h)(hdl := [])" "reactor_wf L h'"
proof -
  obtain k where k: "wake_all K ts w = (Val (), w\<lparr>WAKE_QUEUE := Some (q\<lparr>vals := vals q @ ts\<rparr>), kern := k\<rparr>)"
    using wake_all_run [OF q] by blast
  define h' where "h' = h\<lparr>wait_tokens := snd (lm_remove L hdl (wait_tokens h))\<rparr>"
  have get: "lm_get L (wait_tokens h) hdl = (if ts = [] then None else Some ts)"
    using wf r by (auto simp: registered_def reactor_wf_def split: option.splits)
  show thesis
  proof (rule that)
    show "ReactorHandler_handle_additional_oshandle L K hdl (h, w) =
       (if ts = [] then (Panic UnwrapNone, (h', w))
        else (Val (), (h', w\<lparr>WAKE_QUEUE := Some (q\<lparr>vals := vals q @ ts\<rparr>), kern := k\<rparr>)))"
      using get k lite_map_lawsD(3) [OF L, of hdl "wait_tokens h"]
      by (auto simp: ReactorHandler_handle_additional_oshandle_def h'_def split: prod.split)
  qed (use wf lite_map_lawsD(4) [OF L, of hdl "wait_tokens h"] in
      \<open>auto simp: registered_def reactor_wf_def h'_def fun_eq_iff\<close>)
qed

lemma reactor_new_registered:
  assumes "lite_map_laws L"
  shows "registered L (fst (Reactor_run L c w)) = (\<lambda>_. [])" "reactor_wf L (fst (Reactor_run L c w))"
  by (simp_all add: Reactor_run_def registered_def reactor_wf_def lite_map_lawsD(1) [OF assms] fun_eq_iff)

section \<open>Properties\<close>

text \<open>C19: The reactor wakes whom it should. After any registrations on a new reactor, a signal on a handle
  appends to the wake queue the tokens registered for that handle, each once and in the order
  of registration, and forgets them; the other handles keep theirs. A handle without
  registrations makes the handler panic.\<close>

theorem reactor_wakes_registered_tokens:
  assumes L: "lite_map_laws L" and w: "WAKE_QUEUE w = Some q"
    and run: "register_all L S rs (fst (Reactor_run L c w), srv) = (r, (h, srv'))"
  shows "\<exists>h' k. ReactorHandler_handle_additional_oshandle L K hdl (h, w) =
       (if tokens_for rs hdl = [] then (Panic UnwrapNone, (h', w))
        else (Val (), (h', w\<lparr>WAKE_QUEUE := Some (q\<lparr>vals := vals q @ tokens_for rs hdl\<rparr>), kern := k\<rparr>))) \<and>
     registered L h' = (tokens_for rs)(hdl := [])"
proof -
  have h: "registered L h = tokens_for rs" "reactor_wf L h"
    using register_all_run [OF L, of S rs "fst (Reactor_run L c w)" srv] run reactor_new_registered [OF L, of c w]
    by auto
  then show ?thesis using oshandle_run [OF L h(2) w refl, of K hdl] by metis
qed

theorem reactor_wakes_registered_tokens_witness:
  "\<exists>h h' k. register_all fun_lite_map \<lparr> add_handle_to_list = (#) \<rparr> [(3, 70), (4, 71), (5, 70)]
       (fst (Reactor_run fun_lite_map 9 idle_world), []) = (Val (), (h, [70, 71, 70])) \<and>
     ReactorHandler_handle_additional_oshandle fun_lite_map sim_kernel 70 (h, idle_world) =
       (Val (), (h', idle_world\<lparr>WAKE_QUEUE := Some \<lparr>semaphore_handle = 1, vals = [3, 5]\<rparr>, kern := k\<rparr>)) \<and>
     registered fun_lite_map h' 71 = [4] \<and> registered fun_lite_map h' 70 = []"
proof -
  let ?S = "\<lparr> add_handle_to_list = (#) \<rparr> :: u32 list ipc_server"
  let ?rs = "[(3, 70), (4, 71), (5, 70)] :: (u32 \<times> u32) list"
  let ?h = "\<lparr> wait_tokens = [70 \<mapsto> [3, 5], 71 \<mapsto> [4]] \<rparr> :: (u32 \<rightharpoonup> task_token list) reactor_handler"
  have run: "register_all fun_lite_map ?S ?rs (fst (Reactor_run fun_lite_map 9 idle_world), []) =
      (Val (), (?h, [70, 71, 70]))"
    by (simp add: Reactor_run_def fun_lite_map_def ReactorHandler_handle_request_def io_bind_def ret_def fun_eq_iff)
  have q: "WAKE_QUEUE idle_world = Some \<lparr>semaphore_handle = 1, vals = []\<rparr>" by (simp add: idle_world_def)
  have ts: "tokens_for ?rs 70 = [3, 5]" "tokens_for ?rs 71 = [4]" by (simp_all add: tokens_for_def)
  show ?thesis
    using run reactor_wakes_registered_tokens [OF fun_lite_map_laws q run, of sim_kernel 70]
    by (auto simp: ts)
qed

text \<open>A sleep is armed once. Polled before its deadline with the reactor reachable, a new \<^verbatim>\<open>Sleep\<close>
  creates one timer, sets it to the remaining nanoseconds, which the cast to 64 bits does not change
  below \<open>2 ^ 63\<close>, and registers the polling task for it. Every later poll before the
  deadline does nothing at all: a task that is woken too early is not woken again.\<close>

lemma sleep_arms_one_timer:
  fixes w :: "('f, 'k, 'z) runtime_scheme"
  assumes early: "Instant_now T (kern w) < deadline sl" "timer sl = None"
    and short: "deadline sl - Instant_now T (kern w) < 2 ^ 63"
    and port: "REACTOR_PORT w = Some p"
    and tm: "svcCreateTimer T (kern w) = (tm, k1)" "svcSetTimer T tm d 0 k1 = k2"
    and d: "sint d = int (deadline sl - Instant_now T (kern w))"
    and ipc: "make_session P p k2 = (Inr s, k3)" "ipc_request S s (AddHandle t tm) k3 = (Inr rep, k4)"
  shows "Sleep_poll T P S (make_waker t) sl w = (Val (Pending, sl\<lparr>timer := Some tm\<rparr>), w\<lparr>kern := k4\<rparr>) \<and>
    (\<forall>w' :: ('f, 'k, 'z) runtime_scheme. Instant_now T (kern w') < deadline sl \<longrightarrow>
       Sleep_poll T P S cx (sl\<lparr>timer := Some tm\<rparr>) w' = (Val (Pending, sl\<lparr>timer := Some tm\<rparr>), w')) \<and>
    (\<forall>w' :: ('f, 'k, 'z) runtime_scheme. deadline sl \<le> Instant_now T (kern w') \<longrightarrow>
       Sleep_poll T P S cx (sl\<lparr>timer := Some tm\<rparr>) w' = (Val (Ready (), sl\<lparr>timer := Some tm\<rparr>), w'))"
proof -
  have "sint (word_of_nat n :: i64) = int n" if "n < 2 ^ 63" for n
    using that sint_sbintrunc' [of "int n", where ?'a = 64] by (simp add: signed_take_bit_int_eq_self)
  from this [OF short] d have "sint (word_of_nat (deadline sl - Instant_now T (kern w)) :: i64) = sint d" by simp
  then have "word_of_nat (deadline sl - Instant_now T (kern w)) = d" by (rule signed_word_eqI)
  then show ?thesis using assms
    by (auto simp: Sleep_poll_def add_handle_for_waker_def make_waker_def)
qed

text \<open>A clock that stands at 5, one timer handle, and a service that accepts everything.\<close>

definition still_timers :: "'k timers" where
  "still_timers = \<lparr> Instant_now = (\<lambda>_. 5), svcCreateTimer = (\<lambda>k. (44, k)), svcSetTimer = (\<lambda>_ _ _ k. k) \<rparr>"

definition open_port :: "('k, unit) ipc_port" where
  "open_port = \<lparr> make_session = (\<lambda>_ k. (Inr 1, k)) \<rparr>"

definition yes_session :: "('q, reactor_reply, 'k, unit) ipc_session" where
  "yes_session = \<lparr> ipc_request = (\<lambda>_ _ k. (Inr ReactorOk, k)) \<rparr>"

end
