(* ===== verification/Net_Async.thy ===== *)
theory Net_Async
  imports Net_Tcp Reactor Oneshot
begin

text \<open>
  \<^verbatim>\<open>src/net.rs\<close>: asynchronous sockets. A future that would block leaves its token and what it
  waits for in a queue that it shares with the socket's worker thread; the worker polls
  the socket and wakes the tasks whose event has come. The queues are reached through an
  \<^verbatim>\<open>Arc\<close>, so the world holds them in a list and a socket refers to its queue by position.
\<close>

section \<open>State\<close>

datatype poll_interest = ReadInterest | WriteInterest

type_synonym interest = "task_token \<times> poll_interest"

record async_socket =
  interests_queue :: nat
  socket_inner :: tcp_socket

text \<open>What the closure of a worker thread owns.\<close>

record socket_worker =
  wk_queue :: nat
  wk_socket :: tcp_socket
  read_interests :: "task_token list"
  write_interests :: "task_token list"

record ('f, 'k) async_net_world = "('f, 'k) net_world" +
  queues :: "interest sync_queue list"
  workers :: "socket_worker list"

type_synonym ('f, 'k, 'a) asyncio = "(('f, 'k) async_net_world, 'a) io"

text \<open>Creating a thread of the standard library, with a stack size; it may fail.\<close>

type_synonym 'k thread_spawn = "usize option \<Rightarrow> 'k \<Rightarrow> bool \<times> 'k"

abbreviation SOCKET_WORKER_STACK_SIZE :: usize where "SOCKET_WORKER_STACK_SIZE \<equiv> 1024 * 1024"
abbreviation SOCKET_POLL_TIMEOUT :: i32 where "SOCKET_POLL_TIMEOUT \<equiv> 100"

text \<open>Without a stack size it is \<^verbatim>\<open>std::thread::spawn\<close>, which panics by itself, otherwise \<^verbatim>\<open>Builder::spawn\<close>, unwrapped.\<close>

definition spawn_panic :: "usize option \<Rightarrow> panic" where
  "spawn_panic stack = (case stack of None \<Rightarrow> Explicit ''failed to spawn thread'' | Some _ \<Rightarrow> UnwrapErr)"

definition std_spawn :: "'k thread_spawn \<Rightarrow> usize option \<Rightarrow> ('f, 'k, unit) asyncio" where
  "std_spawn T stack w =
     (case T stack (kern w) of (ok, k) \<Rightarrow>
        (if ok then Val () else Panic (spawn_panic stack), w\<lparr>kern := k\<rparr>))"

section \<open>Sockets\<close>

definition new_queue :: "'k kernel \<Rightarrow> ('f, 'k, nat) asyncio" where
  "new_queue K w =
     (case SyncQueue_new K (kern w) of (q, k) \<Rightarrow> (Val (length (queues w)), w\<lparr>kern := k, queues := queues w @ [q]\<rparr>))"

definition AsyncTcpSocket_wrap ::
  "'k kernel \<Rightarrow> ('k, 'x, 'sa) net_env \<Rightarrow> tcp_socket \<Rightarrow> ('f, 'k, async_socket) asyncio" where
  "AsyncTcpSocket_wrap K E socket =
     io_bind (TcpSocket_set_nonblock E socket) (\<lambda>r.
       io_bind (lift_outcome (unwrap_result r)) (\<lambda>_.
         io_bind (new_queue K) (\<lambda>q. ret \<lparr> interests_queue = q, socket_inner = socket \<rparr>)))"

text \<open>\<^verbatim>\<open>run\<close> up to the thread it starts, whose loop is below.\<close>

definition AsyncTcpSocket_run ::
  "'k thread_spawn \<Rightarrow> ('k, 'x) ipc_port \<Rightarrow> async_socket \<Rightarrow> u32 \<Rightarrow> ('f, 'k, unit) asyncio" where
  "AsyncTcpSocket_run T P self executor =
     io_bind (on_kern (\<lambda>k. case make_session P executor k of (r, k') \<Rightarrow> (unwrap_result r, k'))) (\<lambda>_.
       io_bind (std_spawn T (Some SOCKET_WORKER_STACK_SIZE)) (\<lambda>_ w.
         (Val (), w\<lparr>workers := workers w @ [\<lparr> wk_queue = interests_queue self, wk_socket = socket_inner self,
            read_interests = [], write_interests = [] \<rparr>]\<rparr>)))"

text \<open>Code that owns a socket which it has not yet handed on: a panic drops, that is closes, it.\<close>

definition guarding ::
  "('k, 'x, 'sa) net_env \<Rightarrow> tcp_socket \<Rightarrow> ('f, 'k, 'a) asyncio \<Rightarrow> ('f, 'k, 'a) asyncio" where
  "guarding E s m w =
     (case m w of (Val a, w1) \<Rightarrow> (Val a, w1) | (Panic p, w1) \<Rightarrow> (Panic p, snd (SocketHandle_drop E (handle s) w1)))"

text \<open>The closures of \<^verbatim>\<open>connect\<close> and \<^verbatim>\<open>accept\<close> on the received result, which are the same.\<close>

definition adopt ::
  "'k kernel \<Rightarrow> 'k thread_spawn \<Rightarrow> ('k, 'x) ipc_port \<Rightarrow> ('k, 'x, 'sa) net_env \<Rightarrow>
   ('x, tcp_socket) bunny_result option \<Rightarrow> ('f, 'k, ('x, async_socket) bunny_result) asyncio" where
  "adopt K T P E v =
     io_bind (lift_outcome (unwrap v)) (\<lambda>r. case r of
         Inl e \<Rightarrow> ret (Inl e)
       | Inr s \<Rightarrow> guarding E s (io_bind (AsyncTcpSocket_wrap K E s) (\<lambda>v.
           io_bind (\<lambda>w. (unwrap (EXECUTOR_PORT w), w)) (\<lambda>port.
             io_bind (AsyncTcpSocket_run T P v port) (\<lambda>_. ret (Inr v))))))"

text \<open>
  \<^verbatim>\<open>connect\<close> and \<^verbatim>\<open>accept\<close> start a thread and return a future. The threads: a panic of the call
  unwinds, which drops the sender.
\<close>

type_synonym ('f, 'k, 'x) connecting = "('x, tcp_socket) bunny_result oneshot \<times> ('f, 'k) async_net_world"

definition send_result ::
  "'k kernel \<Rightarrow> ('f, 'k, ('x, tcp_socket) bunny_result) asyncio \<Rightarrow> (('f, 'k, 'x) connecting, unit) io" where
  "send_result K call = (\<lambda>(c, w).
     case call w of
       (Val r, w1) \<Rightarrow> io_bind (OneshotSender_send K r) (\<lambda>_. ret ()) (c, w1)
     | (Panic p, w1) \<Rightarrow> io_bind (OneshotSender_drop K) (\<lambda>_. panic_with p) (c, w1))"

definition AsyncTcpSocket_connect ::
  "'k thread_spawn \<Rightarrow> 'e resolved \<Rightarrow> ('f, 'k, ('x, tcp_socket) bunny_result oneshot \<times> socket_addr) asyncio" where
  "AsyncTcpSocket_connect T addrs =
     io_bind (lift_outcome (first_addr addrs)) (\<lambda>addr. io_bind (std_spawn T None) (\<lambda>_. ret (oneshot_new, addr)))"

definition connect_thread ::
  "'k kernel \<Rightarrow> ('k, 'x, 'sa) net_env \<Rightarrow> socket_addr \<Rightarrow> (('f, 'k, 'x) connecting, unit) io" where
  "connect_thread K E a = send_result K (TcpSocket_connect E (Inr [a] :: unit resolved))"

text \<open>An \<^verbatim>\<open>AsyncTcpListener\<close> is the listener it wraps.\<close>

definition AsyncTcpListener_wrap :: "tcp_listener \<Rightarrow> tcp_listener" where
  "AsyncTcpListener_wrap socket = socket"

definition AsyncTcpSocket_bind ::
  "('k, 'x, 'sa) net_env \<Rightarrow> 'e resolved \<Rightarrow> ('f, 'k, ('x, tcp_listener) bunny_result) asyncio" where
  "AsyncTcpSocket_bind E addrs =
     io_bind (TcpSocket_bind E addrs) (\<lambda>r. ret (case r of Inl e \<Rightarrow> Inl e | Inr l \<Rightarrow> Inr (AsyncTcpListener_wrap l)))"

definition AsyncTcpListener_accept ::
  "'k thread_spawn \<Rightarrow> tcp_listener \<Rightarrow> ('f, 'k, ('x, tcp_socket) bunny_result oneshot \<times> tcp_listener) asyncio" where
  "AsyncTcpListener_accept T self = io_bind (std_spawn T None) (\<lambda>_. ret (oneshot_new, self))"

definition accept_thread ::
  "'k kernel \<Rightarrow> ('k, 'x, 'sa) net_env \<Rightarrow> tcp_listener \<Rightarrow> (('f, 'k, 'x) connecting, unit) io" where
  "accept_thread K E l = send_result K (TcpListener_accept E l)"

text \<open>The future both return: the receiver, mapped with the closure.\<close>

definition adopt_poll ::
  "'k kernel \<Rightarrow> 'k thread_spawn \<Rightarrow> ('k, 'x) ipc_port \<Rightarrow> ('k, 'x, 'sa) net_env \<Rightarrow> waker \<Rightarrow>
   (('f, 'k, 'x) connecting, ('x, async_socket) bunny_result poll) io" where
  "adopt_poll K T P E cx = (\<lambda>(c, w).
     case OneshotReceiver_poll cx c of
       (Pending, c') \<Rightarrow> (Val Pending, (c', w))
     | (Ready v, c') \<Rightarrow>
         (case adopt K T P E v w of (Val r, w') \<Rightarrow> (Val (Ready r), (c', w')) | (Panic p, w') \<Rightarrow> (Panic p, (c', w'))))"

section \<open>Futures\<close>

definition add_interest :: "'k kernel \<Rightarrow> async_socket \<Rightarrow> interest \<Rightarrow> ('f, 'k, unit) asyncio" where
  "add_interest K s i w =
     (case SyncQueue_add K i (queues w ! interests_queue s) (kern w) of
        (q, k) \<Rightarrow> (Val (), w\<lparr>kern := k, queues := (queues w)[interests_queue s := q]\<rparr>))"

text \<open>\<^verbatim>\<open>Err(BunnyError::Libc(libc::EAGAIN))\<close>\<close>

definition would_block :: "('k, 'x, 'sa) net_env \<Rightarrow> ('x, 'a) bunny_result \<Rightarrow> bool" where
  "would_block E r = (case r of Inl (Libc e) \<Rightarrow> e = libc E ''EAGAIN'' | _ \<Rightarrow> False)"

text \<open>\<^verbatim>\<open>Recv\<close> is given by its socket and its buffer, which is returned, \<^verbatim>\<open>SendFuture\<close> by its socket and data.\<close>

definition Recv_poll ::
  "'k kernel \<Rightarrow> ('k, 'x, 'sa) net_env \<Rightarrow> waker \<Rightarrow> async_socket \<Rightarrow> u8 list \<Rightarrow>
   ('f, 'k, ('x, usize) bunny_result poll \<times> u8 list) asyncio" where
  "Recv_poll K E cx socket data =
     io_bind (TcpSocket_recv E (socket_inner socket) data) (\<lambda>(r, data').
       if would_block E r
       then io_bind (add_interest K socket (TaskToken_from_waker cx, ReadInterest)) (\<lambda>_. ret (Pending, data'))
       else ret (Ready r, data'))"

definition SendFuture_poll ::
  "'k kernel \<Rightarrow> ('k, 'x, 'sa) net_env \<Rightarrow> waker \<Rightarrow> async_socket \<Rightarrow> u8 list \<Rightarrow>
   ('f, 'k, ('x, unit) bunny_result poll) asyncio" where
  "SendFuture_poll K E cx socket data =
     io_bind (TcpSocket_send E (socket_inner socket) data) (\<lambda>r.
       if would_block E r
       then io_bind (add_interest K socket (TaskToken_from_waker cx, WriteInterest)) (\<lambda>_. ret Pending)
       else ret (Ready r))"

section \<open>The worker\<close>

text \<open>\<^verbatim>\<open>for (task, interest) in queue.drain(..)\<close>\<close>

fun register_interests :: "interest list \<Rightarrow> socket_worker \<Rightarrow> socket_worker" where
  "register_interests [] wk = wk"
| "register_interests ((task, ReadInterest) # is) wk =
     register_interests is (wk\<lparr>read_interests := read_interests wk @ [task]\<rparr>)"
| "register_interests ((task, WriteInterest) # is) wk =
     register_interests is (wk\<lparr>write_interests := write_interests wk @ [task]\<rparr>)"

definition drain_queue :: "socket_worker \<Rightarrow> ('f, 'k, socket_worker) asyncio" where
  "drain_queue wk w =
     (let q = queues w ! wk_queue wk in
      (Val (register_interests (vals q) wk), w\<lparr>queues := (queues w)[wk_queue wk := q\<lparr>vals := []\<rparr>]\<rparr>))"

text \<open>\<^verbatim>\<open>for waker in interests.drain(..) { executor.wake(waker).unwrap() }\<close>\<close>

fun wake_each :: "'k kernel \<Rightarrow> task_token list \<Rightarrow> ('f, 'k, unit) asyncio" where
  "wake_each K [] = ret ()"
| "wake_each K (task # ts) =
     io_bind (ExecutorSession_wake K task :: ('f, 'k, (unit, unit) bunny_result) asyncio) (\<lambda>r.
       io_bind (lift_outcome (unwrap_result r)) (\<lambda>_. wake_each K ts))"

definition contains_flag :: "poll_flags \<Rightarrow> poll_flags \<Rightarrow> bool" where
  "contains_flag flags f \<longleftrightarrow> and flags f = f"

definition poll_request :: "socket_worker \<Rightarrow> poll_flags \<times> i32" where
  "poll_request wk =
     (let has_write = write_interests wk \<noteq> [] in
      (if has_write then or POLLIN POLLOUT else POLLIN, if has_write then - 1 else SOCKET_POLL_TIMEOUT))"

text \<open>The body of the loop after the wait.\<close>

definition serve_interests ::
  "'k kernel \<Rightarrow> ('k, 'x, 'sa) net_env \<Rightarrow> socket_worker \<Rightarrow> ('f, 'k, socket_worker) asyncio" where
  "serve_interests K E wk =
     io_bind (drain_queue wk) (\<lambda>wk.
       io_bind (TcpSocket_poll E (wk_socket wk) (fst (poll_request wk)) (snd (poll_request wk))) (\<lambda>r.
         io_bind (lift_outcome (unwrap_result r)) (\<lambda>out.
           io_bind (if contains_flag out POLLOUT then wake_each K (write_interests wk) else ret ()) (\<lambda>_.
             let wk = (if contains_flag out POLLOUT then wk\<lparr>write_interests := []\<rparr> else wk) in
             io_bind (if contains_flag out POLLIN then wake_each K (read_interests wk) else ret ()) (\<lambda>_.
               ret (if contains_flag out POLLIN then wk\<lparr>read_interests := []\<rparr> else wk))))))"

definition socket_worker_round ::
  "'k kernel \<Rightarrow> ('k, 'x, 'sa) net_env \<Rightarrow> socket_worker \<Rightarrow> ('f, 'k) async_net_world \<Rightarrow>
   (socket_worker outcome \<times> ('f, 'k) async_net_world) blocking" where
  "socket_worker_round K E wk w =
     (if read_interests wk = [] \<and> write_interests wk = []
      then (case SyncQueue_wait K (codes E) i64_MAX (queues w ! wk_queue wk) (kern w) of
              None \<Rightarrow> Blocks
            | Some (r, k) \<Rightarrow>
                Returns (io_bind (lift_outcome (unwrap_result r)) (\<lambda>_. serve_interests K E wk) (w\<lparr>kern := k\<rparr>)))
      else Returns (serve_interests K E wk w))"

section \<open>Lemmas\<close>

lemma lift_outcome_Val [simp]: "lift_outcome (Val a) = ret a"
  by (simp add: lift_outcome_def ret_def)

lemma wake_each_eq: "wake_each K ts = wake_all K ts"
  by (induction ts) (simp_all add: ExecutorSession_wake_def io_bind_assoc)

text \<open>The tokens of one kind, in the order of the queue.\<close>

definition tokens_of :: "poll_interest \<Rightarrow> interest list \<Rightarrow> task_token list" where
  "tokens_of i is = map fst (filter (\<lambda>x. snd x = i) is)"

lemma register_interests_eq:
  "register_interests is wk = wk\<lparr>read_interests := read_interests wk @ tokens_of ReadInterest is,
     write_interests := write_interests wk @ tokens_of WriteInterest is\<rparr>"
  by (induction "is" wk rule: register_interests.induct) (simp_all add: tokens_of_def)

text \<open>What a poll result means for the interests: those that are met, and what the worker keeps.\<close>

definition settle :: "poll_flags \<Rightarrow> socket_worker \<Rightarrow> interest list \<times> socket_worker" where
  "settle out wk =
     (map (\<lambda>t. (t, WriteInterest)) (if contains_flag out POLLOUT then write_interests wk else []) @
      map (\<lambda>t. (t, ReadInterest)) (if contains_flag out POLLIN then read_interests wk else []),
      wk\<lparr>read_interests := (if contains_flag out POLLIN then [] else read_interests wk),
         write_interests := (if contains_flag out POLLOUT then [] else write_interests wk)\<rparr>)"

lemma wake_each_run:
  assumes "WAKE_QUEUE w = Some q"
  shows "\<exists>k. wake_each K ts w = (Val (), w\<lparr>WAKE_QUEUE := Some (q\<lparr>vals := vals q @ ts\<rparr>), kern := k\<rparr>)"
  unfolding wake_each_eq by (rule wake_all_run [OF assms])

lemma wake_each_if_run:
  assumes "WAKE_QUEUE w = Some q"
  shows "\<exists>k. (if b then wake_each K ts else ret ()) w =
    (Val (), w\<lparr>WAKE_QUEUE := Some (q\<lparr>vals := vals q @ (if b then ts else [])\<rparr>), kern := k\<rparr>)"
  using wake_each_run [OF assms, of K "if b then ts else []"] by (cases b) auto

text \<open>The worker and the world once the queue is drained.\<close>

definition taken_on :: "('f, 'k) async_net_world \<Rightarrow> socket_worker \<Rightarrow> socket_worker" where
  "taken_on w wk = register_interests (vals (queues w ! wk_queue wk)) wk"

definition emptied :: "socket_worker \<Rightarrow> ('f, 'k) async_net_world \<Rightarrow> ('f, 'k) async_net_world" where
  "emptied wk w = w\<lparr>queues := (queues w)[wk_queue wk := (queues w ! wk_queue wk)\<lparr>vals := []\<rparr>]\<rparr>"

text \<open>One pass of the loop does to the shared state what \<^const>\<open>settle\<close> says.\<close>

lemma serve_interests_run:
  assumes q: "WAKE_QUEUE w = Some q"
    and poll: "TcpSocket_poll E (wk_socket (taken_on w wk)) (fst (poll_request (taken_on w wk))) (snd (poll_request (taken_on w wk))) (emptied wk w) =
      (Val (Inr out), (emptied wk w)\<lparr>kern := k\<rparr>)"
  shows "\<exists>k'. serve_interests K E wk w =
    (Val (snd (settle out (taken_on w wk))),
     (emptied wk w)\<lparr>WAKE_QUEUE := Some (q\<lparr>vals := vals q @ map fst (fst (settle out (taken_on w wk)))\<rparr>), kern := k'\<rparr>)"
proof -
  let ?wk = "taken_on w wk" and ?w = "emptied wk w"
  let ?ws = "if contains_flag out POLLOUT then write_interests ?wk else []"
  let ?rs = "if contains_flag out POLLIN then read_interests ?wk else []"
  have q1: "WAKE_QUEUE (?w\<lparr>kern := k\<rparr>) = Some q" using q by (simp add: emptied_def)
  from wake_each_if_run [OF q1, of "contains_flag out POLLOUT" K "write_interests ?wk"] obtain k1 where
    A: "(if contains_flag out POLLOUT then wake_each K (write_interests ?wk) else ret ()) (?w\<lparr>kern := k\<rparr>) =
      (Val (), ?w\<lparr>WAKE_QUEUE := Some (q\<lparr>vals := vals q @ ?ws\<rparr>), kern := k1\<rparr>)" by auto
  have q2: "WAKE_QUEUE (?w\<lparr>WAKE_QUEUE := Some (q\<lparr>vals := vals q @ ?ws\<rparr>), kern := k1\<rparr>) = Some (q\<lparr>vals := vals q @ ?ws\<rparr>)"
    by simp
  from wake_each_if_run [OF q2, of "contains_flag out POLLIN" K "read_interests ?wk"] obtain k2 where
    B: "(if contains_flag out POLLIN then wake_each K (read_interests ?wk) else ret ())
        (?w\<lparr>WAKE_QUEUE := Some (q\<lparr>vals := vals q @ ?ws\<rparr>), kern := k1\<rparr>) =
      (Val (), ?w\<lparr>WAKE_QUEUE := Some (q\<lparr>vals := vals q @ ?ws @ ?rs\<rparr>), kern := k2\<rparr>)" by auto
  have D: "drain_queue wk w = (Val ?wk, ?w)" by (simp add: drain_queue_def taken_on_def emptied_def Let_def)
  have "serve_interests K E wk w = (Val (snd (settle out ?wk)), ?w\<lparr>WAKE_QUEUE := Some (q\<lparr>vals := vals q @ ?ws @ ?rs\<rparr>), kern := k2\<rparr>)"
    using A B by (auto simp: serve_interests_def io_bind_run D poll Let_def settle_def split: if_splits)
  then show ?thesis by (auto simp: settle_def comp_def)
qed

section \<open>A worker against its futures\<close>

text \<open>
  The loop of one worker, interleaved with any number of futures that add interests, each in
  two steps. The service may answer a poll with any flags, and everything else may change the
  kernel as long as it takes no permit of the queue's semaphore. The last two fields are
  history: the interests added so far, and those whose task was woken.
\<close>

datatype worker_pc = AtTop | AtDrain | AtPoll

record 'k sock_sys =
  ss_kern :: 'k
  ss_queue :: "interest sync_queue"
  ss_adds :: nat
  ss_worker :: socket_worker
  ss_pc :: worker_pc
  ss_asked :: "interest multiset"
  ss_woken :: "interest multiset"

definition sock_start :: "'k kernel \<Rightarrow> 'k sock_sys \<Rightarrow> bool" where
  "sock_start K s \<longleftrightarrow> vals (ss_queue s) = [] \<and> ss_adds s = 0 \<and> ss_pc s = AtTop \<and> ss_asked s = {#} \<and> ss_woken s = {#} \<and>
     read_interests (ss_worker s) = [] \<and> write_interests (ss_worker s) = [] \<and>
     0 < sem_max K (ss_kern s) (semaphore_handle (ss_queue s))"

inductive sock_step :: "'k kernel \<Rightarrow> 'x ctru \<Rightarrow> 'k sock_sys \<Rightarrow> 'k sock_sys \<Rightarrow> bool" for K C where
  push: "sock_step K C s (s\<lparr>ss_queue := push_back i (ss_queue s), ss_adds := Suc (ss_adds s), ss_asked := add_mset i (ss_asked s)\<rparr>)"
| release: "ss_adds s = Suc n \<Longrightarrow>
    sock_step K C s (s\<lparr>ss_kern := release_one K (semaphore_handle (ss_queue s)) (ss_kern s), ss_adds := n\<rparr>)"
| wait: "ss_pc s = AtTop \<Longrightarrow> read_interests (ss_worker s) = [] \<Longrightarrow> write_interests (ss_worker s) = [] \<Longrightarrow>
    SyncQueue_wait K C i64_MAX (ss_queue s) (ss_kern s) = Some (Inr (), k) \<Longrightarrow>
    sock_step K C s (s\<lparr>ss_kern := k, ss_pc := AtDrain\<rparr>)"
| skip: "ss_pc s = AtTop \<Longrightarrow> read_interests (ss_worker s) \<noteq> [] \<or> write_interests (ss_worker s) \<noteq> [] \<Longrightarrow>
    sock_step K C s (s\<lparr>ss_pc := AtDrain\<rparr>)"
| drain: "ss_pc s = AtDrain \<Longrightarrow>
    sock_step K C s (s\<lparr>ss_worker := register_interests (vals (ss_queue s)) (ss_worker s),
      ss_queue := (ss_queue s)\<lparr>vals := []\<rparr>, ss_pc := AtPoll\<rparr>)"
| poll: "ss_pc s = AtPoll \<Longrightarrow> settle out (ss_worker s) = (met, wk) \<Longrightarrow>
    sock_step K C s (s\<lparr>ss_worker := wk, ss_woken := ss_woken s + mset met, ss_pc := AtTop\<rparr>)"
| other: "keeps_permits K (ss_kern s) k {semaphore_handle (ss_queue s)} \<Longrightarrow> sock_step K C s (s\<lparr>ss_kern := k\<rparr>)"

definition held :: "socket_worker \<Rightarrow> interest multiset" where
  "held wk = image_mset (\<lambda>t. (t, ReadInterest)) (mset (read_interests wk)) +
     image_mset (\<lambda>t. (t, WriteInterest)) (mset (write_interests wk))"

lemma tokens_of_split:
  "image_mset (\<lambda>t. (t, ReadInterest)) (mset (tokens_of ReadInterest is)) +
   image_mset (\<lambda>t. (t, WriteInterest)) (mset (tokens_of WriteInterest is)) = mset is"
proof (induction "is")
  case (Cons x xs)
  then show ?case by (cases x; cases "snd x") (auto simp: tokens_of_def)
qed (simp add: tokens_of_def)

lemma held_register: "held (register_interests is wk) = held wk + mset is"
  using tokens_of_split [of "is"] by (simp add: held_def register_interests_eq add_ac)

lemma held_settle: "settle out wk = (met, wk') \<Longrightarrow> held wk = held wk' + mset met"
  by (auto simp: settle_def held_def add_ac)

definition sock_inv :: "'k kernel \<Rightarrow> 'k sock_sys \<Rightarrow> bool" where
  "sock_inv K s \<longleftrightarrow> ss_asked s = mset (vals (ss_queue s)) + held (ss_worker s) + ss_woken s \<and>
     0 < sem_max K (ss_kern s) (semaphore_handle (ss_queue s)) \<and>
     (ss_pc s = AtDrain \<or> announced K (ss_kern s) (ss_queue s) (ss_adds s))"

lemma sock_inv_start: "sock_start K s \<Longrightarrow> sock_inv K s"
  by (simp add: sock_start_def sock_inv_def held_def announced_def)

lemma SyncQueue_wait_Some:
  assumes "SyncQueue_wait K C i64_MAX q k = Some (r, k')"
  obtains c where "svcWaitSynchronization K (semaphore_handle q) i64_MAX k = Some (c, k')"
  using assms by (auto simp: SyncQueue_wait_def split: option.splits prod.splits)

lemma sock_inv_step:
  assumes "sock_step K C s t" "release_law K" "wait_law K" "sock_inv K s"
  shows "sock_inv K t"
  using assms(1)
proof (cases rule: sock_step.cases)
  case (push i)
  then show ?thesis using assms(4) by (simp add: sock_inv_def announced_def)
next
  case (release n)
  then show ?thesis
    using assms(4) release_positive [OF assms(2)] release_lawD(2) [OF assms(2)]
    by (simp add: sock_inv_def announced_def release_one_def)
next
  case (wait k)
  obtain c where "svcWaitSynchronization K (semaphore_handle (ss_queue s)) i64_MAX (ss_kern s) = Some (c, k)"
    by (rule SyncQueue_wait_Some [OF wait(5)])
  then show ?thesis using assms(4) wait(1) wait_law_Some(4) [OF assms(3)] by (simp add: sock_inv_def)
next
  case skip
  then show ?thesis using assms(4) by (simp add: sock_inv_def)
next
  case drain
  then show ?thesis using assms(4) by (simp add: sock_inv_def announced_def held_register add_ac)
next
  case (poll out met wk)
  then show ?thesis using assms(4) held_settle [OF poll(3)] by (simp add: sock_inv_def add_ac)
next
  case (other k)
  then show ?thesis
    using assms(4) keeps_permitsD(2) [OF other(2)] keeps_announced [OF other(2), of "ss_queue s"] by (auto simp: sock_inv_def)
qed

interpretation sock: inductive_invariant "sock_start K" "sock_step K C"
  "\<lambda>s. release_law K \<and> wait_law K \<longrightarrow> sock_inv K s" for K C
  by unfold_locales (auto intro: sock_inv_start sock_inv_step)

section \<open>The code of the worker is a run of the system\<close>

text \<open>
  One worker and its futures at the level of the code, with the interests added so far and the
  tokens the worker has put into the wake queue.
\<close>

type_synonym ('f, 'k) sock_state = "socket_worker \<times> ('f, 'k) async_net_world \<times> interest multiset \<times> task_token multiset"

inductive sock_life :: "'k kernel \<Rightarrow> ('k, 'x, 'sa) net_env \<Rightarrow> ('f, 'k) sock_state \<Rightarrow> ('f, 'k) sock_state \<Rightarrow> bool" for K E where
  interest: "add_interest K s i w = (Val (), w') \<Longrightarrow> interests_queue s = wk_queue wk \<Longrightarrow>
     sock_life K E (wk, w, asked, don) (wk, w', add_mset i asked, don)"
| round: "socket_worker_round K E wk w = Returns (Val wk', w') \<Longrightarrow> queued_wakes w' = queued_wakes w @ ts \<Longrightarrow>
     sock_life K E (wk, w, asked, don) (wk', w', asked, don + mset ts)"
| elsewhere: "WAKE_QUEUE w' \<noteq> None \<Longrightarrow> length (queues w') = length (queues w) \<Longrightarrow> queues w' ! wk_queue wk = queues w ! wk_queue wk \<Longrightarrow>
     (\<And>H. keeps_permits K (kern w) (kern w') H) \<Longrightarrow> sock_life K E (wk, w, asked, don) (wk, w', asked, don)"

fun sock_displays :: "('f, 'k) sock_state \<Rightarrow> 'k sock_sys \<Rightarrow> bool" where
  "sock_displays (wk, w, asked, don) s \<longleftrightarrow> wk_queue wk < length (queues w) \<and> WAKE_QUEUE w \<noteq> None \<and>
     ss_queue s = queues w ! wk_queue wk \<and> ss_kern s = kern w \<and> ss_worker s = wk \<and> ss_adds s = 0 \<and> ss_pc s = AtTop \<and>
     ss_asked s = asked \<and> image_mset fst (ss_woken s) = don"

definition sock_life_start :: "'k kernel \<Rightarrow> ('f, 'k) sock_state \<Rightarrow> bool" where
  "sock_life_start K c \<longleftrightarrow> (\<exists>s. sock_start K s \<and> sock_displays c s)"

lemma TcpSocket_poll_kern: "\<exists>r k. TcpSocket_poll E s flags timeout w = (r, w\<lparr>kern := k\<rparr>)"
proof (cases "SOCKET_SERVICES w")
  case None
  then show ?thesis
    by (intro exI [of _ "Panic UnwrapNone"] exI [of _ "kern w"]) (simp add: TcpSocket_poll_def services_def io_bind_run)
next
  case (Some soc)
  then show ?thesis
    by (auto simp: TcpSocket_poll_def services_def io_bind_run try_bind_run on_kern_def
        split: prod.split outcome.split sum.split list.split)
qed

lemma poll_quiet: "quiet_session K S \<Longrightarrow> quiet K (SocketService_poll S C l h fds out timeout)"
  by (auto simp: quiet_def SocketService_poll_def posix_call_state quiet_request keeps_permits_refl)

lemma permits_kept_serve:
  assumes "release_law K" "quiet_session K (ses E)"
  shows "permits_kept K (serve_interests K E wk)"
proof -
  have "permits_kept K services" "permits_kept K (drain_queue wk)"
    by (simp_all add: permits_kept_def services_def drain_queue_def Let_def keeps_permits_refl)
  moreover have "permits_kept K (wake_each K ts)" for ts
    unfolding wake_each_eq by (induction ts) (simp_all only: wake_all.simps permits_kept_bind permits_kept_basic assms(1))
  ultimately show ?thesis
    unfolding serve_interests_def TcpSocket_poll_def try_bind_def Let_def
    by (intro permits_kept_bind permits_kept_basic poll_quiet assms) (auto intro!: permits_kept_bind permits_kept_basic split: sum.split)
qed

text \<open>A pass that returns is what \<^const>\<open>settle\<close> says, for the flags the service gave.\<close>

lemma serve_interests_Val:
  assumes "WAKE_QUEUE w = Some q" "serve_interests K E wk w = (Val wk', w')"
  obtains out k where "wk' = snd (settle out (taken_on w wk))"
    "w' = (emptied wk w)\<lparr>WAKE_QUEUE := Some (q\<lparr>vals := vals q @ map fst (fst (settle out (taken_on w wk)))\<rparr>), kern := k\<rparr>"
proof -
  obtain r k where p: "TcpSocket_poll E (wk_socket (taken_on w wk)) (fst (poll_request (taken_on w wk)))
      (snd (poll_request (taken_on w wk))) (emptied wk w) = (r, (emptied wk w)\<lparr>kern := k\<rparr>)"
    using TcpSocket_poll_kern [of E _ _ _ "emptied wk w"] by blast
  have "drain_queue wk w = (Val (taken_on w wk), emptied wk w)" by (simp add: drain_queue_def taken_on_def emptied_def Let_def)
  with assms(2) p obtain out where "r = Val (Inr out)"
    by (cases r) (auto simp: serve_interests_def io_bind_run unwrap_result_def split: sum.splits)
  with serve_interests_run [OF assms(1)] p assms(2) that show thesis by (metis Pair_inject outcome.inject(1))
qed

lemma sock_other_run:
  assumes "sock_displays (wk, w, a, d) s" "WAKE_QUEUE w' \<noteq> None" "length (queues w') = length (queues w)"
    "queues w' ! wk_queue wk = queues w ! wk_queue wk" "\<And>H. keeps_permits K (kern w) (kern w') H"
  shows "\<exists>s'. (sock_step K C)\<^sup>*\<^sup>* s s' \<and> sock_displays (wk, w', a, d) s'"
proof (intro exI conjI)
  show "(sock_step K C)\<^sup>*\<^sup>* s (s\<lparr>ss_kern := kern w'\<rparr>)"
    using sock_step.other [of K s "kern w'" C] assms(1,5) by auto
qed (use assms in auto)

lemma sock_interest_run:
  assumes d: "sock_displays (wk, w, a, d) s" and r: "add_interest K sk i w = (Val (), w')" and q: "interests_queue sk = wk_queue wk"
  shows "\<exists>s'. (sock_step K C)\<^sup>*\<^sup>* s s' \<and> sock_displays (wk, w', add_mset i a, d) s'"
proof -
  let ?q = "queues w ! wk_queue wk"
  let ?s1 = "s\<lparr>ss_queue := push_back i ?q, ss_adds := Suc 0, ss_asked := add_mset i a\<rparr>"
  let ?s2 = "s\<lparr>ss_kern := release_one K (semaphore_handle ?q) (kern w), ss_queue := push_back i ?q, ss_asked := add_mset i a\<rparr>"
  have "sock_step K C s ?s1" using sock_step.push [of K C s i] d by simp
  moreover have "sock_step K C ?s1 ?s2" using sock_step.release [of ?s1 0 K C] d by (cases s) simp
  ultimately have "(sock_step K C)\<^sup>*\<^sup>* s ?s2" by (meson r_into_rtranclp rtranclp_trans)
  moreover have "sock_displays (wk, w', add_mset i a, d) ?s2"
    using d r q by (auto simp: add_interest_def SyncQueue_add_def)
  ultimately show ?thesis by blast
qed

lemma sock_serve_run:
  assumes laws: "release_law K" "quiet_session K (ses E)"
    and d: "sock_displays (wk, w, a, d) s" and r: "serve_interests K E wk w = (Val wk', w')" and ts: "queued_wakes w' = queued_wakes w @ ts"
  shows "\<exists>s'. (sock_step K C)\<^sup>*\<^sup>* (s\<lparr>ss_pc := AtDrain\<rparr>) s' \<and> sock_displays (wk', w', a, d + mset ts) s'"
proof -
  obtain q where q: "WAKE_QUEUE w = Some q" using d by auto
  obtain out k where o: "wk' = snd (settle out (taken_on w wk))"
    "w' = (emptied wk w)\<lparr>WAKE_QUEUE := Some (q\<lparr>vals := vals q @ map fst (fst (settle out (taken_on w wk)))\<rparr>), kern := k\<rparr>"
    by (rule serve_interests_Val [OF q r])
  let ?met = "fst (settle out (taken_on w wk))"
  have ts': "ts = map fst ?met" using ts q by (simp add: o(2) queued_wakes_def)
  let ?s1 = "s\<lparr>ss_worker := taken_on w wk, ss_queue := (ss_queue s)\<lparr>vals := []\<rparr>, ss_pc := AtPoll\<rparr>"
  let ?s2 = "s\<lparr>ss_worker := wk', ss_queue := (ss_queue s)\<lparr>vals := []\<rparr>, ss_pc := AtTop, ss_woken := ss_woken s + mset ?met\<rparr>"
  have "sock_step K C (s\<lparr>ss_pc := AtDrain\<rparr>) ?s1"
    using sock_step.drain [of "s\<lparr>ss_pc := AtDrain\<rparr>" K C] d by (simp add: taken_on_def)
  moreover have "sock_step K C ?s1 ?s2"
    using sock_step.poll [of ?s1 out ?met wk' K C] by (cases s) (simp add: o(1))
  moreover have "keeps_permits K (ss_kern ?s2) k {semaphore_handle (ss_queue ?s2)}"
    using permits_kept_serve [OF laws, of wk, unfolded permits_kept_def, rule_format, of w] r d by (simp add: o(2))
  then have "sock_step K C ?s2 (?s2\<lparr>ss_kern := k\<rparr>)" by (rule sock_step.other)
  ultimately have "(sock_step K C)\<^sup>*\<^sup>* (s\<lparr>ss_pc := AtDrain\<rparr>) (?s2\<lparr>ss_kern := k\<rparr>)" by (meson r_into_rtranclp rtranclp_trans)
  moreover have "wk_queue wk' = wk_queue wk" by (simp add: o(1) settle_def taken_on_def register_interests_eq)
  then have "sock_displays (wk', w', a, d + mset ts) (?s2\<lparr>ss_kern := k\<rparr>)" using d by (auto simp: o(2) ts' emptied_def)
  ultimately show ?thesis by blast
qed

lemma sock_round_run:
  assumes laws: "release_law K" "wait_law K" "quiet_session K (ses E)"
    and d: "sock_displays (wk, w, a, d) s" and r: "socket_worker_round K E wk w = Returns (Val wk', w')"
    and ts: "queued_wakes w' = queued_wakes w @ ts"
  shows "\<exists>s'. (sock_step K (codes E))\<^sup>*\<^sup>* s s' \<and> sock_displays (wk', w', a, d + mset ts) s'"
proof (cases "read_interests wk = [] \<and> write_interests wk = []")
  case True
  then obtain k where k: "SyncQueue_wait K (codes E) i64_MAX (queues w ! wk_queue wk) (kern w) = Some (Inr (), k)"
    and sv: "serve_interests K E wk (w\<lparr>kern := k\<rparr>) = (Val wk', w')"
    using r by (auto simp: socket_worker_round_def io_bind_run unwrap_result_def split: option.splits sum.splits)
  have step: "sock_step K (codes E) s (s\<lparr>ss_kern := k, ss_pc := AtDrain\<rparr>)"
    using sock_step.wait [of s K "codes E" k] k d True by simp
  have "sock_displays (wk, w\<lparr>kern := k\<rparr>, a, d) (s\<lparr>ss_kern := k\<rparr>)" "queued_wakes w' = queued_wakes (w\<lparr>kern := k\<rparr>) @ ts"
    using d ts by (auto simp: queued_wakes_def)
  from sock_serve_run [OF laws(1,3) this(1) sv this(2), of "codes E"] step show ?thesis
    by (blast intro: converse_rtranclp_into_rtranclp)
next
  case False
  then have sv: "serve_interests K E wk w = (Val wk', w')" using r by (auto simp: socket_worker_round_def)
  have "sock_step K (codes E) s (s\<lparr>ss_pc := AtDrain\<rparr>)" using sock_step.skip [of s K "codes E"] d False by auto
  then show ?thesis using sock_serve_run [OF laws(1,3) d sv ts] by (blast intro: converse_rtranclp_into_rtranclp)
qed

definition sock_code_laws :: "'k kernel \<Rightarrow> ('k, 'x, 'sa) net_env \<Rightarrow> bool" where
  "sock_code_laws K E \<longleftrightarrow> release_law K \<and> wait_law K \<and> quiet_session K (ses E)"

lemma sock_life_sim:
  assumes "sock_code_laws K E" "sock_displays c s" "sock_life K E c c'"
  shows "\<exists>s'. (sock_step K (codes E))\<^sup>*\<^sup>* s s' \<and> sock_displays c' s'"
  using assms(3)
proof cases
  case (interest sk i w w' wk asked don)
  then show ?thesis using sock_interest_run assms(2) by blast
next
  case (round wk w wk' w' ts asked don)
  then show ?thesis
    using sock_round_run [of K E wk w asked don s wk' w' ts] assms(1,2) unfolding sock_code_laws_def by blast
next
  case (elsewhere w' w wk asked don)
  then show ?thesis using sock_other_run [of wk w asked don s w' K "codes E"] assms(2) by blast
qed

interpretation sock_code: step_refinement "sock_life_start K" "sock_life K E" "sock_start K" "sock_step K (codes E)"
  "\<lambda>c s. sock_code_laws K E \<longrightarrow> sock_displays c s" for K E
proof unfold_locales
  show "sock_life_start K c \<Longrightarrow> \<exists>s. sock_start K s \<and> (sock_code_laws K E \<longrightarrow> sock_displays c s)" for c
    by (auto simp: sock_life_start_def)
  show "\<exists>s'. (sock_step K (codes E))\<^sup>*\<^sup>* s s' \<and> (sock_code_laws K E \<longrightarrow> sock_displays c' s')"
    if "sock_code_laws K E \<longrightarrow> sock_displays c s" "sock_life K E c c'" for c s c'
    using that sock_life_sim by (metis rtranclp.rtrancl_refl)
qed

section \<open>Properties\<close>

text \<open>C3: A socket worker loses no interest. In every interleaving, each interest a future has added is in the
  queue, held by the worker, or its task has been woken, and woken once for each time it was
  added. When the worker sleeps in its wait and no \<^verbatim>\<open>add\<close> is under way, all have been woken.\<close>

theorem socket_worker_loses_no_interest:
  assumes "release_law K" "wait_law K" "reachable (sock_start K) (sock_step K C) s"
  shows "ss_asked s = mset (vals (ss_queue s)) + held (ss_worker s) + ss_woken s \<and>
    (ss_pc s = AtTop \<and> read_interests (ss_worker s) = [] \<and> write_interests (ss_worker s) = [] \<and> ss_adds s = 0 \<and>
     SyncQueue_wait K C i64_MAX (ss_queue s) (ss_kern s) = None \<longrightarrow> ss_woken s = ss_asked s)"
proof -
  have I: "sock_inv K s" using sock.reachable_inv [OF assms(3)] assms(1,2) by simp
  have "sem_count K (ss_kern s) (semaphore_handle (ss_queue s)) = 0"
    if "SyncQueue_wait K C i64_MAX (ss_queue s) (ss_kern s) = None"
    using that by (intro wait_law_None [OF assms(2)]) (auto simp: SyncQueue_wait_def split: option.splits prod.splits)
  with I show ?thesis by (auto simp: sock_inv_def announced_def held_def)
qed

text \<open>A worker whose queue has semaphore 2, before its first interest.\<close>

definition idle_worker :: socket_worker where
  "idle_worker = \<lparr> wk_queue = 0, wk_socket = \<lparr> addr = demo_addr, handle = 3 \<rparr>, read_interests = [], write_interests = [] \<rparr>"

definition sem_boot :: sim_kernel_state where
  "sem_boot = sk_boot\<lparr>sk_next := 3, sk_max := (\<lambda>h. if h = 1 \<or> h = 2 then 255 else 0)\<rparr>"

definition sock_boot :: "sim_kernel_state sock_sys" where
  "sock_boot = \<lparr> ss_kern = sem_boot, ss_queue = \<lparr> semaphore_handle = 2, vals = [] \<rparr>, ss_adds = 0, ss_worker = idle_worker,
     ss_pc = AtTop, ss_asked = {#}, ss_woken = {#} \<rparr>"

lemma contains_POLLIN: "contains_flag POLLIN POLLIN" "\<not> contains_flag POLLIN POLLOUT"
  by (simp_all add: contains_flag_def POLLIN_def POLLOUT_def)

text \<open>The worker of the demonstration serves one interest and sleeps again.\<close>

definition sock_after :: "sim_kernel_state sock_sys" where
  "sock_after = sock_boot\<lparr>ss_kern := sk_take 2 (release_one sim_kernel 2 sem_boot),
     ss_asked := {#(7, ReadInterest)#}, ss_woken := {#(7, ReadInterest)#}\<rparr>"

lemma sock_after_reachable: "reachable (sock_start sim_kernel) (sock_step sim_kernel (sim_ctru :: unit ctru)) sock_after"
proof -
  let ?R = "reachable (sock_start sim_kernel) (sock_step sim_kernel (sim_ctru :: unit ctru))"
  let ?i = "(7, ReadInterest) :: interest"
  let ?s1 = "sock_boot\<lparr>ss_queue := push_back ?i (ss_queue sock_boot), ss_adds := 1, ss_asked := {#?i#}\<rparr>"
  let ?s2 = "?s1\<lparr>ss_kern := release_one sim_kernel 2 sem_boot, ss_adds := 0\<rparr>"
  let ?s3 = "?s2\<lparr>ss_kern := sk_take 2 (ss_kern ?s2), ss_pc := AtDrain\<rparr>"
  let ?s4 = "?s3\<lparr>ss_worker := idle_worker\<lparr>read_interests := [7]\<rparr>, ss_queue := (ss_queue ?s3)\<lparr>vals := []\<rparr>, ss_pc := AtPoll\<rparr>"
  have "?R sock_boot"
    by (rule reachable.intros) (simp add: sock_start_def sock_boot_def idle_worker_def sim_kernel_def sem_boot_def)
  moreover have "sock_step sim_kernel (sim_ctru :: unit ctru) sock_boot ?s1"
    using sock_step.push [of sim_kernel "sim_ctru :: unit ctru" sock_boot ?i] by (simp add: sock_boot_def)
  moreover have "sock_step sim_kernel (sim_ctru :: unit ctru) ?s1 ?s2"
    using sock_step.release [of ?s1 0 sim_kernel "sim_ctru :: unit ctru"] by (simp add: sock_boot_def)
  moreover have "sock_step sim_kernel (sim_ctru :: unit ctru) ?s2 ?s3"
    using sock_step.wait [of ?s2 sim_kernel "sim_ctru :: unit ctru" "sk_take 2 (ss_kern ?s2)"]
    by (simp add: sock_boot_def idle_worker_def SyncQueue_wait_def sim_kernel_def release_one_def sem_boot_def sim_ctru_def sk_boot_def)
  moreover have "sock_step sim_kernel (sim_ctru :: unit ctru) ?s3 ?s4"
    using sock_step.drain [of ?s3 sim_kernel "sim_ctru :: unit ctru"] by (simp add: sock_boot_def push_back_def idle_worker_def)
  moreover have "sock_step sim_kernel (sim_ctru :: unit ctru) ?s4 sock_after"
    using sock_step.poll [of ?s4 POLLIN "[?i]" idle_worker sim_kernel "sim_ctru :: unit ctru"]
    by (simp add: settle_def contains_POLLIN idle_worker_def sock_after_def sock_boot_def push_back_def)
  ultimately show ?thesis by (meson reachable.intros)
qed

theorem socket_worker_loses_no_interest_witness:
  "SyncQueue_wait sim_kernel (sim_ctru :: unit ctru) i64_MAX (ss_queue sock_after) (ss_kern sock_after) = None \<and>
   ss_asked sock_after = {#(7, ReadInterest)#} \<and> ss_woken sock_after = ss_asked sock_after"
  using socket_worker_loses_no_interest [OF sim_kernel_laws(1,2) sock_after_reachable]
  by (simp add: sock_after_def sock_boot_def idle_worker_def SyncQueue_wait_def sim_kernel_def release_one_def
      sem_boot_def sk_boot_def sk_take_def)

text \<open>The flag that answers an interest.\<close>

fun flag_of :: "poll_interest \<Rightarrow> poll_flags" where
  "flag_of ReadInterest = POLLIN"
| "flag_of WriteInterest = POLLOUT"

definition met_by :: "poll_flags \<Rightarrow> interest \<Rightarrow> bool" where
  "met_by out i \<longleftrightarrow> contains_flag out (flag_of (snd i))"

lemma filter_interests:
  "filter_mset (met_by out) (image_mset (\<lambda>t. (t, i)) M) = (if contains_flag out (flag_of i) then image_mset (\<lambda>t. (t, i)) M else {#})"
  "filter_mset (\<lambda>x. \<not> met_by out x) (image_mset (\<lambda>t. (t, i)) M) = (if contains_flag out (flag_of i) then {#} else image_mset (\<lambda>t. (t, i)) M)"
  by (induction M) (auto simp: met_by_def)

lemma settle_filter:
  "mset (fst (settle out wk)) = filter_mset (met_by out) (held wk)"
  "held (snd (settle out wk)) = filter_mset (\<lambda>i. \<not> met_by out i) (held wk)"
  by (simp_all add: settle_def held_def filter_interests)

text \<open>One pass of a socket worker. Of the interests it holds and those in the queue, the ones that the result of the
  poll answers are woken, once each, and the others are kept, whatever the flags are; nothing stays in the queue.\<close>

lemma worker_pass_answers_met_interests:
  assumes q: "WAKE_QUEUE w = Some q" and i: "wk_queue wk < length (queues w)"
    and poll: "TcpSocket_poll E (wk_socket (taken_on w wk)) (fst (poll_request (taken_on w wk))) (snd (poll_request (taken_on w wk)))
      (emptied wk w) = (Val (Inr out), (emptied wk w)\<lparr>kern := k\<rparr>)"
  shows "\<exists>wk' w' met. serve_interests K E wk w = (Val wk', w') \<and> queued_wakes w' = queued_wakes w @ map fst met \<and>
    mset met = filter_mset (met_by out) (held wk + mset (vals (queues w ! wk_queue wk))) \<and>
    held wk' = filter_mset (\<lambda>i. \<not> met_by out i) (held wk + mset (vals (queues w ! wk_queue wk))) \<and>
    vals (queues w' ! wk_queue wk) = []"
proof -
  let ?wk = "taken_on w wk"
  obtain k' w' where w': "w' = (emptied wk w)\<lparr>WAKE_QUEUE := Some (q\<lparr>vals := vals q @ map fst (fst (settle out ?wk))\<rparr>), kern := k'\<rparr>"
    and run: "serve_interests K E wk w = (Val (snd (settle out ?wk)), w')"
    using serve_interests_run [OF q poll] by blast
  have "held ?wk = held wk + mset (vals (queues w ! wk_queue wk))" by (simp add: taken_on_def held_register)
  moreover have "queued_wakes w' = queued_wakes w @ map fst (fst (settle out ?wk))" "vals (queues w' ! wk_queue wk) = []"
    using q i by (simp_all add: w' queued_wakes_def emptied_def)
  ultimately show ?thesis using run settle_filter [of out ?wk] by auto
qed

text \<open>The socket is readable: the service answers every poll of it with \<^const>\<open>POLLIN\<close> among the flags.\<close>

definition readable :: "('k, 'x, 'sa) net_env \<Rightarrow> tcp_socket \<Rightarrow> bool" where
  "readable E s \<longleftrightarrow> (\<forall>h flags timeout k. \<exists>f fs k'. contains_flag (poll_out f) POLLIN \<and>
     SocketService_poll (ses E) (codes E) (libc E) h [PollFd_new (handle s) flags] [PollFd_default] timeout k = (Val (Inr (f # fs)), k'))"

lemma TcpSocket_poll_readable:
  assumes "readable E s" "SOCKET_SERVICES w = Some soc"
  obtains out k where "TcpSocket_poll E s flags timeout w = (Val (Inr out), w\<lparr>kern := k\<rparr>)" "contains_flag out POLLIN"
proof -
  obtain f fs k where "contains_flag (poll_out f) POLLIN" "SocketService_poll (ses E) (codes E) (libc E) (inner soc)
      [PollFd_new (handle s) flags] [PollFd_default] timeout (kern w) = (Val (Inr (f # fs)), k)"
    using assms(1) unfolding readable_def by blast
  then show thesis
    using assms(2) by (intro that) (auto simp: TcpSocket_poll_def services_def io_bind_run try_bind_run on_kern_def)
qed

lemma TcpSocket_recv_kern: "\<exists>k. snd (TcpSocket_recv E s data w) = w\<lparr>kern := k\<rparr>"
proof (cases "SOCKET_SERVICES w")
  case None
  then show ?thesis by (intro exI [of _ "kern w"]) (simp add: TcpSocket_recv_def services_def io_bind_run)
next
  case (Some soc)
  then show ?thesis
    by (auto simp: TcpSocket_recv_def services_def io_bind_run on_kern_def split: prod.split outcome.split)
qed

text \<open>A poll that is pending has left its interest in the queue.\<close>

lemma Recv_poll_Pending:
  assumes "Recv_poll K E cx s data w = (Val (Pending, d), w1)"
  obtains k where "w1 = w\<lparr>kern := release_one K (semaphore_handle (queues w ! interests_queue s)) k,
    queues := (queues w)[interests_queue s := push_back (TaskToken_from_waker cx, ReadInterest) (queues w ! interests_queue s)]\<rparr>"
proof -
  obtain k where k: "snd (TcpSocket_recv E (socket_inner s) data w) = w\<lparr>kern := k\<rparr>"
    using TcpSocket_recv_kern [of E "socket_inner s" data w] by blast
  show thesis
    by (rule that [of k])
      (use assms k in \<open>auto simp: Recv_poll_def io_bind_run add_interest_def SyncQueue_add_def split: prod.splits outcome.splits if_splits\<close>)
qed

text \<open>The worker does not block when the semaphore has a permit.\<close>

lemma socket_worker_round_runs:
  assumes "wait_law K" "ds_try_law (codes E)" "0 < sem_count K (kern w) (semaphore_handle (queues w ! wk_queue wk))"
  obtains k where "socket_worker_round K E wk w = Returns (serve_interests K E wk (w\<lparr>kern := k\<rparr>))"
proof (cases "read_interests wk = [] \<and> write_interests wk = []")
  case True
  obtain c k where k: "svcWaitSynchronization K (semaphore_handle (queues w ! wk_queue wk)) i64_MAX (kern w) = Some (c, k)"
    using wait_law_returns [OF assms(1,3)] by fastforce
  with wait_law_Some(1) [OF assms(1) k] assms(2)
  have "SyncQueue_wait K (codes E) i64_MAX (queues w ! wk_queue wk) (kern w) = Some (Inr (), k)"
    by (simp add: SyncQueue_wait_def ds_try_law_def)
  with True show thesis by (intro that [of k]) (simp add: socket_worker_round_def io_bind_run)
next
  case False
  then show thesis by (intro that [of "kern w"]) (auto simp: socket_worker_round_def)
qed

text \<open>A receive that has to wait is woken. If polling \<^verbatim>\<open>Recv\<close> is \<^verbatim>\<open>Pending\<close> and the socket then becomes readable,
  the next round of the socket's worker does not block, and it wakes the task that polled,
  besides others whose interest it held, none of which it keeps.\<close>

lemma pending_receive_is_woken:
  assumes laws: "release_law K" "wait_law K" "ds_try_law (codes E)" and ready: "readable E (wk_socket wk)"
    and w: "SOCKET_SERVICES w = Some soc" "WAKE_QUEUE w = Some wq"
    and q: "wk_queue wk = interests_queue s" "interests_queue s < length (queues w)"
    and poll: "Recv_poll K E (make_waker t) s data w = (Val (Pending, d), w1)"
    and sem: "0 < sem_max K (kern w1) (semaphore_handle (queues w ! interests_queue s))"
  shows "\<exists>wk' w2 woken. socket_worker_round K E wk w1 = Returns (Val wk', w2) \<and>
    queued_wakes w2 = queued_wakes w @ woken \<and> t \<in> set woken \<and> set (read_interests wk) \<subseteq> set woken \<and>
    read_interests wk' = [] \<and> vals (queues w2 ! wk_queue wk) = []"
proof -
  let ?q = "queues w ! interests_queue s"
  obtain k where w1: "w1 = w\<lparr>kern := release_one K (semaphore_handle ?q) k,
      queues := (queues w)[interests_queue s := push_back (t, ReadInterest) ?q]\<rparr>"
    by (rule Recv_poll_Pending [OF poll]) (simp add: that)
  have "0 < sem_count K (kern w1) (semaphore_handle (queues w1 ! wk_queue wk))"
    using sem q release_positive [OF laws(1), of k] release_lawD(2) [OF laws(1)] by (simp add: w1 release_one_def)
  then obtain k1 where r: "socket_worker_round K E wk w1 = Returns (serve_interests K E wk (w1\<lparr>kern := k1\<rparr>))"
    by (rule socket_worker_round_runs [OF laws(2,3)])
  let ?w = "w1\<lparr>kern := k1\<rparr>" and ?wk = "taken_on (w1\<lparr>kern := k1\<rparr>) wk"
  have reg: "?wk = register_interests (vals ?q @ [(t, ReadInterest)]) wk" using q by (simp add: taken_on_def w1)
  have S: "SOCKET_SERVICES (emptied wk ?w) = Some soc" using w by (simp add: emptied_def w1)
  have "readable E (wk_socket ?wk)" using ready by (simp add: reg register_interests_eq)
  from TcpSocket_poll_readable [OF this S] obtain out k2 where
    p: "TcpSocket_poll E (wk_socket ?wk) (fst (poll_request ?wk)) (snd (poll_request ?wk)) (emptied wk ?w) =
      (Val (Inr out), (emptied wk ?w)\<lparr>kern := k2\<rparr>)" and out: "contains_flag out POLLIN" by blast
  have "WAKE_QUEUE ?w = Some wq" using w by (simp add: w1)
  from serve_interests_run [OF this p] obtain k3 w2 where
    w2: "w2 = (emptied wk ?w)\<lparr>WAKE_QUEUE := Some (wq\<lparr>vals := vals wq @ map fst (fst (settle out ?wk))\<rparr>), kern := k3\<rparr>"
    and sv: "serve_interests K E wk ?w = (Val (snd (settle out ?wk)), w2)" by blast
  have "set (read_interests ?wk) \<subseteq> set (map fst (fst (settle out ?wk)))" "read_interests (snd (settle out ?wk)) = []"
    using out by (auto simp: settle_def image_image)
  moreover have "t \<in> set (read_interests ?wk)" "set (read_interests wk) \<subseteq> set (read_interests ?wk)"
    by (auto simp: reg register_interests_eq tokens_of_def)
  moreover have "vals (queues w2 ! wk_queue wk) = []" using q by (simp add: w2 emptied_def w1)
  moreover have "queued_wakes w2 = queued_wakes w @ map fst (fst (settle out ?wk))" using w by (simp add: w2 queued_wakes_def)
  moreover have "socket_worker_round K E wk w1 = Returns (Val (snd (settle out ?wk)), w2)" using r sv by simp
  ultimately show ?thesis by blast
qed

text \<open>A socket of the demonstration service, which reports that there is something to read.\<close>

definition async_demo :: "(unit, sim_kernel_state) async_net_world" where
  "async_demo = \<lparr> kern = sem_boot, TASK_QUEUE = None, WAKE_QUEUE = Some \<lparr>semaphore_handle = 1, vals = []\<rparr>,
     EXECUTOR_PORT = Some 5, REACTOR_PORT = None, SOCKET_SERVICES = Some \<lparr> memory_handle = 2, inner = 1 \<rparr>,
     queues = [\<lparr> semaphore_handle = 2, vals = [] \<rparr>], workers = [idle_worker] \<rparr>"

text \<open>C10: The code of a socket worker and its futures loses no interest. The world is run by whole calls: futures add interests, the worker
  runs rounds of its loop, and everything else goes on beside them. At any time the tokens of the interests added so far are, with their
  multiplicity, those in the queue, those the worker holds and those it has put into the wake queue; when its next round would
  block, all have been put there.\<close>

theorem socket_worker_code_wakes_all:
  assumes "sock_code_laws K E" "reachable (sock_life_start K) (sock_life K E) (wk, w, asked, don)"
  shows "image_mset fst asked = image_mset fst (mset (vals (queues w ! wk_queue wk)) + held wk) + don \<and>
    (socket_worker_round K E wk w = Blocks \<longrightarrow> image_mset fst asked = don)"
proof -
  obtain s where s: "reachable (sock_start K) (sock_step K (codes E)) s" "sock_displays (wk, w, asked, don) s"
    using sock_code.reachable_sim [OF assms(2)] assms(1) by blast
  have L: "release_law K" "wait_law K" using assms(1) by (simp_all add: sock_code_laws_def)
  have I: "sock_inv K s" using sock.reachable_inv [OF s(1)] L by simp
  then have A: "image_mset fst asked = image_mset fst (mset (vals (queues w ! wk_queue wk)) + held wk) + don"
    using s(2) by (auto simp: sock_inv_def)
  moreover have "image_mset fst asked = don" if b: "socket_worker_round K E wk w = Blocks"
  proof -
    from b have "read_interests wk = []" "write_interests wk = []" "SyncQueue_wait K (codes E) i64_MAX (queues w ! wk_queue wk) (kern w) = None"
      by (auto simp: socket_worker_round_def split: if_splits option.splits)
    moreover from this(3) have "sem_count K (kern w) (semaphore_handle (queues w ! wk_queue wk)) = 0"
      by (intro wait_law_None [OF L(2)]) (auto simp: SyncQueue_wait_def split: option.splits prod.splits)
    ultimately show ?thesis using A I s(2) by (auto simp: sock_inv_def announced_def held_def)
  qed
  ultimately show ?thesis by blast
qed

theorem socket_worker_code_wakes_all_witness:
  "\<exists>w1 w2. add_interest sim_kernel \<lparr> interests_queue = 0, socket_inner = wk_socket idle_worker \<rparr> (7, ReadInterest) async_demo = (Val (), w1) \<and>
    socket_worker_round sim_kernel demo_env idle_worker w1 = Returns (Val idle_worker, w2) \<and>
    reachable (sock_life_start sim_kernel) (sock_life sim_kernel (demo_env :: (sim_kernel_state, unit, u16 \<times> u8 list \<times> u32) net_env))
      (idle_worker, w2, {#(7, ReadInterest)#}, {#7#}) \<and>
    socket_worker_round sim_kernel demo_env idle_worker w2 = Blocks \<and> image_mset fst {#(7, ReadInterest)#} = {#7 :: u32#}"
proof -
  let ?E = "demo_env :: (sim_kernel_state, unit, u16 \<times> u8 list \<times> u32) net_env"
  let ?s = "\<lparr> interests_queue = 0, socket_inner = wk_socket idle_worker \<rparr>" and ?i = "(7, ReadInterest) :: interest"
  define k1 where "k1 = release_one sim_kernel 2 sem_boot"
  define w1 where "w1 = async_demo\<lparr>kern := k1, queues := [\<lparr> semaphore_handle = 2, vals = [?i] \<rparr>]\<rparr>"
  define w2 where "w2 = async_demo\<lparr>kern := release_one sim_kernel 1 (sk_take 2 k1), WAKE_QUEUE := Some \<lparr> semaphore_handle = 1, vals = [7] \<rparr>\<rparr>"
  have k1: "sk_count k1 = (\<lambda>_. 0)(2 := 1)" by (simp add: k1_def release_one_def sim_kernel_def sem_boot_def sk_boot_def fun_eq_iff)
  have a: "add_interest sim_kernel ?s ?i async_demo = (Val (), w1)"
    by (simp add: add_interest_def SyncQueue_add_def push_back_def async_demo_def w1_def k1_def)
  have "serve_interests sim_kernel ?E idle_worker (w1\<lparr>kern := sk_take 2 k1\<rparr>) = (Val idle_worker, w2)"
    by (simp add: serve_interests_def drain_queue_def Let_def poll_request_def TcpSocket_poll_def services_def SocketService_poll_def posix_call_def
        coded_call_def ipc_call_def try_bind_run io_bind_run on_kern_def ds_try_io_def w1_def w2_def async_demo_def idle_worker_def demo_env_def
        demo_net_def sim_ctru_def net_try_ok contains_POLLIN ExecutorSession_wake_def wake_queue_add_run push_back_def)
  then have r1: "socket_worker_round sim_kernel ?E idle_worker w1 = Returns (Val idle_worker, w2)"
    using k1
    by (simp add: socket_worker_round_def SyncQueue_wait_def w1_def idle_worker_def io_bind_run sim_kernel_def sim_ctru_def demo_env_def)
  have "sk_count (kern w2) 2 = 0" using k1 by (simp add: w2_def release_one_def sim_kernel_def sk_take_def)
  then have r2: "socket_worker_round sim_kernel ?E idle_worker w2 = Blocks"
    by (simp add: socket_worker_round_def SyncQueue_wait_def w2_def idle_worker_def async_demo_def sim_kernel_def)
  have "sock_life_start sim_kernel (idle_worker, async_demo, {#}, {#})"
    unfolding sock_life_start_def
    by (intro exI [of _ sock_boot]) (simp add: sock_start_def sock_boot_def async_demo_def idle_worker_def sim_kernel_def sem_boot_def)
  moreover have "sock_life sim_kernel ?E (idle_worker, async_demo, {#}, {#}) (idle_worker, w1, {#?i#}, {#})"
    by (rule sock_life.interest [OF a]) (simp add: idle_worker_def)
  moreover have "sock_life sim_kernel ?E (idle_worker, w1, {#?i#}, {#}) (idle_worker, w2, {#?i#}, {#7#})"
    using sock_life.round [OF r1, of "[7]" "{#?i#}" "{#}"] by (simp add: queued_wakes_def w1_def w2_def async_demo_def)
  ultimately have reach: "reachable (sock_life_start sim_kernel) (sock_life sim_kernel ?E) (idle_worker, w2, {#?i#}, {#7#})"
    by (meson reachable.intros)
  have "sock_code_laws sim_kernel ?E"
    by (simp add: sock_code_laws_def sim_kernel_laws quiet_session_def quiet_def keeps_permits_refl demo_env_def demo_net_def)
  from socket_worker_code_wakes_all [OF this reach] a r1 r2 reach show ?thesis by blast
qed

text \<open>What \<^const>\<open>guarding\<close> runs in \<^const>\<open>adopt\<close>, on every branch.\<close>

lemma TcpSocket_set_nonblock_kern: "\<exists>r k. TcpSocket_set_nonblock E s w = (r, w\<lparr>kern := k\<rparr>)"
proof (cases "SOCKET_SERVICES w")
  case None
  then show ?thesis
    by (intro exI [of _ "Panic UnwrapNone"] exI [of _ "kern w"]) (simp add: TcpSocket_set_nonblock_def services_def io_bind_run)
next
  case (Some soc)
  then show ?thesis
    by (auto simp: TcpSocket_set_nonblock_def services_def io_bind_run try_bind_run on_kern_def
        split: prod.split outcome.split sum.split)
qed

lemma AsyncTcpSocket_run_cases:
  obtains (ok) k where "AsyncTcpSocket_run T P v h w = (Val (), w\<lparr>kern := k, workers := workers w @
      [\<lparr> wk_queue = interests_queue v, wk_socket = socket_inner v, read_interests = [], write_interests = [] \<rparr>]\<rparr>)"
  | (panics) p k where "AsyncTcpSocket_run T P v h w = (Panic p, w\<lparr>kern := k\<rparr>)"
proof -
  obtain r k1 where m: "make_session P h (kern w) = (r, k1)" by fastforce
  obtain b k2 where t: "T (Some SOCKET_WORKER_STACK_SIZE) k1 = (b, k2)" by fastforce
  show thesis
    by (cases r; cases b)
      (use m t in \<open>auto simp: AsyncTcpSocket_run_def std_spawn_def io_bind_run on_kern_def intro: ok panics\<close>)
qed

definition adopting ::
  "'k kernel \<Rightarrow> 'k thread_spawn \<Rightarrow> ('k, 'x) ipc_port \<Rightarrow> ('k, 'x, 'sa) net_env \<Rightarrow> tcp_socket \<Rightarrow>
   ('f, 'k, ('x, async_socket) bunny_result) asyncio" where
  "adopting K T P E s =
     io_bind (AsyncTcpSocket_wrap K E s) (\<lambda>v.
       io_bind (\<lambda>w. (unwrap (EXECUTOR_PORT w), w)) (\<lambda>port.
         io_bind (AsyncTcpSocket_run T P v port) (\<lambda>_. ret (Inr v))))"

lemma adopting_cases:
  obtains (ok) q k where "vals q = []"
      "adopting K T P E s w = (Val (Inr \<lparr> interests_queue = length (queues w), socket_inner = s \<rparr>),
         w\<lparr>queues := queues w @ [q], kern := k,
           workers := workers w @ [\<lparr> wk_queue = length (queues w), wk_socket = s, read_interests = [], write_interests = [] \<rparr>]\<rparr>)"
  | (panics) p k qs where "adopting K T P E s w = (Panic p, w\<lparr>queues := qs, kern := k\<rparr>)"
proof -
  obtain r k where n: "TcpSocket_set_nonblock E s w = (r, w\<lparr>kern := k\<rparr>)" using TcpSocket_set_nonblock_kern [of E s w] by blast
  obtain q :: "interest sync_queue" and k1 where q: "SyncQueue_new K k = (q, k1)" "vals q = []"
    by (cases "svcCreateSemaphore K 0 255 k") (auto simp: SyncQueue_new_def)
  let ?w = "w\<lparr>queues := queues w @ [q], kern := k1\<rparr>" and ?v = "\<lparr> interests_queue = length (queues w), socket_inner = s \<rparr>"
  have wrap: "AsyncTcpSocket_wrap K E s w =
      (case r of Val (Inr _) \<Rightarrow> (Val ?v, ?w) | Val (Inl _) \<Rightarrow> (Panic UnwrapErr, w\<lparr>kern := k\<rparr>) | Panic p \<Rightarrow> (Panic p, w\<lparr>kern := k\<rparr>))"
    by (simp add: AsyncTcpSocket_wrap_def io_bind_run n new_queue_def q split: outcome.split sum.split)
  have keep: "w\<lparr>kern := k\<rparr> = w\<lparr>queues := queues w, kern := k\<rparr>" by (cases w) simp
  show thesis
  proof (cases "\<exists>u. r = Val (Inr u)")
    case False
    then obtain p where "AsyncTcpSocket_wrap K E s w = (Panic p, w\<lparr>kern := k\<rparr>)"
      using wrap by (cases r) (auto split: sum.splits)
    then have "adopting K T P E s w = (Panic p, w\<lparr>queues := queues w, kern := k\<rparr>)"
      unfolding keep [symmetric] by (simp add: adopting_def io_bind_run)
    then show thesis by (rule panics)
  next
    case True
    then have "AsyncTcpSocket_wrap K E s w = (Val ?v, ?w)" using wrap by auto
    then have run: "adopting K T P E s w = (case EXECUTOR_PORT w of None \<Rightarrow> (Panic UnwrapNone, ?w)
        | Some h \<Rightarrow> io_bind (AsyncTcpSocket_run T P ?v h) (\<lambda>_. ret (Inr ?v)) ?w)"
      by (simp add: adopting_def io_bind_run unwrap_def split: option.split)
    show thesis
    proof (cases "EXECUTOR_PORT w")
      case (Some h)
      show thesis
        by (cases rule: AsyncTcpSocket_run_cases [of T P ?v h ?w])
          (use run Some in \<open>auto simp: io_bind_run intro: ok [OF q(2)] panics\<close>)
    qed (use run in \<open>auto intro: panics\<close>)
  qed
qed

text \<open>C23: A connected socket is served or closed. When the result of \<^verbatim>\<open>connect\<close> or \<^verbatim>\<open>accept\<close> reaches the task, then either the
  task gets an asynchronous socket with a queue of its own, empty, and one new worker for this queue and
  socket, or the task panics, no worker is started and the service is asked to close the descriptor.\<close>

theorem adopted_socket_is_served_or_closed:
  assumes "net_laws E" "SOCKET_SERVICES w = Some soc" "adopt K T P E (Some (Inr s)) w = (r, w')"
  shows "case r of
      Val (Inr v) \<Rightarrow> v = \<lparr> interests_queue = length (queues w), socket_inner = s \<rparr> \<and> (\<exists>q. queues w' = queues w @ [q] \<and> vals q = []) \<and>
        workers w' = workers w @ [\<lparr> wk_queue = length (queues w), wk_socket = s, read_interests = [], write_interests = [] \<rparr>]
    | Val (Inl _) \<Rightarrow> False
    | Panic _ \<Rightarrow> workers w' = workers w \<and> (\<exists>k. kern w' = snd (ipc_request (ses E) (inner soc) (Soc_Close (handle s) 0) k))"
proof -
  have A: "adopt K T P E (Some (Inr s)) w = guarding E s (adopting K T P E s) w" by (simp add: adopt_def adopting_def)
  show ?thesis
  proof (cases rule: adopting_cases [of K T P E s w])
    case (ok q k)
    then show ?thesis using assms(3) by (auto simp: A guarding_def)
  next
    case (panics p k qs)
    then show ?thesis
      using assms(3) SocketHandle_drop_run [OF assms(1), of "w\<lparr>queues := qs, kern := k\<rparr>" soc "handle s"] assms(2)
      by (auto simp: A guarding_def)
  qed
qed

theorem adopted_socket_is_served_or_closed_witness:
  "workers (snd (adopt sim_kernel (\<lambda>_ k. (True, k)) open_port demo_env (Some (Inr (wk_socket idle_worker))) async_demo)) =
     [idle_worker, idle_worker\<lparr>wk_queue := 1\<rparr>] \<and>
   workers (snd (adopt sim_kernel (\<lambda>_ k. (False, k)) open_port demo_env (Some (Inr (wk_socket idle_worker))) async_demo)) =
     [idle_worker]"
proof -
  let ?s = "wk_socket idle_worker"
  let ?A = "\<lambda>b. adopt sim_kernel (\<lambda>_ k. (b, k)) open_port demo_env (Some (Inr ?s)) async_demo"
  have S: "SOCKET_SERVICES async_demo = Some \<lparr> memory_handle = 2, inner = 1 \<rparr>" by (simp add: async_demo_def)
  have f: "fst (?A b) = (if b then Val (Inr \<lparr> interests_queue = 1, socket_inner = ?s \<rparr>) else Panic UnwrapErr)" for b
    by (simp add: adopt_def guarding_def AsyncTcpSocket_wrap_def AsyncTcpSocket_run_def TcpSocket_set_nonblock_def
        SocketService_set_nonblock_def posix_call_def coded_call_def ipc_call_def services_def io_bind_run try_bind_run on_kern_def
        ds_try_io_def net_try_ok new_queue_def SyncQueue_new_def std_spawn_def spawn_panic_def open_port_def async_demo_def demo_env_def demo_net_def
        sim_ctru_def sim_kernel_def idle_worker_def split: prod.split)
  have t: "workers (snd (?A True)) = workers async_demo @
      [\<lparr> wk_queue = length (queues async_demo), wk_socket = ?s, read_interests = [], write_interests = [] \<rparr>]"
    using adopted_socket_is_served_or_closed [OF demo_env_laws S prod.collapse [of "?A True", symmetric]]
    unfolding f by simp
  have "workers (snd (?A False)) = workers async_demo"
    using adopted_socket_is_served_or_closed [OF demo_env_laws S prod.collapse [of "?A False", symmetric]]
    unfolding f by simp
  with t show ?thesis by (simp add: async_demo_def) (simp add: idle_worker_def)
qed

text \<open>C24: What the connecting thread finds reaches the waiting task. The task, which has polled the future of \<^verbatim>\<open>connect\<close>
  once, is woken when the thread is done. Its next poll then gives the connection's error, or continues with
  the connected socket, or, if the thread panicked, panics itself.\<close>

theorem connect_outcome_reaches_task:
  assumes first: "adopt_poll K T P E (make_waker t) (oneshot_new, w0) = (Val Pending, (c, w0))"
    and conn: "TcpSocket_connect E (Inr [a] :: unit resolved) w = (r, w1)" and q: "WAKE_QUEUE w1 = Some q"
    and thread: "connect_thread K E a (c, w) = (res, (c2, w2))"
  shows "queued_wakes w2 = queued_wakes w1 @ (case r of Val _ \<Rightarrow> [t, t] | Panic _ \<Rightarrow> [t]) \<and>
    fst (adopt_poll K T P E (make_waker t) (c2, w2)) =
      (case r of
         Val (Inl e) \<Rightarrow> Val (Ready (Inl e))
       | Val (Inr s) \<Rightarrow> (case fst (adopt K T P E (Some (Inr s)) w2) of Val x \<Rightarrow> Val (Ready x) | Panic p \<Rightarrow> Panic p)
       | Panic _ \<Rightarrow> Panic UnwrapNone)"
proof -
  have c: "c = \<lparr> os_value = None, os_state = False, rx_task = Some t \<rparr>"
    using first by (simp add: adopt_poll_def OneshotReceiver_poll_def oneshot_new_def)
  note run = wake_receiver_def OneshotSender_drop_def OneshotSender_send_def OneshotState_send_def io_bind_run wake_queue_add_run(1)
  show ?thesis
  proof (cases r)
    case (Val v)
    have "c2 = c\<lparr>os_value := Some v, os_state := True\<rparr>" "queued_wakes w2 = vals q @ [t, t]"
      using thread by (auto simp: connect_thread_def send_result_def conn Val run q c queued_wakes_def)
    then show ?thesis
      using q by (simp add: Val adopt_poll_def OneshotReceiver_poll_def c queued_wakes_def adopt_def split: sum.split prod.split outcome.split)
  next
    case (Panic p)
    have "c2 = c\<lparr>os_state := True\<rparr>" "queued_wakes w2 = vals q @ [t]"
      using thread by (auto simp: connect_thread_def send_result_def conn Panic run q c queued_wakes_def)
    then show ?thesis
      using q by (simp add: Panic adopt_poll_def OneshotReceiver_poll_def c queued_wakes_def adopt_def io_bind_run)
  qed
qed

theorem connect_outcome_reaches_task_witness:
  "\<exists>c c2 w2. adopt_poll sim_kernel (\<lambda>_ k. (True, k)) open_port demo_env (make_waker 7) (oneshot_new, async_demo) = (Val Pending, (c, async_demo)) \<and>
    snd (connect_thread sim_kernel demo_env V6 (c, async_demo)) = (c2, w2) \<and> queued_wakes w2 = [7] \<and>
    fst (adopt_poll sim_kernel (\<lambda>_ k. (True, k)) open_port demo_env (make_waker 7) (c2, w2)) = Panic UnwrapNone"
proof -
  let ?c = "\<lparr> os_value = None, os_state = False, rx_task = Some 7 \<rparr>"
  have first: "adopt_poll sim_kernel (\<lambda>_ k. (True, k)) open_port demo_env (make_waker 7) (oneshot_new, async_demo) =
      (Val Pending, (?c, async_demo))"
    by (simp add: adopt_poll_def OneshotReceiver_poll_def oneshot_new_def)
  have conn: "TcpSocket_connect demo_env (Inr [V6] :: unit resolved) async_demo = (Panic (Explicit ''only ipv4 supported''), async_demo)"
    by (simp add: TcpSocket_connect_def SocketService_create_socket_def closing_def SocketHandle_drop_def SocketService_close_def
        posix_call_def coded_call_def ipc_call_def first_addr_def expect_v4_def services_def io_bind_run try_bind_run on_kern_def
        ds_try_io_def net_try_ok async_demo_def demo_env_def demo_net_def sim_ctru_def)
  obtain res c2 w2 where th: "connect_thread sim_kernel demo_env V6 (?c, async_demo) = (res, (c2, w2))"
    by (metis prod.collapse)
  have "WAKE_QUEUE async_demo = Some \<lparr>semaphore_handle = 1, vals = []\<rparr>" "queued_wakes async_demo = []"
    by (simp_all add: async_demo_def queued_wakes_def)
  with connect_outcome_reaches_task [OF first conn _ th] first th show ?thesis by auto
qed

end
