(* ===== verification/Runtime.thy ===== *)
theory Runtime
  imports Join_Handle Fs_Pool Net_Async
begin

text \<open>
  Start-up: \<^verbatim>\<open>src/lib.rs\<close> with what it calls, \<^verbatim>\<open>sync::init\<close>, \<^verbatim>\<open>Executor::new\<close>, \<^verbatim>\<open>run_thread\<close> of the executor and
  of the reactor, \<^verbatim>\<open>fs::init_sdmc\<close> and \<^verbatim>\<open>async_pool::init_pool\<close>, and \<^verbatim>\<open>fs::open\<close>. The statics are cells that are
  written once, and the threads that were started are listed.
\<close>

section \<open>State\<close>

record 'm executor =
  ex_tasks :: 'm
  ex_task_semaphore :: u32
  ex_wake_semaphore :: u32

datatype (plugins del: size) 'm started =
    ExecutorThread "'m executor"
  | ReactorThread u32                  \<comment> \<open>with its server\<close>
  | IoWorkerThread nat u32             \<comment> \<open>\<^verbatim>\<open>id\<close> and session\<close>

record ('f, 'k, 'm) boot_world = "('f, 'k) net_world" +
  ADDRESS_ARBITER :: u32
  FS_POOL :: "async_fs_msg sync_queue option"        \<comment> \<open>\<^verbatim>\<open>ASYNC_FS_POOL\<close>\<close>
  FS_SESSION :: "u32 option"
  SDMC_ARCHIVE_HANDLE :: "archive_handle option"
  threads_started :: "'m started list"

type_synonym ('f, 'k, 'm, 'a) bootio = "(('f, 'k, 'm) boot_world, 'a) io"

text \<open>
  The system at start-up. \<^verbatim>\<open>IPCServer::new\<close> gives a server and a client port, \<^verbatim>\<open>duplicate\<close> and \<^verbatim>\<open>client\<close> a
  port; the other fields are system calls.
\<close>

record ('k, 'x, 'sa) boot_env =
  bk :: "'k kernel"
  bport :: "('k, 'x) ipc_port"
  bnet :: "('k, 'x, 'sa) net_env"
  bsoc :: "'k soc_setup"
  bfs :: "('k, 'x) fs_session"
  bcstr :: "u16 list \<Rightarrow> u8 list"
  bspawn :: "'k thread_spawn"
  IPCServer_new :: "'k \<Rightarrow> ('x ctru_error + u32 \<times> u32) \<times> 'k"
  port_duplicate :: "u32 \<Rightarrow> 'k \<Rightarrow> u32 \<times> 'k"
  svcCreateAddressArbiter :: "'k \<Rightarrow> (i32 \<times> u32) \<times> 'k"
  svcSetThreadPriority :: "u32 \<Rightarrow> i32 \<Rightarrow> 'k \<Rightarrow> 'k"
  fsGetSessionHandle :: "'k \<Rightarrow> u32"

abbreviation THREAD_STACK_SIZE :: usize where "THREAD_STACK_SIZE \<equiv> 1024 * 1024"
abbreviation EXECUTOR_THREAD_PRIORITY :: i32 where "EXECUTOR_THREAD_PRIORITY \<equiv> 0x18"
abbreviation CUR_THREAD_HANDLE :: u32 where "CUR_THREAD_HANDLE \<equiv> 0xFFFF8000"

definition start_thread_of :: "('k, 'x, 'sa) boot_env \<Rightarrow> usize option \<Rightarrow> 'm started \<Rightarrow> ('f, 'k, 'm, unit) bootio" where
  "start_thread_of B stack t w =
     (case bspawn B stack (kern w) of (ok, k) \<Rightarrow>
        if ok then (Val (), w\<lparr>kern := k, threads_started := threads_started w @ [t]\<rparr>)
        else (Panic (spawn_panic stack), w\<lparr>kern := k\<rparr>))"

section \<open>Executor and reactor\<close>

definition sync_init :: "('k, 'x, 'sa) boot_env \<Rightarrow> ('f, 'k, 'm, ('x, unit) bunny_result) bootio" where
  "sync_init B w =
     (case svcCreateAddressArbiter B (kern w) of ((r, h), k) \<Rightarrow>
        ds_try_io (codes (bnet B)) r (w\<lparr>kern := k, ADDRESS_ARBITER := h\<rparr>))"

text \<open>\<^verbatim>\<open>get_or_init(SyncQueue::new)\<close>\<close>

definition queue_get_or_init :: "'k kernel \<Rightarrow> 'a sync_queue option \<Rightarrow> 'k \<Rightarrow> 'a sync_queue \<times> 'k" where
  "queue_get_or_init K q k = (case q of Some q \<Rightarrow> (q, k) | None \<Rightarrow> SyncQueue_new K k)"

definition Executor_new ::
  "('m, task_token, 'f) lite_map \<Rightarrow> ('k, 'x, 'sa) boot_env \<Rightarrow> ('f, 'k, 'm, 'm executor) bootio" where
  "Executor_new L B =
     io_bind (on_kern (\<lambda>k. case IPCServer_new B k of (r, k') \<Rightarrow> (unwrap_result r, k'))) (\<lambda>(_, port_handle) w.
       let w1 = w\<lparr>EXECUTOR_PORT := once_set port_handle (EXECUTOR_PORT w)\<rparr>;
           (tq, k1) = queue_get_or_init (bk B) (TASK_QUEUE w1) (kern w1);
           (wq, k2) = queue_get_or_init (bk B) (WAKE_QUEUE w1) k1 in
       (Val \<lparr> ex_tasks = lm_new L, ex_task_semaphore = semaphore_handle tq, ex_wake_semaphore = semaphore_handle wq \<rparr>,
        w1\<lparr>TASK_QUEUE := Some tq, WAKE_QUEUE := Some wq, kern := k2\<rparr>))"

text \<open>\<^verbatim>\<open>Executor::run\<close> up to the loop of the handler, on the thread that \<^verbatim>\<open>run_thread\<close> starts.\<close>

definition Executor_run :: "'m executor \<Rightarrow> 'm executor_handler" where
  "Executor_run self =
     \<lparr> task_counter = 0, tasks = ex_tasks self, task_semaphore = ex_task_semaphore self, wake_semaphore = ex_wake_semaphore self \<rparr>"

definition executor_thread :: "('k, 'x, 'sa) boot_env \<Rightarrow> 'm executor \<Rightarrow> ('f, 'k, 'm, 'm executor_handler) bootio" where
  "executor_thread B self w =
     (Val (Executor_run self), w\<lparr>kern := svcSetThreadPriority B CUR_THREAD_HANDLE EXECUTOR_THREAD_PRIORITY (kern w)\<rparr>)"

definition Executor_run_thread :: "('k, 'x, 'sa) boot_env \<Rightarrow> 'm executor \<Rightarrow> ('f, 'k, 'm, unit) bootio" where
  "Executor_run_thread B self = start_thread_of B (Some THREAD_STACK_SIZE) (ExecutorThread self)"

definition Reactor_new :: "('k, 'x, 'sa) boot_env \<Rightarrow> ('f, 'k, 'm, u32) bootio" where
  "Reactor_new B =
     io_bind (on_kern (\<lambda>k. case IPCServer_new B k of (r, k') \<Rightarrow> (unwrap_result r, k'))) (\<lambda>(server, _). ret server)"

definition Reactor_run_thread :: "('k, 'x, 'sa) boot_env \<Rightarrow> u32 \<Rightarrow> ('f, 'k, 'm, unit) bootio" where
  "Reactor_run_thread B server = start_thread_of B (Some THREAD_STACK_SIZE) (ReactorThread server)"

section \<open>Files\<close>

text \<open>The loop \<^verbatim>\<open>for id in 0..workers\<close>.\<close>

fun start_workers :: "('k, 'x, 'sa) boot_env \<Rightarrow> u32 \<Rightarrow> nat list \<Rightarrow> ('f, 'k, 'm, unit) bootio" where
  "start_workers B h [] = ret ()"
| "start_workers B h (i # ids) =
     io_bind (on_kern (\<lambda>k. case make_session (bport B) h k of (r, k') \<Rightarrow> (unwrap_result r, k'))) (\<lambda>session.
       io_bind (start_thread_of B None (IoWorkerThread i session)) (\<lambda>_. start_workers B h ids))"

definition init_pool :: "('k, 'x, 'sa) boot_env \<Rightarrow> usize \<Rightarrow> ('f, 'k, 'm, unit) bootio" where
  "init_pool B n w =
     (case SyncQueue_new (bk B) (kern w) of (q, k) \<Rightarrow>
        case FS_POOL w of
          Some _ \<Rightarrow> (Panic UnwrapErr, w\<lparr>kern := k\<rparr>)
        | None \<Rightarrow>
            (case EXECUTOR_PORT w of
               None \<Rightarrow> (Panic (Explicit ''executor not initialized''), w\<lparr>kern := k, FS_POOL := Some q\<rparr>)
             | Some h \<Rightarrow>
                 (case port_duplicate B h k of (h', k') \<Rightarrow>
                    start_workers B h' [0..<unat n] (w\<lparr>kern := k', FS_POOL := Some q\<rparr>))))"

definition init_sdmc :: "('k, 'x, 'sa) boot_env \<Rightarrow> usize \<Rightarrow> ('f, 'k, 'm, archive_handle) bootio" where
  "init_sdmc B n w =
     (let fs = (case FS_SESSION w of Some h \<Rightarrow> h | None \<Rightarrow> Filesystem_from_raw (fsGetSessionHandle B (kern w))) in
      io_bind (init_pool B n) (\<lambda>_ w1.
        case SDMC_ARCHIVE_HANDLE w1 of
          Some a \<Rightarrow> (Val a, w1)
        | None \<Rightarrow> io_bind (on_kern (Filesystem_open_archive (bfs B) (codes (bnet B)) (bcstr B) fs SDMC Path_Empty)) (\<lambda>r.
            io_bind (lift_outcome (unwrap_result r)) (\<lambda>a w2. (Val a, w2\<lparr>SDMC_ARCHIVE_HANDLE := Some a\<rparr>))) w1)
      (w\<lparr>FS_SESSION := Some fs\<rparr>))"

definition fs_open ::
  "('k, 'x, 'sa) boot_env \<Rightarrow> ds_path \<Rightarrow> open_flags \<Rightarrow> ('f, 'k, 'm, ('x, async_file) bunny_result) bootio" where
  "fs_open B path flags w =
     io_bind (lift_outcome (unwrap (FS_SESSION w))) (\<lambda>fs.
       io_bind (lift_outcome (unwrap (SDMC_ARCHIVE_HANDLE w))) (\<lambda>archive.
         try_bind (on_kern (Filesystem_open_file (bfs B) (codes (bnet B)) (bcstr B) fs archive path flags))
           (\<lambda>file. ret (Inr (AsyncFile_wrap file))))) w"

section \<open>The runtime\<close>

record runtime_configuration =
  fs_workers :: usize
  enable_soc :: bool

definition RuntimeConfiguration_run ::
  "('m, task_token, 'f) lite_map \<Rightarrow> ('k, 'x, 'sa) boot_env \<Rightarrow> runtime_configuration \<Rightarrow> ('f, 'k, 'm, unit) bootio" where
  "RuntimeConfiguration_run L B self =
     io_bind (sync_init B) (\<lambda>r. io_bind (lift_outcome (unwrap_result r)) (\<lambda>_.
     io_bind (Executor_new L B) (\<lambda>executor.
     io_bind (Reactor_new B) (\<lambda>reactor.
     io_bind (Executor_run_thread B executor) (\<lambda>_.
     io_bind (Reactor_run_thread B reactor) (\<lambda>_.
     io_bind (if enable_soc self
              then io_bind (net_init (bsoc B) (bnet B)) (\<lambda>r. lift_outcome (unwrap_result r)) else ret ()) (\<lambda>_.
     io_bind (init_sdmc B (fs_workers self)) (\<lambda>_. ret ()))))))))"

text \<open>\<^verbatim>\<open>Runtime::block_on\<close>, up to the wait and from there on\<close>

definition Runtime_block_on_start ::
  "'k kernel \<Rightarrow> ('s, 'e, 'y) light_scheme \<Rightarrow> 'g \<Rightarrow> ('g, 'k, 't, 'e, nat \<times> nat) jio" where
  "Runtime_block_on_start K Lt fut = spawn_and_block_start K Lt fut"

definition Runtime_block_on_finish ::
  "('s, 'e, 'y) light_scheme \<Rightarrow> nat \<times> nat \<Rightarrow> ('g, 'k, 't, 'e) join_world \<Rightarrow>
   ('t outcome \<times> ('g, 'k, 't, 'e) join_world) blocking" where
  "Runtime_block_on_finish Lt h = spawn_and_block_finish Lt h"

section \<open>Lemmas\<close>

text \<open>What each part has done once it returns.\<close>

lemma sync_init_Val:
  assumes "sync_init B w = (Val r, w')"
  obtains h k where "w' = w\<lparr>kern := k, ADDRESS_ARBITER := h\<rparr>"
  using assms by (auto simp: sync_init_def ds_try_io_def split: prod.splits)

lemma Executor_new_Val:
  assumes "Executor_new L B w = (Val ex, w')"
  obtains h tq wq k where "w' = w\<lparr>EXECUTOR_PORT := Some h, TASK_QUEUE := Some tq, WAKE_QUEUE := Some wq, kern := k\<rparr>"
    and "ex = \<lparr> ex_tasks = lm_new L, ex_task_semaphore = semaphore_handle tq, ex_wake_semaphore = semaphore_handle wq \<rparr>"
  using assms
  by (auto simp: Executor_new_def io_bind_run on_kern_def Let_def once_set_def split: prod.splits outcome.splits option.splits)

lemma Reactor_new_Val:
  assumes "Reactor_new B w = (Val server, w')"
  obtains k where "w' = w\<lparr>kern := k\<rparr>"
  using assms by (auto simp: Reactor_new_def io_bind_run on_kern_def split: prod.splits outcome.splits)

lemma start_thread_of_Val:
  assumes "start_thread_of B stack t w = (Val u, w')"
  obtains k where "w' = w\<lparr>kern := k, threads_started := threads_started w @ [t]\<rparr>"
  using assms by (auto simp: start_thread_of_def split: prod.splits if_splits)

lemma start_workers_Val:
  assumes "start_workers B h ids w = (Val u, w')"
  shows "\<exists>k ss. length ss = length ids \<and> w' = w\<lparr>kern := k, threads_started := threads_started w @ map2 IoWorkerThread ids ss\<rparr>"
  using assms
proof (induction ids arbitrary: w)
  case Nil
  then show ?case by (intro exI [of _ "kern w"]) simp
next
  case (Cons i ids)
  obtain r k where m: "make_session (bport B) h (kern w) = (r, k)" by fastforce
  from Cons.prems m obtain session w1 where
    w1: "start_thread_of B None (IoWorkerThread i session) (w\<lparr>kern := k\<rparr>) = (Val (), w1)" "start_workers B h ids w1 = (Val u, w')"
    by (cases r) (auto simp: io_bind_run on_kern_def split: prod.splits outcome.splits)
  obtain k1 where "w1 = w\<lparr>kern := k1, threads_started := threads_started w @ [IoWorkerThread i session]\<rparr>"
    using start_thread_of_Val [OF w1(1)] by auto
  with Cons.IH [OF w1(2)] obtain k2 ss where "length ss = length ids"
    "w' = w\<lparr>kern := k2, threads_started := threads_started w @ map2 IoWorkerThread (i # ids) (session # ss)\<rparr>" by auto
  then show ?case by (intro exI [of _ k2] exI [of _ "session # ss"]) simp
qed

lemma net_init_Val:
  assumes "net_init Y E w = (Val (Inr u), w')"
  obtains s k where "w' = w\<lparr>kern := k, SOCKET_SERVICES := Some s\<rparr>"
proof (cases "SOCKET_SERVICES w")
  case (Some s)
  with assms have "w' = w\<lparr>kern := kern w, SOCKET_SERVICES := Some s\<rparr>" by (cases w) (auto simp: net_init_def)
  then show thesis by (rule that)
next
  case None
  with assms that show thesis
    by (auto simp: net_init_def SocketService_init_def try_bind_run on_kern_def split: prod.splits outcome.splits sum.splits)
qed

lemma init_pool_Val:
  assumes "init_pool B n w = (Val u, w')"
  obtains q k ss where "FS_POOL w = None" "vals q = []" "length ss = unat n"
    "w' = w\<lparr>FS_POOL := Some q, kern := k, threads_started := threads_started w @ map2 IoWorkerThread [0..<unat n] ss\<rparr>"
proof -
  obtain q :: "async_fs_msg sync_queue" and k where q: "SyncQueue_new (bk B) (kern w) = (q, k)" "vals q = []"
    by (cases "svcCreateSemaphore (bk B) 0 255 (kern w)") (auto simp: SyncQueue_new_def)
  from assms q obtain h' k' where none: "FS_POOL w = None"
    and run: "start_workers B h' [0..<unat n] (w\<lparr>kern := k', FS_POOL := Some q\<rparr>) = (Val u, w')"
    by (auto simp: init_pool_def split: option.splits prod.splits)
  from start_workers_Val [OF run] obtain k2 ss where "length ss = unat n"
    "w' = w\<lparr>FS_POOL := Some q, kern := k2, threads_started := threads_started w @ map2 IoWorkerThread [0..<unat n] ss\<rparr>" by auto
  then show thesis using that [OF none q(2)] by simp
qed

lemma init_sdmc_Val:
  assumes "init_sdmc B n w = (Val a, w')"
  obtains q k ss fs where "FS_POOL w = None" "vals q = []" "length ss = unat n"
    "w' = w\<lparr>FS_SESSION := Some fs, FS_POOL := Some q,
       threads_started := threads_started w @ map2 IoWorkerThread [0..<unat n] ss, kern := k, SDMC_ARCHIVE_HANDLE := Some a\<rparr>"
proof -
  obtain fs w1 where p: "init_pool B n (w\<lparr>FS_SESSION := Some fs\<rparr>) = (Val (), w1)"
    and rest: "(case SDMC_ARCHIVE_HANDLE w1 of
          Some a \<Rightarrow> (Val a, w1)
        | None \<Rightarrow> io_bind (on_kern (Filesystem_open_archive (bfs B) (codes (bnet B)) (bcstr B) fs SDMC Path_Empty)) (\<lambda>r.
            io_bind (lift_outcome (unwrap_result r)) (\<lambda>a w2. (Val a, w2\<lparr>SDMC_ARCHIVE_HANDLE := Some a\<rparr>))) w1) = (Val a, w')"
    using assms unfolding init_sdmc_def Let_def by (auto elim!: io_bind_ValE)
  have "\<exists>k. w' = w1\<lparr>kern := k, SDMC_ARCHIVE_HANDLE := Some a\<rparr>"
  proof (cases "SDMC_ARCHIVE_HANDLE w1")
    case None
    with rest show ?thesis by (auto simp: io_bind_run on_kern_def split: prod.splits outcome.splits)
  next
    case (Some b)
    with rest show ?thesis by (intro exI [of _ "kern w1"]) (cases w1, auto)
  qed
  then obtain k where k: "w' = w1\<lparr>kern := k, SDMC_ARCHIVE_HANDLE := Some a\<rparr>" ..
  from p obtain q k1 ss where q: "FS_POOL w = None" "vals q = []" "length ss = unat n"
    "w1 = w\<lparr>FS_SESSION := Some fs, FS_POOL := Some q, kern := k1, threads_started := threads_started w @ map2 IoWorkerThread [0..<unat n] ss\<rparr>"
    by (rule init_pool_Val) auto
  show thesis by (rule that [OF q(1,2,3), where fs = fs and k = k]) (simp add: k q(4))
qed

text \<open>The state that the file futures work on.\<close>

definition fs_view :: "io_mem \<Rightarrow> ('f, 'k, 'm) boot_world \<Rightarrow> ('f, 'k) fs_world" where
  "fs_view m w = \<lparr> kern = kern w, TASK_QUEUE = TASK_QUEUE w, WAKE_QUEUE = WAKE_QUEUE w, EXECUTOR_PORT = EXECUTOR_PORT w,
     REACTOR_PORT = REACTOR_PORT w, ASYNC_FS_POOL = FS_POOL w, mem = m \<rparr>"

lemma RuntimeConfiguration_run_Val:
  assumes "RuntimeConfiguration_run L B cfg w = (Val u, w')"
  shows "FS_POOL w = None \<and> REACTOR_PORT w' = REACTOR_PORT w \<and> (enable_soc cfg \<longrightarrow> SOCKET_SERVICES w' \<noteq> None) \<and>
    FS_SESSION w' \<noteq> None \<and> SDMC_ARCHIVE_HANDLE w' \<noteq> None \<and> (\<exists>q. FS_POOL w' = Some q \<and> vals q = []) \<and>
    (\<exists>tq wq server ss. TASK_QUEUE w' = Some tq \<and> WAKE_QUEUE w' = Some wq \<and> length ss = unat (fs_workers cfg) \<and>
       threads_started w' = threads_started w @
         [ExecutorThread \<lparr> ex_tasks = lm_new L, ex_task_semaphore = semaphore_handle tq, ex_wake_semaphore = semaphore_handle wq \<rparr>,
          ReactorThread server] @ map2 IoWorkerThread [0..<unat (fs_workers cfg)] ss)"
proof -
  obtain r w1 ex w2 reactor w3 w4 w5 w6 a where
    1: "sync_init B w = (Val r, w1)" and 2: "Executor_new L B w1 = (Val ex, w2)" and 3: "Reactor_new B w2 = (Val reactor, w3)"
    and 4: "Executor_run_thread B ex w3 = (Val (), w4)" and 5: "Reactor_run_thread B reactor w4 = (Val (), w5)"
    and 6: "(if enable_soc cfg then io_bind (net_init (bsoc B) (bnet B)) (\<lambda>r. lift_outcome (unwrap_result r)) else ret ()) w5 = (Val (), w6)"
    and 7: "init_sdmc B (fs_workers cfg) w6 = (Val a, w')"
    using assms unfolding RuntimeConfiguration_run_def by (auto elim!: io_bind_ValE)
  obtain h k where w1: "w1 = w\<lparr>kern := k, ADDRESS_ARBITER := h\<rparr>" using 1 by (rule sync_init_Val)
  obtain hp tq wq k2 where w2: "w2 = w1\<lparr>EXECUTOR_PORT := Some hp, TASK_QUEUE := Some tq, WAKE_QUEUE := Some wq, kern := k2\<rparr>"
    and ex: "ex = \<lparr> ex_tasks = lm_new L, ex_task_semaphore = semaphore_handle tq, ex_wake_semaphore = semaphore_handle wq \<rparr>"
    using 2 by (rule Executor_new_Val)
  obtain k3 where w3: "w3 = w2\<lparr>kern := k3\<rparr>" using 3 by (rule Reactor_new_Val)
  obtain k4 where w4: "w4 = w3\<lparr>kern := k4, threads_started := threads_started w3 @ [ExecutorThread ex]\<rparr>"
    using 4 unfolding Executor_run_thread_def by (rule start_thread_of_Val)
  obtain k5 where w5: "w5 = w4\<lparr>kern := k5, threads_started := threads_started w4 @ [ReactorThread reactor]\<rparr>"
    using 5 unfolding Reactor_run_thread_def by (rule start_thread_of_Val)
  have w6: "\<exists>k6 s6. w6 = w5\<lparr>kern := k6, SOCKET_SERVICES := s6\<rparr> \<and> (enable_soc cfg \<longrightarrow> s6 \<noteq> None)"
  proof (cases "enable_soc cfg")
    case True
    with 6 obtain rr where n: "net_init (bsoc B) (bnet B) w5 = (Val (Inr rr), w6)"
      by (auto simp: io_bind_run unwrap_result_def split: prod.splits outcome.splits sum.splits)
    show ?thesis by (rule net_init_Val [OF n]) auto
  next
    case False
    with 6 show ?thesis by (intro exI [of _ "kern w5"] exI [of _ "SOCKET_SERVICES w5"]) (cases w5, simp)
  qed
  then obtain k6 s6 where w6: "w6 = w5\<lparr>kern := k6, SOCKET_SERVICES := s6\<rparr>" "enable_soc cfg \<longrightarrow> s6 \<noteq> None" by blast
  show ?thesis
    by (rule init_sdmc_Val [OF 7]) (use w6(2) in \<open>auto simp: w6(1) w5 w4 w3 w2 w1 ex\<close>)
qed

lemma fs_open_initialised:
  assumes "FS_SESSION w \<noteq> None" "SDMC_ARCHIVE_HANDLE w \<noteq> None"
  shows "fst (fs_open B path flags w) \<noteq> Panic UnwrapNone"
  using assms
  by (auto simp: fs_open_def io_bind_run try_bind_run on_kern_def Filesystem_open_file_def coded_call_def ipc_call_def ds_try_io_def
      split: prod.splits option.splits sum.splits outcome.splits)

section \<open>Properties\<close>


text \<open>A system on which everything succeeds.\<close>

definition demo_boot :: "(sim_kernel_state, unit, u16 \<times> u8 list \<times> u32) boot_env" where
  "demo_boot = \<lparr> bk = sim_kernel, bport = open_port, bnet = demo_env,
     bsoc = \<lparr> memalign = (\<lambda>_ _ k. (0x1000, k)), svcCreateMemoryBlock = (\<lambda>_ _ _ _ k. ((0, 6), k)), srvGetServiceHandle = (\<lambda>_ k. ((0, 1), k)) \<rparr>,
     bfs = \<lparr> ipc_request = (\<lambda>_ q k. (Inr (Reply_OpenArchive 0 9), k)) \<rparr>, bcstr = (\<lambda>_. []), bspawn = (\<lambda>_ k. (True, k)),
     IPCServer_new = (\<lambda>k. (Inr (7, 8), k)), port_duplicate = (\<lambda>h k. (h, k)), svcCreateAddressArbiter = (\<lambda>k. ((0, 5), k)),
     svcSetThreadPriority = (\<lambda>_ _ k. k), fsGetSessionHandle = (\<lambda>_. 4) \<rparr>"

definition off_world :: "(unit, sim_kernel_state, u32 \<rightharpoonup> unit) boot_world" where
  "off_world = \<lparr> kern = sk_boot, TASK_QUEUE = None, WAKE_QUEUE = None, EXECUTOR_PORT = None, REACTOR_PORT = None,
     SOCKET_SERVICES = None, ADDRESS_ARBITER = 0, FS_POOL = None, FS_SESSION = None, SDMC_ARCHIVE_HANDLE = None, threads_started = [] \<rparr>"


end
