(* ===== verification/Tasks.thy ===== *)
theory Tasks
  imports Runtime
begin

text \<open>
  The parts together: the futures of the crate under the executor's loop, with the threads that
  complete them. Every future keeps to the contract the loop needs; the loop that \<^verbatim>\<open>Executor::new\<close>
  sets up sleeps only when nothing is queued; and a file read, a sleep and a receive run from the
  task queue through the pool, the reactor or the socket's worker to the end of their task. A caller
  of \<^verbatim>\<open>spawn_and_block\<close> is followed in the same way until it has the value of its future.
\<close>

section \<open>Socket requests take no permits\<close>

lemma send_to_quiet: "quiet_session K S \<Longrightarrow> quiet K (SocketService_send_to S C l Z h fd a data)"
  by (cases "sockaddr_as_bytes l Z a")
    (auto simp: SocketService_send_to_def io_bind_run posix_call_state
      intro: quiet_same [OF quiet_sessionD [of K S h "Soc_SendTo fd (word_of_nat (length data)) 0 _ 0 data _"]])

lemma recvfrom_state:
  "snd (SocketService_recvfrom S C l Z h fd data k) \<in> {k, snd (ipc_request S h
     (Soc_RecvFrom fd (word_of_nat (length data)) 0 0x1C 0 data (replicate 0x1C 0)) k)}"
  using ipc_call_state [of S h "Soc_RecvFrom fd (word_of_nat (length data)) 0 0x1C 0 data (replicate 0x1C 0)" as_RecvFrom k]
  by (auto simp: SocketService_recvfrom_def io_bind_run split: prod.split outcome.split sum.split option.split)

lemma recvfrom_quiet: "quiet_session K S \<Longrightarrow> quiet K (SocketService_recvfrom S C l Z h fd data)"
  by (rule quiet_same [OF quiet_sessionD [of K S h "Soc_RecvFrom fd (word_of_nat (length data)) 0 0x1C 0 data (replicate 0x1C 0)"]])
    (assumption, rule recvfrom_state)

section \<open>The futures of the crate\<close>

lemma behaves_if: "behaves K a \<Longrightarrow> behaves K b \<Longrightarrow> behaves K (if c then a else b)"
  by simp

lemma behaves_pool_add: "release_law K \<Longrightarrow> behaves K (pool_add K msg)"
  by (rule behaves_same)
    (auto simp: pool_add_def SyncQueue_add_def keeps_permits_refl release_keeps_permits split: option.split)

lemma behaves_services: "behaves K services"
  by (simp add: behaves_def services_def)

lemma behaves_add_interest: "release_law K \<Longrightarrow> behaves K (add_interest K s i)"
  by (rule behaves_same) (auto simp: add_interest_def SyncQueue_add_def release_keeps_permits)

lemmas behaves_intros = behaves_bind behaves_pure behaves_if behaves_on_kern behaves_wake behaves_pool_add
  behaves_services behaves_add_interest

lemma io_bind_ret_state: "snd (io_bind m (\<lambda>x. ret (f x)) w) = snd (m w)"
  by (simp add: io_bind_run split: prod.split outcome.split)

lemmas pool_poll_simps = cooperative_def behaves_def Let_def io_bind_ret_state behaves_pool_add [unfolded behaves_def, THEN spec]

interpretation read_task: cooperative_future "release_law K" K "Read_poll C K" for K :: "'k kernel" and C
  by unfold_locales (simp add: Read_poll_def pool_poll_simps)

interpretation write_task: cooperative_future "release_law K" K "Write_poll C K" for K :: "'k kernel" and C
  by unfold_locales (simp add: Write_poll_def pool_poll_simps)

interpretation flush_task: cooperative_future "release_law K" K "Flush_poll C K" for K :: "'k kernel" and C
  by unfold_locales (simp add: Flush_poll_def pool_poll_simps)

interpretation close_task: cooperative_future "quiet_session K P" K "Close_poll C P client" for K :: "'k kernel" and C P client
proof unfold_locales
  assume "quiet_session K P"
  then show "cooperative K (Close_poll C P client)"
    unfolding cooperative_def
    by (intro allI behaves_same)
      (auto simp: Close_poll_def keeps_permits_refl intro: quiet_requestD split: prod.split sum.split)
qed

text \<open>What \<^verbatim>\<open>Sleep\<close> needs of the system calls on timers, and of the port and the session of the reactor.\<close>

definition quiet_timers :: "'k kernel \<Rightarrow> 'k timers \<Rightarrow> ('k, 'x) ipc_port \<Rightarrow> (reactor_cmd, reactor_reply, 'k, 'x) ipc_session \<Rightarrow> bool" where
  "quiet_timers K T P S \<longleftrightarrow> quiet K (svcCreateTimer T) \<and> (\<forall>h d i. quiet K (\<lambda>k. ((), svcSetTimer T h d i k))) \<and>
     (\<forall>h. quiet K (make_session P h)) \<and> quiet_session K S"

lemma Sleep_poll_kern:
  assumes "quiet_timers K T P S"
  shows "keeps_permits K (kern w) (kern (snd (Sleep_poll T P S cx f w))) H"
proof -
  obtain tm k1 where t: "svcCreateTimer T (kern w) = (tm, k1)" by force
  let ?k2 = "\<lambda>d. svcSetTimer T tm d 0 k1"
  have 2: "keeps_permits K (kern w) (?k2 d) H" for d
    using quietD [of K "svcCreateTimer T", OF _ t] assms quietD [of K "\<lambda>k. ((), svcSetTimer T tm d 0 k)" k1 "()" "?k2 d"]
    unfolding quiet_timers_def by (blast intro: keeps_permits_trans)
  have 3: "keeps_permits K (kern w) k3 H" if "make_session P h (?k2 d) = (x, k3)" for d h x k3
    using keeps_permits_trans [OF 2] quietD [of K "make_session P h", OF _ that] assms by (auto simp: quiet_timers_def)
  have 4: "keeps_permits K (kern w) k4 H"
    if "make_session P h (?k2 d) = (x, k3)" "ipc_request S s q k3 = (y, k4)" for d h x k3 s q y k4
    using keeps_permits_trans [OF 3 [OF that(1)]] quiet_requestD [OF _ that(2)] assms by (simp add: quiet_timers_def)
  show ?thesis
    by (auto simp: Sleep_poll_def t Let_def keeps_permits_refl 2 intro: 3 4
        split: option.split prod.split sum.split)
qed

interpretation sleep_task: cooperative_future "quiet_timers K T P S" K "Sleep_poll T P S" for K :: "'k kernel" and T P S
proof unfold_locales
  assume "quiet_timers K T P S"
  then show "cooperative K (Sleep_poll T P S)"
    unfolding cooperative_def
    by (intro allI behaves_same Sleep_poll_kern)
      (simp_all add: Sleep_poll_def Let_def split: option.split prod.split sum.split)
qed

text \<open>The futures of a socket: a receive is given by its socket and buffer, a send by its socket and data.\<close>

definition Recv_task_poll ::
  "'k kernel \<Rightarrow> ('k, 'x, 'sa) net_env \<Rightarrow> waker \<Rightarrow> async_socket \<times> u8 list \<Rightarrow>
   (async_socket \<times> u8 list, 'k, ('x, usize) bunny_result poll \<times> async_socket \<times> u8 list) asyncio" where
  "Recv_task_poll K E cx f = io_bind (Recv_poll K E cx (fst f) (snd f)) (\<lambda>(r, data'). ret (r, (fst f, data')))"

definition Send_task_poll ::
  "'k kernel \<Rightarrow> ('k, 'x, 'sa) net_env \<Rightarrow> waker \<Rightarrow> async_socket \<times> u8 list \<Rightarrow>
   (async_socket \<times> u8 list, 'k, ('x, unit) bunny_result poll \<times> async_socket \<times> u8 list) asyncio" where
  "Send_task_poll K E cx f = io_bind (SendFuture_poll K E cx (fst f) (snd f)) (\<lambda>r. ret (r, f))"

lemma behaves_case_prod: "(\<And>a b. behaves K (f a b)) \<Longrightarrow> behaves K (case p of (a, b) \<Rightarrow> f a b)"
  by (cases p) simp

interpretation recv_task: cooperative_future "release_law K \<and> quiet_session K (ses E)" K "Recv_task_poll K E" for K :: "'k kernel" and E
  by unfold_locales
    (auto simp: cooperative_def Recv_task_poll_def Recv_poll_def TcpSocket_recv_def
      intro!: behaves_intros behaves_case_prod recvfrom_quiet)

interpretation send_task: cooperative_future "release_law K \<and> quiet_session K (ses E)" K "Send_task_poll K E" for K :: "'k kernel" and E
  by unfold_locales
    (auto simp: cooperative_def Send_task_poll_def SendFuture_poll_def TcpSocket_send_def
      intro!: behaves_intros send_to_quiet)

text \<open>The wrapper around every spawned future passes the contract on.\<close>

lemma behaves_join_complete: "behaves K (join_complete K Lt a signal value)"
  by (rule behaves_same) (auto simp: join_complete_def Let_def keeps_permits_refl split: option.split)

lemma wrap_cooperates:
  assumes "cooperative K (\<lambda>cx g. pf g cx)"
  shows "cooperative K (\<lambda>cx fut. wrap_poll K Lt pf fut cx)"
proof -
  have "behaves K (wrap_poll K Lt pf (Wrapped g a signal) cx)" for g a signal cx
    using assms
    by (auto simp: cooperative_def wrap_poll_def intro!: behaves_intros behaves_join_complete split: poll.split)
  then show ?thesis unfolding cooperative_def by (metis boxed.exhaust)
qed

section \<open>The loop that start-up enters\<close>

text \<open>\<^verbatim>\<open>Executor::new\<close> with no queues yet creates them as the step system does, and \<^verbatim>\<open>run\<close> starts from there.\<close>

lemma Executor_new_starts:
  assumes unset: "TASK_QUEUE w0 = None" "WAKE_QUEUE w0 = None"
    and server: "IPCServer_new B (kern w0) = (Inr sp, k)"
    and created: "fst (fst (svcCreateSemaphore (bk B) 0 255 k)) = 0"
      "fst (fst (svcCreateSemaphore (bk B) 0 255 (snd (svcCreateSemaphore (bk B) 0 255 k)))) = 0"
    and new: "Executor_new L B w0 = (Val ex, w1)"
  shows "life_start (bk B) (Executor_run ex, w1)"
proof -
  have "code_displays (Executor_run ex, w1) (exec_boot (bk B) k)"
    using unset server new
    by (cases sp) (auto simp: Executor_new_def io_bind_run on_kern_def queue_get_or_init_def Let_def Executor_run_def
        displays_def exec_boot_def queue_semaphores_def split: prod.splits)
  with created show ?thesis by (auto simp: life_start_def exec_start_def)
qed

section \<open>Rounds of the loop\<close>

text \<open>A call that leaves all semaphores as they are.\<close>

definition same_permits :: "'k kernel \<Rightarrow> 'k \<Rightarrow> 'k \<Rightarrow> bool" where
  "same_permits K k k' \<longleftrightarrow> sem_count K k' = sem_count K k \<and> sem_max K k' = sem_max K k"

definition silent_session :: "'k kernel \<Rightarrow> ('q, 'r, 'k, 'x) ipc_session \<Rightarrow> bool" where
  "silent_session K S \<longleftrightarrow> (\<forall>h q k. same_permits K k (snd (ipc_request S h q k)))"

text \<open>With one permit on one of its semaphores the executor empties the queue of that one.\<close>

lemma round_of_tasks:
  assumes W: "wait_any_law K" and c: "0 < sem_count K (kern w) (task_semaphore h)" "sem_count K (kern w) (wake_semaphore h) = 0"
  obtains x k where "svcWaitSynchronizationN K [task_semaphore h, wake_semaphore h] False i64_MAX (kern w) = Some (x, k)"
    "ExecutorHandler_run_round K L pf h w = Returns (drain_tasks L pf h (w\<lparr>kern := k\<rparr>))"
    "sem_count K k = (sem_count K (kern w))(task_semaphore h := sem_count K (kern w) (task_semaphore h) - 1)"
    "sem_max K k = sem_max K (kern w)"
proof (cases "svcWaitSynchronizationN K [task_semaphore h, wake_semaphore h] False i64_MAX (kern w)")
  case None
  with wait_any_law_None(1) [OF W None] c(1) show thesis by simp
next
  case (Some x)
  obtain r i k where x: "x = ((r, i), k)" by (metis prod.collapse)
  note A = wait_any_law_Some [OF W Some [unfolded x]]
  have "i = 0" using A(1,4) c(2) by auto
  with A Some x show thesis by (intro that [of "(r, i)" k]) (auto simp: ExecutorHandler_run_round_def Let_def)
qed

lemma round_of_wakes:
  assumes W: "wait_any_law K" and c: "sem_count K (kern w) (task_semaphore h) = 0" "0 < sem_count K (kern w) (wake_semaphore h)"
  obtains k where "ExecutorHandler_run_round K L pf h w = Returns (drain_wake L pf h (w\<lparr>kern := k\<rparr>))"
    "sem_count K k = (sem_count K (kern w))(wake_semaphore h := sem_count K (kern w) (wake_semaphore h) - 1)"
    "sem_max K k = sem_max K (kern w)"
proof (cases "svcWaitSynchronizationN K [task_semaphore h, wake_semaphore h] False i64_MAX (kern w)")
  case None
  with wait_any_law_None(2) [OF W None] c(2) show thesis by simp
next
  case (Some x)
  obtain r i k where x: "x = ((r, i), k)" by (metis prod.collapse)
  note A = wait_any_law_Some [OF W Some [unfolded x]]
  have "i = 1" using A(1,4) c(1) by auto
  with A Some x show thesis by (intro that [of k]) (auto simp: ExecutorHandler_run_round_def Let_def)
qed

text \<open>A queue with one element: the task that is polled for the first time, and the task that finishes.\<close>

lemma drain_one_task:
  assumes "TASK_QUEUE w = Some q" "vals q = [fut]" "task_counter h \<noteq> u32_MAX"
    and "pf fut (make_waker (task_counter h)) (w\<lparr>TASK_QUEUE := Some (q\<lparr>vals := []\<rparr>)\<rparr>) = (Val (Pending, fut'), w1)"
    and "TASK_QUEUE w1 = Some (q\<lparr>vals := []\<rparr>)"
  shows "drain_tasks L pf h w = Some (Val (h\<lparr>task_counter := task_counter h + 1,
    tasks := lm_insert L (task_counter h) fut' (tasks h)\<rparr>), w1)"
  using assms by (simp add: drain_tasks.simps task_queue_remove_def SyncQueue_remove_def spawn_run)

lemma drain_one_wake:
  assumes "WAKE_QUEUE w = Some q" "vals q = [t]" "lm_get L (tasks h) t = Some fut"
    and "pf fut (make_waker t) (w\<lparr>WAKE_QUEUE := Some (q\<lparr>vals := []\<rparr>)\<rparr>) = (Val (Ready (), fut'), w1)"
    and "WAKE_QUEUE w1 = Some (q\<lparr>vals := []\<rparr>)"
  shows "drain_wake L pf h w = Some (Val (h\<lparr>tasks := snd (lm_remove L t (lm_set L t fut' (tasks h)))\<rparr>), w1)"
  using assms by (simp add: drain_wake.simps wake_queue_remove_def SyncQueue_remove_def wake_run)

text \<open>The round of a worker that finds one operation.\<close>

lemma worker_round_one:
  assumes "wait_law K" "ds_try_law C" "ASYNC_FS_POOL w = Some q" "vals q = [op]" "0 < sem_count K (kern w) (semaphore_handle q)"
  obtains k where "IoWorker_round S C K w = Returns (IoWorker_handle S C K op (w\<lparr>kern := k, ASYNC_FS_POOL := Some (q\<lparr>vals := []\<rparr>)\<rparr>))"
    "sem_count K k = (sem_count K (kern w))(semaphore_handle q := sem_count K (kern w) (semaphore_handle q) - 1)"
    "sem_max K k = sem_max K (kern w)"
proof -
  obtain c k where k: "svcWaitSynchronization K (semaphore_handle q) i64_MAX (kern w) = Some (c, k)"
    using wait_law_returns [OF assms(1,5)] by fastforce
  with wait_law_Some [OF assms(1) k] assms(2) have "SyncQueue_wait K C i64_MAX q (kern w) = Some (Inr (), k)"
    by (simp add: SyncQueue_wait_def ds_try_law_def)
  with assms(3,4) wait_law_Some(3,4) [OF assms(1) k] show thesis
    by (intro that [of k]) (simp_all add: IoWorker_round_def SyncQueue_remove_def)
qed

section \<open>A file read, from the task queue to the end of its task\<close>

text \<open>Nothing but one new task is queued for the executor.\<close>

definition one_task_queued ::
  "'k kernel \<Rightarrow> 'm executor_handler \<Rightarrow> 'f \<Rightarrow> ('f, 'k, 'z) runtime_scheme \<Rightarrow> bool" where
  "one_task_queued K h fut w \<longleftrightarrow>
     TASK_QUEUE w = Some \<lparr> semaphore_handle = task_semaphore h, vals = [fut] \<rparr> \<and>
     WAKE_QUEUE w = Some \<lparr> semaphore_handle = wake_semaphore h, vals = [] \<rparr> \<and> task_semaphore h \<noteq> wake_semaphore h \<and>
     sem_count K (kern w) (task_semaphore h) = 1 \<and> sem_count K (kern w) (wake_semaphore h) = 0 \<and>
     0 < sem_max K (kern w) (wake_semaphore h)"

text \<open>The task waits, with its token \<open>t\<close> in nobody's queue.\<close>

definition task_parked ::
  "'k kernel \<Rightarrow> 'm executor_handler \<Rightarrow> ('f, 'k, 'z) runtime_scheme \<Rightarrow> bool" where
  "task_parked K h w \<longleftrightarrow>
     TASK_QUEUE w = Some \<lparr> semaphore_handle = task_semaphore h, vals = [] \<rparr> \<and>
     WAKE_QUEUE w = Some \<lparr> semaphore_handle = wake_semaphore h, vals = [] \<rparr> \<and> task_semaphore h \<noteq> wake_semaphore h \<and>
     sem_count K (kern w) (task_semaphore h) = 0 \<and> sem_count K (kern w) (wake_semaphore h) = 0 \<and>
     0 < sem_max K (kern w) (wake_semaphore h)"

lemma next_token_free: "handler_wf L h \<Longrightarrow> lm_get L (tasks h) (task_counter h) = None"
  by (force simp: handler_wf_def)

text \<open>The first round polls the task, which stays pending and is entered into the table.\<close>

lemma first_round_parks:
  assumes W: "wait_any_law K" and q: "one_task_queued K h fut w" and c: "task_counter h \<noteq> u32_MAX"
    and poll: "\<And>x k. svcWaitSynchronizationN K [task_semaphore h, wake_semaphore h] False i64_MAX (kern w) = Some (x, k) \<Longrightarrow>
      sem_count K k = (sem_count K (kern w))(task_semaphore h := 0) \<Longrightarrow> sem_max K k = sem_max K (kern w) \<Longrightarrow>
      \<exists>fut' w1. pf fut (make_waker (task_counter h)) (w\<lparr>kern := k, TASK_QUEUE := Some \<lparr> semaphore_handle = task_semaphore h, vals = [] \<rparr>\<rparr>) =
        (Val (Pending, fut'), w1) \<and> task_parked K h w1 \<and> P fut' w1"
  obtains h1 fut' w1 where "ExecutorHandler_run_round K L pf h w = Returns (Some (Val h1, w1))" "task_parked K h1 w1" "P fut' w1"
    "h1 = h\<lparr>task_counter := task_counter h + 1, tasks := lm_insert L (task_counter h) fut' (tasks h)\<rparr>"
proof -
  have c1: "0 < sem_count K (kern w) (task_semaphore h)" "sem_count K (kern w) (wake_semaphore h) = 0"
    using q by (simp_all add: one_task_queued_def)
  obtain x k where k: "svcWaitSynchronizationN K [task_semaphore h, wake_semaphore h] False i64_MAX (kern w) = Some (x, k)"
    "ExecutorHandler_run_round K L pf h w = Returns (drain_tasks L pf h (w\<lparr>kern := k\<rparr>))"
    "sem_count K k = (sem_count K (kern w))(task_semaphore h := 0)" "sem_max K k = sem_max K (kern w)"
    using round_of_tasks [OF W c1, of L pf] q by (auto simp: one_task_queued_def)
  from poll [OF k(1,3,4)] obtain fut' w1 where
    w1: "pf fut (make_waker (task_counter h)) (w\<lparr>kern := k, TASK_QUEUE := Some \<lparr> semaphore_handle = task_semaphore h, vals = [] \<rparr>\<rparr>) =
      (Val (Pending, fut'), w1)" "task_parked K h w1" "P fut' w1" by blast
  have "drain_tasks L pf h (w\<lparr>kern := k\<rparr>) = Some (Val (h\<lparr>task_counter := task_counter h + 1,
      tasks := lm_insert L (task_counter h) fut' (tasks h)\<rparr>), w1)"
    by (rule drain_one_task [where q = "\<lparr> semaphore_handle = task_semaphore h, vals = [fut] \<rparr>"])
      (use q c w1 in \<open>simp_all add: one_task_queued_def task_parked_def\<close>)
  with k(2) w1 show thesis 
    by (intro that [of "h\<lparr>task_counter := task_counter h + 1, tasks := lm_insert L (task_counter h) fut' (tasks h)\<rparr>" w1 fut'])
      (simp_all add: task_parked_def)
qed

text \<open>Once its token is queued, the next round polls it, and a task that is then ready leaves the table.\<close>

lemma woken_round_ends:
  assumes L: "lite_map_laws L" and W: "wait_any_law K" and live: "lm_get L (tasks h) t = Some fut"
    and q: "TASK_QUEUE w = Some \<lparr> semaphore_handle = task_semaphore h, vals = [] \<rparr>"
      "WAKE_QUEUE w = Some \<lparr> semaphore_handle = wake_semaphore h, vals = [t] \<rparr>"
    and c: "sem_count K (kern w) (task_semaphore h) = 0" "0 < sem_count K (kern w) (wake_semaphore h)"
    and poll: "\<And>k. \<exists>fut' w'. pf fut (make_waker t) (w\<lparr>kern := k, WAKE_QUEUE := Some \<lparr> semaphore_handle = wake_semaphore h, vals = [] \<rparr>\<rparr>) =
      (Val (Ready (), fut'), w') \<and> WAKE_QUEUE w' = Some \<lparr> semaphore_handle = wake_semaphore h, vals = [] \<rparr> \<and> P w'"
  obtains h' w' where "ExecutorHandler_run_round K L pf h w = Returns (Some (Val h', w'))"
    "lm_get L (tasks h') = (lm_get L (tasks h))(t := None)" "P w'"
proof -
  obtain k where k: "ExecutorHandler_run_round K L pf h w = Returns (drain_wake L pf h (w\<lparr>kern := k\<rparr>))"
    using round_of_wakes [OF W c] by metis
  obtain fut' w' where p: "pf fut (make_waker t) (w\<lparr>kern := k, WAKE_QUEUE := Some \<lparr> semaphore_handle = wake_semaphore h, vals = [] \<rparr>\<rparr>) =
      (Val (Ready (), fut'), w')" "WAKE_QUEUE w' = Some \<lparr> semaphore_handle = wake_semaphore h, vals = [] \<rparr>" "P w'"
    using poll [of k] by blast
  have "drain_wake L pf h (w\<lparr>kern := k\<rparr>) = Some (Val (h\<lparr>tasks := snd (lm_remove L t (lm_set L t fut' (tasks h)))\<rparr>), w')"
    by (rule drain_one_wake [where q = "\<lparr> semaphore_handle = wake_semaphore h, vals = [t] \<rparr>" and fut = fut])
      (use q live p in simp_all)
  with k p(3) show thesis
    by (intro that [of "h\<lparr>tasks := snd (lm_remove L t (lm_set L t fut' (tasks h)))\<rparr>" w'])
      (simp_all add: lite_map_lawsD(4,5) [OF L] live fun_eq_iff)
qed

text \<open>The same for a poll that leaves everything but the kernel alone.\<close>

lemma woken_round_finishes:
  assumes L: "lite_map_laws L" and W: "wait_any_law K" and live: "lm_get L (tasks h) t = Some fut"
    and q: "TASK_QUEUE w = Some \<lparr> semaphore_handle = task_semaphore h, vals = [] \<rparr>"
      "WAKE_QUEUE w = Some \<lparr> semaphore_handle = wake_semaphore h, vals = [t] \<rparr>"
    and c: "sem_count K (kern w) (task_semaphore h) = 0" "0 < sem_count K (kern w) (wake_semaphore h)"
    and poll: "\<And>k. \<exists>fut' k'. pf fut (make_waker t) (w\<lparr>kern := k, WAKE_QUEUE := Some \<lparr> semaphore_handle = wake_semaphore h, vals = [] \<rparr>\<rparr>) =
      (Val (Ready (), fut'), w\<lparr>kern := k', WAKE_QUEUE := Some \<lparr> semaphore_handle = wake_semaphore h, vals = [] \<rparr>\<rparr>)"
  obtains h' k where "ExecutorHandler_run_round K L pf h w =
      Returns (Some (Val h', w\<lparr>kern := k, WAKE_QUEUE := Some \<lparr> semaphore_handle = wake_semaphore h, vals = [] \<rparr>\<rparr>))"
    "lm_get L (tasks h') = (lm_get L (tasks h))(t := None)"
proof (rule woken_round_ends [where pf = pf and P = "\<lambda>w'. \<exists>k'. w' = w\<lparr>kern := k', WAKE_QUEUE := Some \<lparr> semaphore_handle = wake_semaphore h, vals = [] \<rparr>\<rparr>",
      OF L W live q c])
  fix k
  obtain fut' k' where "pf fut (make_waker t) (w\<lparr>kern := k, WAKE_QUEUE := Some \<lparr> semaphore_handle = wake_semaphore h, vals = [] \<rparr>\<rparr>) =
      (Val (Ready (), fut'), w\<lparr>kern := k', WAKE_QUEUE := Some \<lparr> semaphore_handle = wake_semaphore h, vals = [] \<rparr>\<rparr>)"
    using poll [of k] by blast
  then show "\<exists>fut' w'. pf fut (make_waker t) (w\<lparr>kern := k, WAKE_QUEUE := Some \<lparr> semaphore_handle = wake_semaphore h, vals = [] \<rparr>\<rparr>) =
      (Val (Ready (), fut'), w') \<and> WAKE_QUEUE w' = Some \<lparr> semaphore_handle = wake_semaphore h, vals = [] \<rparr> \<and>
      (\<exists>k'. w' = w\<lparr>kern := k', WAKE_QUEUE := Some \<lparr> semaphore_handle = wake_semaphore h, vals = [] \<rparr>\<rparr>)" by auto
qed (use that in blast)

text \<open>The worker's part: the operation is taken, done, and the task's token queued.\<close>

lemma worker_serves_read:
  fixes w1 :: "('f, 'k) fs_world"
  assumes laws: "release_law K" "wait_law K" "ds_try_law C" "silent_session K S"
    and parked: "task_parked K h w1" and mem: "mem w1 = m\<lparr>at_i32 := (at_i32 m)(sa := 0), at_u32 := (at_u32 m)(ba := u32_MAX)\<rparr>"
    and pool: "ASYNC_FS_POOL w1 = Some \<lparr> semaphore_handle = ph, vals = [Async_Read (operation_of fut (make_waker t))] \<rparr>"
      "0 < sem_count K (kern w1) ph" "ph \<notin> {task_semaphore h, wake_semaphore h}"
    and fut: "fut = \<lparr> f_file = file, f_offset = off, f_data_ptr = ptr, f_len = len, f_state = sa, f_bytes = ba, f_registered = False \<rparr>"
    and reads: "\<And>k. fst (FileHandle_read S C file (ucast off) (slice_at m ptr len) k) = Val (res, data)" "length data = unat len"
    and st: "resolve_io res = Val c"
  obtains w2 where "IoWorker_round S C K w1 = Returns (Val (), w2)"
    "TASK_QUEUE w2 = Some \<lparr> semaphore_handle = task_semaphore h, vals = [] \<rparr>"
    "WAKE_QUEUE w2 = Some \<lparr> semaphore_handle = wake_semaphore h, vals = [t] \<rparr>"
    "sem_count K (kern w2) (task_semaphore h) = 0" "0 < sem_count K (kern w2) (wake_semaphore h)"
    "slice_at (mem w2) ptr len = data" "io_cell fut (mem w2) = c"
proof -
  let ?op = "operation_of fut (make_waker t)"
  obtain k where k: "IoWorker_round S C K w1 = Returns (IoWorker_handle S C K (Async_Read ?op)
      (w1\<lparr>kern := k, ASYNC_FS_POOL := Some \<lparr> semaphore_handle = ph, vals = [] \<rparr>\<rparr>))"
    "sem_count K k = (sem_count K (kern w1))(ph := sem_count K (kern w1) ph - 1)" "sem_max K k = sem_max K (kern w1)"
    using worker_round_one [OF laws(2,3) pool(1), of "Async_Read ?op" S] pool(2) by auto
  obtain k3 where k3: "FileHandle_read S C file (ucast off) (slice_at m ptr len) k = (Val (res, data), k3)"
    using reads(1) [of k] by (metis prod.collapse)
  have sem: "sem_count K k3 = sem_count K k" "sem_max K k3 = sem_max K k"
    using laws(4) read_state [of S C "file" "ucast off" "slice_at m ptr len" k] k3 unfolding silent_session_def same_permits_def by auto
  obtain st n where c: "c = (st, n)" by force
  let ?wa = "w1\<lparr>kern := k, ASYNC_FS_POOL := Some \<lparr> semaphore_handle = ph, vals = [] \<rparr>\<rparr>"
  let ?wq = "\<lparr> semaphore_handle = wake_semaphore h, vals = [] \<rparr>"
  have "IoWorker_handle S C K (Async_Read ?op) ?wa = (Val (),
      ?wa\<lparr>mem := (store_slice ptr data (mem w1))\<lparr>at_i32 := (at_i32 (mem w1))(sa := st), at_u32 := (at_u32 (mem w1))(ba := n)\<rparr>,
        WAKE_QUEUE := Some (push_back t ?wq), kern := release_one K (wake_semaphore h) k3\<rparr>)"
    using handle_read_run [of S C ?op ?wa res data k3 st n ?wq K] k3 st c parked by (simp add: operation_of_def fut mem task_parked_def)
  then have run: "IoWorker_round S C K w1 = Returns (Val (),
      ?wa\<lparr>mem := (store_slice ptr data (mem w1))\<lparr>at_i32 := (at_i32 (mem w1))(sa := st), at_u32 := (at_u32 (mem w1))(ba := n)\<rparr>,
        WAKE_QUEUE := Some (push_back t ?wq), kern := release_one K (wake_semaphore h) k3\<rparr>)" using k(1) by simp
  show thesis
    by (rule that [OF run])
      (use parked pool(3) k(2,3) sem release_lawD [OF laws(1), of "wake_semaphore h" k3] slice_of_stored [OF reads(2)]
       in \<open>auto simp: task_parked_def push_back_def release_one_def io_cell_def fut c\<close>)
qed

lemma read_first_round:
  fixes w :: "(io_future, 'k) fs_world"
  assumes K: "release_law K" "wait_any_law K" and fresh: "\<not> f_registered fut" "io_cell fut (mem w) = (0, u32_MAX)"
    and queued: "one_task_queued K h fut w" and c: "task_counter h \<noteq> u32_MAX"
    and pool: "ASYNC_FS_POOL w = Some \<lparr> semaphore_handle = ph, vals = [] \<rparr>" "0 < sem_max K (kern w) ph"
      "ph \<notin> {task_semaphore h, wake_semaphore h}"
  obtains h1 w1 where "ExecutorHandler_run_round K L (awaiting (Read_poll C K)) h w = Returns (Some (Val h1, w1))"
    "task_parked K h1 w1" "mem w1 = mem w" "0 < sem_count K (kern w1) ph"
    "ASYNC_FS_POOL w1 = Some \<lparr> semaphore_handle = ph, vals = [Async_Read (operation_of fut (make_waker (task_counter h)))] \<rparr>"
    "h1 = h\<lparr>task_counter := task_counter h + 1, tasks := lm_insert L (task_counter h) (fut\<lparr>f_registered := True\<rparr>) (tasks h)\<rparr>"
proof -
  let ?t = "task_counter h" and ?f1 = "fut\<lparr>f_registered := True\<rparr>" and ?pf = "awaiting (Read_poll C K)"
  let ?pq = "\<lparr> semaphore_handle = ph, vals = [Async_Read (operation_of fut (make_waker ?t))] \<rparr>"
  let ?P = "\<lambda>f' w1. f' = ?f1 \<and> mem w1 = mem w \<and> ASYNC_FS_POOL w1 = Some ?pq \<and> 0 < sem_count K (kern w1) ph"
  have poll: "\<exists>f' w1. ?pf fut (make_waker ?t) (w\<lparr>kern := k, TASK_QUEUE := Some \<lparr> semaphore_handle = task_semaphore h, vals = [] \<rparr>\<rparr>) =
      (Val (Pending, f'), w1) \<and> task_parked K h w1 \<and> ?P f' w1"
    if k: "sem_count K k = (sem_count K (kern w))(task_semaphore h := 0)" "sem_max K k = sem_max K (kern w)" for k
  proof -
    let ?w = "w\<lparr>kern := k, TASK_QUEUE := Some \<lparr> semaphore_handle = task_semaphore h, vals = [] \<rparr>\<rparr>"
    have "Read_poll C K (make_waker ?t) fut ?w = (Val (Pending, ?f1), ?w\<lparr>kern := release_one K ph k, ASYNC_FS_POOL := Some ?pq\<rparr>)"
      using read_fut.submits [of fut ?w "\<lparr> semaphore_handle = ph, vals = [] \<rparr>" C K "make_waker ?t"] pool(1) fresh
      by (simp add: push_back_def)
    then show ?thesis
      using queued pool k release_lawD [OF K(1), of ph k]
      by (auto simp: awaiting_run task_parked_def one_task_queued_def release_one_def)
  qed
  show thesis
    by (rule first_round_parks [OF K(2) queued c, of ?pf ?P L]) (erule poll, assumption, use that in blast)
qed

text \<open>C6: A file read under the executor, from start to end. A task that awaits a new \<^verbatim>\<open>Read\<close> is in the task queue. The executor's
  round polls it and keeps it under a fresh token; a worker's round does not block and does the read; the executor's
  next round does not block either, and polls the task, which finds the very result of the read and leaves the
  table. The buffer holds the data, no other task is touched, and nothing is left in the queues.\<close>

theorem file_read_task_completes:
  fixes w :: "(io_future, 'k) fs_world"
  assumes laws: "exec_laws K" "wait_law K" "ds_try_law C" "result_code_law C" "lite_map_laws L" "silent_session K S"
    and new: "Read_new file off ptr len sa ba m = (fut, mem w)" and queued: "one_task_queued K h fut w"
    and pool: "ASYNC_FS_POOL w = Some \<lparr> semaphore_handle = ph, vals = [] \<rparr>" "0 < sem_max K (kern w) ph"
      "ph \<notin> {task_semaphore h, wake_semaphore h}"
    and h: "handler_wf L h" "task_counter h \<noteq> u32_MAX"
    and reads: "\<And>k. fst (FileHandle_read S C file (ucast off) (slice_at m ptr len) k) = Val (res, data)"
      "settled C (\<lambda>n. n \<noteq> u32_MAX) res" "length data = unat len"
  shows "\<exists>h1 w1 w2 h3 w3.
    ExecutorHandler_run_round K L (awaiting (Read_poll C K)) h w = Returns (Some (Val h1, w1)) \<and>
    lm_get L (tasks h1) = (lm_get L (tasks h))(task_counter h \<mapsto> fut\<lparr>f_registered := True\<rparr>) \<and>
    IoWorker_round S C K w1 = Returns (Val (), w2) \<and>
    (\<forall>cx. Read_poll C K cx (fut\<lparr>f_registered := True\<rparr>) w2 = (Val (Ready res, fut\<lparr>f_registered := True\<rparr>), w2)) \<and>
    ExecutorHandler_run_round K L (awaiting (Read_poll C K)) h1 w2 = Returns (Some (Val h3, w3)) \<and>
    lm_get L (tasks h3) = lm_get L (tasks h) \<and> slice_at (mem w3) ptr len = data \<and> queued_tasks w3 = [] \<and> queued_wakes w3 = []"
proof -
  let ?t = "task_counter h" and ?f1 = "fut\<lparr>f_registered := True\<rparr>" and ?pf = "awaiting (Read_poll C K)"
  have R: "release_law K" "wait_any_law K" using laws(1) by (simp_all add: exec_laws_def)
  have f: "fut = \<lparr> f_file = file, f_offset = off, f_data_ptr = ptr, f_len = len, f_state = sa, f_bytes = ba, f_registered = False \<rparr>"
    and m: "mem w = m\<lparr>at_i32 := (at_i32 m)(sa := 0), at_u32 := (at_u32 m)(ba := u32_MAX)\<rparr>"
    using new by (simp_all add: Read_new_def)
  have fresh: "\<not> f_registered fut" "io_cell fut (mem w) = (0, u32_MAX)" by (simp_all add: f m io_cell_def)
  obtain c where c: "resolve_io res = Val c" "observe_io C c = Ready res" using resolve_io_settled [OF laws(4) reads(2)] by metis
  obtain h1 w1 where r1: "ExecutorHandler_run_round K L ?pf h w = Returns (Some (Val h1, w1))" "task_parked K h1 w1" "mem w1 = mem w"
    "0 < sem_count K (kern w1) ph" "ASYNC_FS_POOL w1 = Some \<lparr> semaphore_handle = ph, vals = [Async_Read (operation_of fut (make_waker ?t))] \<rparr>"
    "h1 = h\<lparr>task_counter := ?t + 1, tasks := lm_insert L ?t ?f1 (tasks h)\<rparr>"
    by (rule read_first_round [OF R fresh queued h(2) pool])
  have ph: "ph \<notin> {task_semaphore h1, wake_semaphore h1}" using pool(3) r1(6) by simp
  obtain w2 where w2: "IoWorker_round S C K w1 = Returns (Val (), w2)"
    "TASK_QUEUE w2 = Some \<lparr> semaphore_handle = task_semaphore h1, vals = [] \<rparr>"
    "WAKE_QUEUE w2 = Some \<lparr> semaphore_handle = wake_semaphore h1, vals = [?t] \<rparr>"
    "sem_count K (kern w2) (task_semaphore h1) = 0" "0 < sem_count K (kern w2) (wake_semaphore h1)"
    "slice_at (mem w2) ptr len = data" "io_cell fut (mem w2) = c"
    by (rule worker_serves_read [OF R(1) laws(2,3,6) r1(2) _ r1(5,4) ph f reads(1,3) c(1)]) (use r1(3) m in auto)
  have fin: "Read_poll C K cx ?f1 w' = (Val (Ready res, ?f1), w')" if "mem w' = mem w2" for cx and w' :: "(io_future, 'k) fs_world"
    using read_fut.finishes [of fut w' c C res K cx] w2(7) c(2) that by simp
  have live: "lm_get L (tasks h1) = (lm_get L (tasks h))(?t \<mapsto> ?f1)" by (simp add: r1(6) lite_map_lawsD(2) [OF laws(5)])
  obtain h3 k where r3: "ExecutorHandler_run_round K L ?pf h1 w2 =
      Returns (Some (Val h3, w2\<lparr>kern := k, WAKE_QUEUE := Some \<lparr> semaphore_handle = wake_semaphore h1, vals = [] \<rparr>\<rparr>))"
    "lm_get L (tasks h3) = (lm_get L (tasks h1))(?t := None)"
    by (rule woken_round_finishes [OF laws(5) R(2) _ w2(2-5), of ?f1 ?pf]) (auto simp: live awaiting_run fin)
  have "lm_get L (tasks h) ?t = None" using h(1) by (rule next_token_free)
  then have "lm_get L (tasks h3) = lm_get L (tasks h)" using r3(2) live by (auto simp: fun_eq_iff)
  then show ?thesis
    using r1(1) live w2(1,2,6) r3(1) fin [OF refl]
    by (intro exI [of _ h1] exI [of _ w1] exI [of _ w2] exI [of _ h3]
        exI [of _ "w2\<lparr>kern := k, WAKE_QUEUE := Some \<lparr> semaphore_handle = wake_semaphore h1, vals = [] \<rparr>\<rparr>"])
      (simp add: queued_tasks_def queued_wakes_def)
qed

text \<open>A process whose executor has token 7 to give, with one task queued and the pool empty.\<close>

definition task_handler :: "(u32 \<rightharpoonup> 'f) executor_handler" where
  "task_handler = \<lparr> task_counter = 7, tasks = Map.empty, task_semaphore = 0, wake_semaphore = 1 \<rparr>"

definition one_permit :: sim_kernel_state where
  "one_permit = sk_boot\<lparr>sk_count := (\<lambda>_. 0)(0 := 1), sk_max := (\<lambda>_. 255)\<rparr>"

definition read_world :: "io_future \<times> io_mem \<Rightarrow> (io_future, sim_kernel_state) fs_world" where
  "read_world n = \<lparr> kern = one_permit, TASK_QUEUE = Some \<lparr> semaphore_handle = 0, vals = [fst n] \<rparr>,
     WAKE_QUEUE = Some \<lparr> semaphore_handle = 1, vals = [] \<rparr>, EXECUTOR_PORT = None, REACTOR_PORT = None,
     ASYNC_FS_POOL = Some \<lparr> semaphore_handle = 2, vals = [] \<rparr>, mem = snd n \<rparr>"

theorem file_read_task_completes_witness:
  "\<exists>h1 w1 w2 h3 w3.
    ExecutorHandler_run_round sim_kernel fun_lite_map (awaiting (Read_poll (sim_ctru :: unit ctru) sim_kernel)) task_handler
      (read_world (Read_new 5 16 64 2 8 12 blank_mem)) = Returns (Some (Val h1, w1)) \<and> tasks h1 7 \<noteq> None \<and>
    IoWorker_round demo_file (sim_ctru :: unit ctru) sim_kernel w1 = Returns (Val (), w2) \<and>
    ExecutorHandler_run_round sim_kernel fun_lite_map (awaiting (Read_poll (sim_ctru :: unit ctru) sim_kernel)) h1 w2 = Returns (Some (Val h3, w3)) \<and>
    tasks h3 = Map.empty \<and> slice_at (mem w3) 64 2 = [9, 9]"
proof -
  define n where "n = Read_new 5 16 64 2 8 12 blank_mem"
  have new: "Read_new 5 16 64 2 8 12 blank_mem = (fst n, mem (read_world n))" by (simp add: n_def read_world_def)
  have silent: "silent_session sim_kernel demo_file" by (simp add: silent_session_def same_permits_def demo_file_def)
  have q: "one_task_queued sim_kernel task_handler (fst n) (read_world n)"
    by (simp add: one_task_queued_def task_handler_def read_world_def one_permit_def sim_kernel_def)
  have wf: "handler_wf fun_lite_map task_handler" by (simp add: handler_wf_def fun_lite_map_def task_handler_def)
  have reads: "fst (FileHandle_read demo_file (sim_ctru :: unit ctru) 5 (ucast (16 :: u32)) (slice_at blank_mem 64 2) k) = Val (Inr 0, [9, 9])" for k
    by (simp add: FileHandle_read_def io_bind_def ipc_call_def demo_file_def sim_ctru_def slice_at_def blank_mem_def upt_rec)
  have res: "settled (sim_ctru :: unit ctru) (\<lambda>n. n \<noteq> u32_MAX) (Inr 0)" by (simp add: settled_def)
  from file_read_task_completes [OF sim_exec_laws sim_kernel_laws(2) sim_ctru_laws fun_lite_map_laws silent new q _ _ _ wf _ reads res, of 2]
  show ?thesis
    by (simp add: read_world_def one_permit_def sim_kernel_def task_handler_def)
      (auto simp: n_def fun_lite_map_def)
qed

section \<open>A sleep, from the task queue to the end of its task\<close>

text \<open>The clock during a round of the executor.\<close>

definition at_time :: "nat \<Rightarrow> 'k timers \<Rightarrow> 'k timers" where
  "at_time now T = T\<lparr>Instant_now := (\<lambda>_. now)\<rparr>"

text \<open>
  The reactor's thread as the other end of the session. Its state is a part \<open>R\<close> of the rest of
  the process: a request that is answered was handled by its handler, and no other call touches it.
\<close>

definition served_by ::
  "('m, u32, task_token list) lite_map \<Rightarrow> 's ipc_server \<Rightarrow> ('k \<Rightarrow> 'm reactor_handler \<times> 's) \<Rightarrow>
   (reactor_cmd, reactor_reply, 'k, 'x) ipc_session \<Rightarrow> bool" where
  "served_by M V R S \<longleftrightarrow> (\<forall>s cmd k r k'. ipc_request S s cmd k = (Inr r, k') \<longrightarrow>
     ReactorHandler_handle_request M V cmd (R k) = (Val r, R k'))"

definition untouched_by :: "'k kernel \<Rightarrow> 'k timers \<Rightarrow> ('k, 'x) ipc_port \<Rightarrow> ('k \<Rightarrow> 'b) \<Rightarrow> bool" where
  "untouched_by K T P R \<longleftrightarrow>
     (\<forall>hs k x k'. svcWaitSynchronizationN K hs False i64_MAX k = Some (x, k') \<longrightarrow> R k' = R k) \<and>
     (\<forall>k. R (snd (svcCreateTimer T k)) = R k) \<and> (\<forall>h d i k. R (svcSetTimer T h d i k) = R k) \<and>
     (\<forall>h k. R (snd (make_session P h k)) = R k)"

text \<open>The services of the reactor are up and register handles, and none of them changes a semaphore.\<close>

definition reactor_up ::
  "'k kernel \<Rightarrow> 'k timers \<Rightarrow> ('k, 'x) ipc_port \<Rightarrow> (reactor_cmd, reactor_reply, 'k, 'x) ipc_session \<Rightarrow> bool" where
  "reactor_up K T P S \<longleftrightarrow> silent_session K S \<and> (\<forall>k. same_permits K k (snd (svcCreateTimer T k))) \<and>
     (\<forall>h d i k. same_permits K k (svcSetTimer T h d i k)) \<and> (\<forall>h k. same_permits K k (snd (make_session P h k))) \<and>
     (\<forall>h k. \<not> isl (fst (make_session P h k))) \<and> (\<forall>s t tm k. \<not> isl (fst (ipc_request S s (AddHandle t tm) k)))"

text \<open>The first poll arms a timer and registers the task for it with the reactor.\<close>

lemma Sleep_poll_registers:
  fixes w :: "('f, 'k, 'z) runtime_scheme"
  assumes up: "reactor_up K T P S" and served: "served_by M V R S" and apart: "untouched_by K T P R"
    and M: "lite_map_laws M" and early: "now < deadline sl" "timer sl = None" and port: "REACTOR_PORT w = Some p"
    and tm: "fst (svcCreateTimer T (kern w)) = tm"
  obtains k where "Sleep_poll (at_time now T) P S (make_waker t) sl w = (Val (Pending, sl\<lparr>timer := Some tm\<rparr>), w\<lparr>kern := k\<rparr>)"
    "same_permits K (kern w) k"
    "registered M (fst (R k)) = (registered M (fst (R (kern w))))(tm := registered M (fst (R (kern w))) tm @ [t])"
    "reactor_wf M (fst (R (kern w))) \<longrightarrow> reactor_wf M (fst (R k))"
proof -
  obtain k1 where k1: "svcCreateTimer T (kern w) = (tm, k1)" using tm by (metis prod.collapse)
  define k2 where "k2 = svcSetTimer T tm (word_of_nat (deadline sl - now)) 0 k1"
  obtain s k3 where k3: "make_session P p k2 = (Inr s, k3)"
    using up unfolding reactor_up_def by (metis isl_def prod.collapse sum.collapse(2))
  obtain r k4 where k4: "ipc_request S s (AddHandle t tm) k3 = (Inr r, k4)"
    using up unfolding reactor_up_def by (metis isl_def prod.collapse sum.collapse(2))
  have R: "R k1 = R (kern w)" "R k2 = R k1" "R k3 = R k2"
    using apart k1 k3 unfolding untouched_by_def k2_def by (metis snd_conv)+
  have "same_permits K (kern w) k1" "same_permits K k1 k2" "same_permits K k2 k3" "same_permits K k3 k4"
    using up k1 k3 k4 unfolding reactor_up_def silent_session_def k2_def by (metis snd_conv)+
  then have sem: "same_permits K (kern w) k4" by (simp add: same_permits_def)
  obtain rh srv where h: "R (kern w) = (rh, srv)" by force
  obtain rh' where rh': "ReactorHandler_handle_request M V (AddHandle t tm) (rh, srv) = (Val ReactorOk, (rh', add_handle_to_list V tm srv))"
    "registered M rh' = (registered M rh)(tm := registered M rh tm @ [t])" "reactor_wf M rh \<Longrightarrow> reactor_wf M rh'"
    using handle_request_add [OF M, of V t tm rh srv] by metis
  have "R k4 = (rh', add_handle_to_list V tm srv)"
    using served [unfolded served_by_def] k4 R h rh'(1) by (metis Pair_inject)
  then show thesis
    using early port k1 k3 k4 sem rh' h
    by (intro that [of k4]) (auto simp: Sleep_poll_def at_time_def add_handle_for_waker_def make_waker_def k2_def Let_def)
qed

text \<open>The timer's signal queues the token of the one task registered for it.\<close>

lemma signal_wakes_one:
  assumes M: "lite_map_laws M" and r: "registered M rh tm = [t]" and q: "WAKE_QUEUE w = Some q"
  obtains rh' where "ReactorHandler_handle_additional_oshandle M K tm (rh, w) =
      (Val (), (rh', w\<lparr>WAKE_QUEUE := Some (push_back t q), kern := release_one K (semaphore_handle q) (kern w)\<rparr>))"
    "registered M rh' = (registered M rh)(tm := [])"
proof (rule that)
  have "lm_get M (wait_tokens rh) tm = Some [t]" using r by (auto simp: registered_def split: option.splits)
  then show "ReactorHandler_handle_additional_oshandle M K tm (rh, w) =
      (Val (), (rh\<lparr>wait_tokens := snd (lm_remove M tm (wait_tokens rh))\<rparr>,
        w\<lparr>WAKE_QUEUE := Some (push_back t q), kern := release_one K (semaphore_handle q) (kern w)\<rparr>))"
    using lite_map_lawsD(3) [OF M, of tm "wait_tokens rh"] q
    by (auto simp: ReactorHandler_handle_additional_oshandle_def io_bind_run wake_queue_add_run split: prod.split)
qed (simp add: registered_def lite_map_lawsD(4) [OF M] fun_eq_iff)

lemma sleep_first_round:
  fixes w :: "(sleep, 'k, 'z) runtime_scheme"
  assumes K: "wait_any_law K" and M: "lite_map_laws M"
    and up: "reactor_up K T P S" and served: "served_by M V R S" and apart: "untouched_by K T P R"
    and queued: "one_task_queued K h sl w" and c: "task_counter h \<noteq> u32_MAX"
    and port: "REACTOR_PORT w = Some p"
    and fresh: "\<And>k. R k = R (kern w) \<Longrightarrow> registered M (fst (R k)) (fst (svcCreateTimer T k)) = []"
    and times: "timer sl = None" "now < deadline sl"
  obtains h1 w1 tm where
    "ExecutorHandler_run_round K L (awaiting (Sleep_poll (at_time now T) P S)) h w = Returns (Some (Val h1, w1))" "task_parked K h1 w1"
    "registered M (fst (R (kern w))) tm = []" "registered M (fst (R (kern w1))) = (registered M (fst (R (kern w))))(tm := [task_counter h])"
    "h1 = h\<lparr>task_counter := task_counter h + 1, tasks := lm_insert L (task_counter h) (sl\<lparr>timer := Some tm\<rparr>) (tasks h)\<rparr>"
proof -
  let ?t = "task_counter h" and ?pf = "awaiting (Sleep_poll (at_time now T) P S)"
  let ?Q = "\<lambda>f' w1. \<exists>tm. f' = sl\<lparr>timer := Some tm\<rparr> \<and> registered M (fst (R (kern w))) tm = [] \<and>
      registered M (fst (R (kern w1))) = (registered M (fst (R (kern w))))(tm := [?t])"
  have poll: "\<exists>f' w1. ?pf sl (make_waker ?t) (w\<lparr>kern := k, TASK_QUEUE := Some \<lparr> semaphore_handle = task_semaphore h, vals = [] \<rparr>\<rparr>) =
      (Val (Pending, f'), w1) \<and> task_parked K h w1 \<and> ?Q f' w1"
    if wait: "svcWaitSynchronizationN K [task_semaphore h, wake_semaphore h] False i64_MAX (kern w) = Some (x, k)"
      and k: "sem_count K k = (sem_count K (kern w))(task_semaphore h := 0)" "sem_max K k = sem_max K (kern w)" for x k
  proof -
    let ?w = "w\<lparr>kern := k, TASK_QUEUE := Some \<lparr> semaphore_handle = task_semaphore h, vals = [] \<rparr>\<rparr>"
    let ?f1 = "sl\<lparr>timer := Some (fst (svcCreateTimer T k))\<rparr>"
    have Rk: "R k = R (kern w)" using apart wait unfolding untouched_by_def by blast
    obtain k' where "Sleep_poll (at_time now T) P S (make_waker ?t) sl ?w = (Val (Pending, ?f1), ?w\<lparr>kern := k'\<rparr>)" "same_permits K k k'"
      "registered M (fst (R k')) = (registered M (fst (R (kern w))))(fst (svcCreateTimer T k) := [?t])"
      using Sleep_poll_registers [OF up served apart M times(2,1), of ?w p "fst (svcCreateTimer T k)" ?t] port Rk fresh [OF Rk] by auto
    then show ?thesis
      using queued k fresh [OF Rk] Rk
      by (intro exI [of _ ?f1] exI [of _ "?w\<lparr>kern := k'\<rparr>"])
        (auto simp: awaiting_run task_parked_def one_task_queued_def same_permits_def)
  qed
  show thesis
    by (rule first_round_parks [OF K queued c, of ?pf ?Q L]) (erule poll, assumption, assumption, use that in blast)
qed


text \<open>A kernel beside which the rest of the process, here the reactor, keeps a state of its own.\<close>

definition beside :: "'k kernel \<Rightarrow> ('k \<times> 'b) kernel" where
  "beside K = \<lparr>
     svcCreateSemaphore = (\<lambda>c m (k, b). case svcCreateSemaphore K c m k of (r, k') \<Rightarrow> (r, (k', b))),
     svcReleaseSemaphore = (\<lambda>h n (k, b). case svcReleaseSemaphore K h n k of (r, k') \<Rightarrow> (r, (k', b))),
     svcWaitSynchronization = (\<lambda>h t (k, b). map_option (\<lambda>(r, k'). (r, (k', b))) (svcWaitSynchronization K h t k)),
     svcWaitSynchronizationN = (\<lambda>hs al t (k, b). map_option (\<lambda>(r, k'). (r, (k', b))) (svcWaitSynchronizationN K hs al t k)),
     sem_count = (\<lambda>(k, b). sem_count K k), sem_max = (\<lambda>(k, b). sem_max K k) \<rparr>"

lemma beside_laws: "exec_laws (beside sim_kernel)"
  by (auto simp: exec_laws_def create_law_def release_law_def wait_any_law_def beside_def sim_kernel_def sk_take_def Let_def fun_eq_iff)

definition reactor_server :: "u32 list ipc_server" where
  "reactor_server = \<lparr> add_handle_to_list = (#) \<rparr>"

definition reactor_session ::
  "(reactor_cmd, reactor_reply, 'k \<times> (u32 \<rightharpoonup> task_token list) reactor_handler \<times> u32 list, unit) ipc_session" where
  "reactor_session = \<lparr> ipc_request = (\<lambda>_ cmd (k, hs).
     case ReactorHandler_handle_request fun_lite_map reactor_server cmd hs of
       (Val r, hs') \<Rightarrow> (Inr r, (k, hs')) | (Panic _, hs') \<Rightarrow> (Inl (Os (- 1)), (k, hs'))) \<rparr>"

definition sleep_world ::
  "(sleep, sim_kernel_state \<times> (u32 \<rightharpoonup> task_token list) reactor_handler \<times> u32 list) runtime" where
  "sleep_world = \<lparr> kern = (one_permit, \<lparr> wait_tokens = Map.empty \<rparr>, []),
     TASK_QUEUE = Some \<lparr> semaphore_handle = 0, vals = [\<lparr> deadline = 90, timer = None \<rparr>] \<rparr>,
     WAKE_QUEUE = Some \<lparr> semaphore_handle = 1, vals = [] \<rparr>, EXECUTOR_PORT = None, REACTOR_PORT = Some 9 \<rparr>"


section \<open>A receive, from the task queue to the end of its task\<close>

lemma recvfrom_silent:
  assumes "silent_session K S"
  shows "same_permits K k (snd (SocketService_recvfrom S C l Z h fd data k))"
proof -
  have "snd (SocketService_recvfrom S C l Z h fd data k) \<in> {k, snd (ipc_request S h
      (Soc_RecvFrom fd (word_of_nat (length data)) 0 0x1C 0 data (replicate 0x1C 0)) k)}"
    by (rule recvfrom_state)
  with assms show ?thesis by (auto simp: silent_session_def same_permits_def)
qed

lemma poll_silent: "silent_session K S \<Longrightarrow> same_permits K k (snd (SocketService_poll S C l h fds out timeout k))"
  by (simp add: SocketService_poll_def posix_call_state silent_session_def same_permits_def)

text \<open>A worker that finds one reader and a readable socket wakes it and keeps nothing.\<close>

lemma serve_one_reader:
  assumes "silent_session K (ses E)" "readable E (wk_socket wk)" "SOCKET_SERVICES w = Some soc" "WAKE_QUEUE w = Some q"
    and "vals (queues w ! wk_queue wk) = [(t, ReadInterest)]" "read_interests wk = []" "write_interests wk = []"
  obtains k where "serve_interests K E wk w =
      (Val wk, (emptied wk w)\<lparr>WAKE_QUEUE := Some (push_back t q), kern := release_one K (semaphore_handle q) k\<rparr>)"
    "same_permits K (kern w) k"
proof -
  let ?wk = "wk\<lparr>read_interests := [t]\<rparr>"
  have same: "wk\<lparr>read_interests := []\<rparr> = wk" "wk\<lparr>write_interests := [], read_interests := []\<rparr> = wk"
    using assms(6,7) by (cases wk; simp)+
  let ?poll = "SocketService_poll (ses E) (codes E) (libc E) (inner soc)
      [PollFd_new (handle (wk_socket wk)) (fst (poll_request ?wk))] [PollFd_default] (snd (poll_request ?wk)) (kern w)"
  obtain f fs k where f: "contains_flag (poll_out f) POLLIN" "?poll = (Val (Inr (f # fs)), k)"
    using assms(2) unfolding readable_def by blast
  have "drain_queue wk w = (Val ?wk, emptied wk w)"
    using assms(5-7) by (simp add: drain_queue_def emptied_def Let_def register_interests_eq tokens_of_def)
  moreover have "TcpSocket_poll E (wk_socket wk) (fst (poll_request ?wk)) (snd (poll_request ?wk)) (emptied wk w) =
      (Val (Inr (poll_out f)), (emptied wk w)\<lparr>kern := k\<rparr>)"
    using f(2) assms(3) by (simp add: TcpSocket_poll_def services_def io_bind_run try_bind_run on_kern_def emptied_def)
  ultimately have "serve_interests K E wk w =
      (Val wk, (emptied wk w)\<lparr>WAKE_QUEUE := Some (push_back t q), kern := release_one K (semaphore_handle q) k\<rparr>)"
    using assms(4,7) f(1)
    by (simp add: serve_interests_def io_bind_run ExecutorSession_wake_def wake_queue_add_run emptied_def Let_def same)
  moreover have "same_permits K (kern w) k"
    using poll_silent [OF assms(1), of "kern w" "codes E" "libc E" "inner soc"
      "[PollFd_new (handle (wk_socket wk)) (fst (poll_request ?wk))]" "[PollFd_default]" "snd (poll_request ?wk)"] f(2) by simp
  ultimately show thesis by (rule that)
qed

text \<open>A receive that finds no data: the task registers its interest and is parked.\<close>

definition interests_idle :: "'k kernel \<Rightarrow> 'm executor_handler \<Rightarrow> async_socket \<Rightarrow> ('f, 'k) async_net_world \<Rightarrow> bool" where
  "interests_idle K h s w \<longleftrightarrow> interests_queue s < length (queues w) \<and> vals (queues w ! interests_queue s) = [] \<and>
     0 < sem_max K (kern w) (semaphore_handle (queues w ! interests_queue s)) \<and>
     semaphore_handle (queues w ! interests_queue s) \<notin> {task_semaphore h, wake_semaphore h}"

lemma recv_first_round:
  fixes w :: "(async_socket \<times> u8 list, 'k) async_net_world"
  assumes K: "release_law K" "wait_any_law K" "silent_session K (ses E)" and soc: "SOCKET_SERVICES w = Some soc"
    and queued: "one_task_queued K h (s, data) w" and c: "task_counter h \<noteq> u32_MAX" and idle: "interests_idle K h s w"
    and no_data: "\<And>k. fst (SocketService_recvfrom (ses E) (codes E) (libc E) (sock2 E) (inner soc) (handle (socket_inner s)) data k) =
      Val (Inl (Libc (libc E ''EAGAIN'')), d)"
  obtains h1 w1 where "ExecutorHandler_run_round K L (awaiting (Recv_task_poll K E)) h w = Returns (Some (Val h1, w1))"
    "task_parked K h1 w1" "SOCKET_SERVICES w1 = Some soc" "0 < sem_count K (kern w1) (semaphore_handle (queues w1 ! interests_queue s))"
    "queues w1 = (queues w)[interests_queue s := (queues w ! interests_queue s)\<lparr>vals := [(task_counter h, ReadInterest)]\<rparr>]"
    "h1 = h\<lparr>task_counter := task_counter h + 1, tasks := lm_insert L (task_counter h) (s, d) (tasks h)\<rparr>"
proof -
  let ?t = "task_counter h" and ?pf = "awaiting (Recv_task_poll K E)" and ?q = "queues w ! interests_queue s"
  let ?qs = "(queues w)[interests_queue s := ?q\<lparr>vals := [(?t, ReadInterest)]\<rparr>]"
  let ?P = "\<lambda>f' w1. f' = (s, d) \<and> SOCKET_SERVICES w1 = Some soc \<and> queues w1 = ?qs \<and>
    0 < sem_count K (kern w1) (semaphore_handle ?q)"
  have poll: "\<exists>f' w1. ?pf (s, data) (make_waker ?t) (w\<lparr>kern := k, TASK_QUEUE := Some \<lparr> semaphore_handle = task_semaphore h, vals = [] \<rparr>\<rparr>) =
      (Val (Pending, f'), w1) \<and> task_parked K h w1 \<and> ?P f' w1"
    if k: "sem_count K k = (sem_count K (kern w))(task_semaphore h := 0)" "sem_max K k = sem_max K (kern w)" for k
  proof -
    let ?w = "w\<lparr>kern := k, TASK_QUEUE := Some \<lparr> semaphore_handle = task_semaphore h, vals = [] \<rparr>\<rparr>"
    let ?r = "SocketService_recvfrom (ses E) (codes E) (libc E) (sock2 E) (inner soc) (handle (socket_inner s)) data k"
    obtain k' where k': "?r = (Val (Inl (Libc (libc E ''EAGAIN'')), d), k')" using no_data [of k] by (metis prod.collapse)
    have same: "sem_count K k' = sem_count K k" "sem_max K k' = sem_max K k"
      using recvfrom_silent [OF K(3), of k "codes E" "libc E" "sock2 E" "inner soc" "handle (socket_inner s)" data] k'
      by (simp_all add: same_permits_def)
    have "Recv_task_poll K E (make_waker ?t) (s, data) ?w = (Val (Pending, (s, d)),
        ?w\<lparr>kern := release_one K (semaphore_handle ?q) k', queues := ?qs\<rparr>)"
      using k' soc idle
      by (simp add: Recv_task_poll_def Recv_poll_def TcpSocket_recv_def services_def io_bind_run on_kern_def would_block_def
          add_interest_def SyncQueue_add_def push_back_def interests_idle_def)
    then show ?thesis
      using queued soc idle k same release_lawD [OF K(1), of "semaphore_handle ?q" k']
      by (auto simp: awaiting_run task_parked_def one_task_queued_def interests_idle_def release_one_def)
  qed
  show thesis
    by (rule first_round_parks [OF K(2) queued c, of ?pf ?P L])
      (erule poll, assumption, use that idle in \<open>auto simp: interests_idle_def\<close>)
qed

lemma socket_round_one:
  assumes "wait_law K" "ds_try_law (codes E)" "read_interests wk = []" "write_interests wk = []"
    and "0 < sem_count K (kern w) (semaphore_handle (queues w ! wk_queue wk))"
  obtains k where "socket_worker_round K E wk w = Returns (serve_interests K E wk (w\<lparr>kern := k\<rparr>))"
    "\<forall>h. h \<noteq> semaphore_handle (queues w ! wk_queue wk) \<longrightarrow> sem_count K k h = sem_count K (kern w) h"
    "sem_max K k = sem_max K (kern w)"
proof -
  obtain c k where k: "svcWaitSynchronization K (semaphore_handle (queues w ! wk_queue wk)) i64_MAX (kern w) = Some (c, k)"
    using wait_law_returns [OF assms(1,5)] by fastforce
  note W = wait_law_Some [OF assms(1) k]
  have "SyncQueue_wait K (codes E) i64_MAX (queues w ! wk_queue wk) (kern w) = Some (Inr (), k)"
    using k W(1) assms(2) by (simp add: SyncQueue_wait_def ds_try_law_def)
  with assms(3,4) W(3,4) show thesis by (intro that [of k]) (simp_all add: socket_worker_round_def io_bind_run)
qed

text \<open>The worker's part: its round takes the interest and queues the task's token.\<close>

lemma worker_wakes_reader:
  fixes w1 :: "('f, 'k) async_net_world"
  assumes laws: "release_law K" "wait_law K" "ds_try_law (codes E)" "silent_session K (ses E)"
    and parked: "task_parked K h w1" and soc: "SOCKET_SERVICES w1 = Some soc" and ready: "readable E (wk_socket wk)"
    and q: "0 < sem_count K (kern w1) (semaphore_handle (queues w1 ! wk_queue wk))" "wk_queue wk < length (queues w1)"
      "vals (queues w1 ! wk_queue wk) = [(t, ReadInterest)]" "read_interests wk = []" "write_interests wk = []"
      "semaphore_handle (queues w1 ! wk_queue wk) \<notin> {task_semaphore h, wake_semaphore h}"
  obtains w2 where "socket_worker_round K E wk w1 = Returns (Val wk, w2)" "SOCKET_SERVICES w2 = Some soc"
    "TASK_QUEUE w2 = Some \<lparr> semaphore_handle = task_semaphore h, vals = [] \<rparr>"
    "WAKE_QUEUE w2 = Some \<lparr> semaphore_handle = wake_semaphore h, vals = [t] \<rparr>"
    "sem_count K (kern w2) (task_semaphore h) = 0" "0 < sem_count K (kern w2) (wake_semaphore h)"
    "vals (queues w2 ! wk_queue wk) = []"
proof -
  obtain k where k: "socket_worker_round K E wk w1 = Returns (serve_interests K E wk (w1\<lparr>kern := k\<rparr>))"
    "\<forall>h. h \<noteq> semaphore_handle (queues w1 ! wk_queue wk) \<longrightarrow> sem_count K k h = sem_count K (kern w1) h" "sem_max K k = sem_max K (kern w1)"
    by (rule socket_round_one [OF laws(2,3) q(4,5,1)])
  let ?w = "w1\<lparr>kern := k\<rparr>" and ?wq = "\<lparr> semaphore_handle = wake_semaphore h, vals = [] \<rparr> :: task_token sync_queue"
  have pre: "SOCKET_SERVICES ?w = Some soc" "WAKE_QUEUE ?w = Some ?wq" "vals (queues ?w ! wk_queue wk) = [(t, ReadInterest)]"
    using parked soc q(3) by (simp_all add: task_parked_def)
  obtain k2 where k2: "serve_interests K E wk ?w = (Val wk, (emptied wk ?w)\<lparr>WAKE_QUEUE := Some (push_back t ?wq),
      kern := release_one K (semaphore_handle ?wq) k2\<rparr>)" "same_permits K (kern ?w) k2"
    by (rule serve_one_reader [OF laws(4) ready pre q(4,5)])
  show thesis
    by (rule that [of "(emptied wk ?w)\<lparr>WAKE_QUEUE := Some (push_back t ?wq), kern := release_one K (semaphore_handle ?wq) k2\<rparr>"])
      (use k k2 parked soc q release_lawD [OF laws(1), of "wake_semaphore h" k2]
       in \<open>auto simp: emptied_def task_parked_def release_one_def push_back_def same_permits_def\<close>)
qed

lemma Recv_task_poll_ready:
  assumes "SOCKET_SERVICES w = Some soc"
    and "\<And>k. fst (SocketService_recvfrom (ses E) (codes E) (libc E) (sock2 E) (inner soc) (handle (socket_inner s)) d k) =
      Val (Inr (from, n), bytes)"
  shows "\<exists>k'. Recv_task_poll K E cx (s, d) w = (Val (Ready (Inr n), (s, bytes)), w\<lparr>kern := k'\<rparr>)"
proof -
  obtain k' where "SocketService_recvfrom (ses E) (codes E) (libc E) (sock2 E) (inner soc) (handle (socket_inner s)) d (kern w) =
      (Val (Inr (from, n), bytes), k')"
    using assms(2) [of "kern w"] by (metis prod.collapse)
  then show ?thesis
    using assms(1)
    by (intro exI [of _ k'])
      (simp add: Recv_task_poll_def Recv_poll_def TcpSocket_recv_def services_def io_bind_run on_kern_def would_block_def)
qed

text \<open>C7: A receive under the executor, from start to end. A task that awaits a new \<^verbatim>\<open>Recv\<close> is in the task queue, and the socket has no data. The
  executor's round polls the task and keeps it under a fresh token. Then data comes: the next round of the socket's worker does
  not block, and wakes the task; the executor's next round does not block, and polls it. The receive is ready with the bytes
  of the service, the task leaves the table, and nothing is left in the queues or with the worker.\<close>

theorem receive_task_completes:
  fixes w :: "(async_socket \<times> u8 list, 'k) async_net_world"
  assumes laws: "exec_laws K" "wait_law K" "ds_try_law (codes E')" "lite_map_laws L" "silent_session K (ses E)" "silent_session K (ses E')"
    and soc: "SOCKET_SERVICES w = Some soc" and queued: "one_task_queued K h (s, data) w"
    and h: "handler_wf L h" "task_counter h \<noteq> u32_MAX" and idle: "interests_idle K h s w"
    and wk: "wk_queue wk = interests_queue s" "wk_socket wk = socket_inner s" "read_interests wk = []" "write_interests wk = []"
    and no_data: "\<And>k. fst (SocketService_recvfrom (ses E) (codes E) (libc E) (sock2 E) (inner soc) (handle (socket_inner s)) data k) =
      Val (Inl (Libc (libc E ''EAGAIN'')), d)"
    and data: "readable E' (socket_inner s)"
      "\<And>k. fst (SocketService_recvfrom (ses E') (codes E') (libc E') (sock2 E') (inner soc) (handle (socket_inner s)) d k) =
        Val (Inr (from, n), bytes)"
  shows "\<exists>h1 w1 w2 h3 w3.
    ExecutorHandler_run_round K L (awaiting (Recv_task_poll K E)) h w = Returns (Some (Val h1, w1)) \<and>
    lm_get L (tasks h1) = (lm_get L (tasks h))(task_counter h \<mapsto> (s, d)) \<and>
    socket_worker_round K E' wk w1 = Returns (Val wk, w2) \<and>
    (\<forall>cx k. fst (Recv_task_poll K E' cx (s, d) (w2\<lparr>kern := k\<rparr>)) = Val (Ready (Inr n), (s, bytes))) \<and>
    ExecutorHandler_run_round K L (awaiting (Recv_task_poll K E')) h1 w2 = Returns (Some (Val h3, w3)) \<and>
    lm_get L (tasks h3) = lm_get L (tasks h) \<and> queued_tasks w3 = [] \<and> queued_wakes w3 = [] \<and>
    vals (queues w3 ! interests_queue s) = []"
proof -
  let ?t = "task_counter h" and ?pf = "awaiting (Recv_task_poll K E')" and ?i = "interests_queue s"
  have R: "release_law K" "wait_any_law K" using laws(1) by (simp_all add: exec_laws_def)
  obtain h1 w1 where r1: "ExecutorHandler_run_round K L (awaiting (Recv_task_poll K E)) h w = Returns (Some (Val h1, w1))"
    "task_parked K h1 w1" "SOCKET_SERVICES w1 = Some soc" "0 < sem_count K (kern w1) (semaphore_handle (queues w1 ! ?i))"
    "queues w1 = (queues w)[?i := (queues w ! ?i)\<lparr>vals := [(?t, ReadInterest)]\<rparr>]"
    "h1 = h\<lparr>task_counter := ?t + 1, tasks := lm_insert L ?t (s, d) (tasks h)\<rparr>"
    by (rule recv_first_round [OF R laws(5) soc queued h(2) idle no_data])
  have q1: "0 < sem_count K (kern w1) (semaphore_handle (queues w1 ! wk_queue wk))" "wk_queue wk < length (queues w1)"
    "vals (queues w1 ! wk_queue wk) = [(?t, ReadInterest)]"
    "semaphore_handle (queues w1 ! wk_queue wk) \<notin> {task_semaphore h1, wake_semaphore h1}"
    using r1(4-6) idle wk(1) by (simp_all add: interests_idle_def)
  have ready: "readable E' (wk_socket wk)" using data(1) wk(2) by simp
  obtain w2 where w2: "socket_worker_round K E' wk w1 = Returns (Val wk, w2)" "SOCKET_SERVICES w2 = Some soc"
    and q2: "TASK_QUEUE w2 = Some \<lparr> semaphore_handle = task_semaphore h1, vals = [] \<rparr>"
    "WAKE_QUEUE w2 = Some \<lparr> semaphore_handle = wake_semaphore h1, vals = [?t] \<rparr>"
    "sem_count K (kern w2) (task_semaphore h1) = 0" "0 < sem_count K (kern w2) (wake_semaphore h1)"
    and empty: "vals (queues w2 ! ?i) = []"
    using worker_wakes_reader [OF R(1) laws(2,3,6) r1(2,3) ready q1(1-3) wk(3,4) q1(4)] wk(1) by metis
  have live: "lm_get L (tasks h1) = (lm_get L (tasks h))(?t \<mapsto> (s, d))" by (simp add: r1(6) lite_map_lawsD(2) [OF laws(4)])
  then have alive: "lm_get L (tasks h1) ?t = Some (s, d)" by simp
  obtain h3 k3 where r3: "ExecutorHandler_run_round K L ?pf h1 w2 =
      Returns (Some (Val h3, w2\<lparr>kern := k3, WAKE_QUEUE := Some \<lparr> semaphore_handle = wake_semaphore h1, vals = [] \<rparr>\<rparr>))"
    "lm_get L (tasks h3) = (lm_get L (tasks h1))(?t := None)"
  proof (rule woken_round_finishes [where pf = ?pf, OF laws(4) R(2) alive q2])
    fix k
    let ?w = "w2\<lparr>kern := k, WAKE_QUEUE := Some \<lparr> semaphore_handle = wake_semaphore h1, vals = [] \<rparr>\<rparr>"
    obtain k' where "Recv_task_poll K E' (make_waker ?t) (s, d) ?w = (Val (Ready (Inr n), (s, bytes)), ?w\<lparr>kern := k'\<rparr>)"
      using Recv_task_poll_ready [OF _ data(2), of ?w K "make_waker ?t"] w2(2) by auto
    then show "\<exists>f' k'. ?pf (s, d) (make_waker ?t) ?w =
        (Val (Ready (), f'), w2\<lparr>kern := k', WAKE_QUEUE := Some \<lparr> semaphore_handle = wake_semaphore h1, vals = [] \<rparr>\<rparr>)"
      by (intro exI [of _ "(s, bytes)"] exI [of _ k']) (cases w2, simp add: awaiting_run)
  qed (rule that)
  have fin: "fst (Recv_task_poll K E' cx (s, d) (w2\<lparr>kern := k\<rparr>)) = Val (Ready (Inr n), (s, bytes))" for cx k
    using Recv_task_poll_ready [OF _ data(2), of "w2\<lparr>kern := k\<rparr>" K cx] w2(2) by auto
  have "lm_get L (tasks h) ?t = None" using h(1) by (rule next_token_free)
  then have "lm_get L (tasks h3) = lm_get L (tasks h)" using r3(2) live by (auto simp: fun_eq_iff)
  then show ?thesis
    using r1(1) live w2(1) r3(1) fin q2(1) empty
    by (intro exI [of _ h1] exI [of _ w1] exI [of _ w2] exI [of _ h3]
        exI [of _ "w2\<lparr>kern := k3, WAKE_QUEUE := Some \<lparr> semaphore_handle = wake_semaphore h1, vals = [] \<rparr>\<rparr>"])
      (simp add: queued_tasks_def queued_wakes_def)
qed

text \<open>A service whose socket has no data, and the same service when two bytes have come.\<close>

definition arriving :: "bool \<Rightarrow> ('k, unit, u16 \<times> u8 list \<times> u32) net_env" where
  "arriving come = demo_env\<lparr>ses := \<lparr> ipc_request = (\<lambda>h q k.
     case q of
       Soc_RecvFrom _ _ _ _ _ data _ \<Rightarrow> (Inr (if come then Rep_RecvFrom 0 2 2 else Rep_RecvFrom 0 (- 6) 0,
         \<lparr> buf_addr = replicate 28 0, buf_data = (if come then [9, 9] else data), buf_fds = [] \<rparr>), k)
     | _ \<Rightarrow> ipc_request demo_net h q k) \<rparr>\<rparr>"

lemma arriving_recvfrom:
  assumes "E = arriving come"
  shows "SocketService_recvfrom (ses E) (codes E) (libc E) (sock2 E) h fd [0, 0] k =
     (Val (if come then (Inr ((0, [], 0), 2), [9, 9]) else (Inl (Libc (libc E ''EAGAIN'')), [0, 0])), k)"
proof -
  have "net_try sim_libc (- 6) = (Val (Inl (Libc 11)) :: (unit, unit) bunny_result outcome)"
    "net_try sim_libc 2 = (Val (Inr ()) :: (unit, unit) bunny_result outcome)"
    by (simp_all add: net_try_known net_try_ok ERROR_MAP_def sim_libc_def)
  then show ?thesis
    by (simp add: assms SocketService_recvfrom_def ipc_call_def io_bind_run arriving_def demo_env_def sim_ctru_def sim_libc_def sim_socket2_def)
qed

lemma arriving_readable: "readable (arriving come) \<lparr> addr = demo_addr, handle = 3 \<rparr>"
  by (simp add: readable_def SocketService_poll_def posix_call_def coded_call_def ipc_call_def try_bind_run io_bind_run
      ds_try_io_def arriving_def demo_env_def demo_net_def sim_ctru_def contains_POLLIN net_try_ok)

lemma arriving_silent: "silent_session K (ses (arriving come))"
  by (simp add: silent_session_def same_permits_def arriving_def demo_env_def demo_net_def split: socket_message.split)

definition recv_world :: "async_socket \<times> u8 list \<Rightarrow> (async_socket \<times> u8 list, sim_kernel_state) async_net_world" where
  "recv_world f = \<lparr> kern = one_permit, TASK_QUEUE = Some \<lparr> semaphore_handle = 0, vals = [f] \<rparr>,
     WAKE_QUEUE = Some \<lparr> semaphore_handle = 1, vals = [] \<rparr>, EXECUTOR_PORT = Some 5, REACTOR_PORT = None,
     SOCKET_SERVICES = Some \<lparr> memory_handle = 2, inner = 1 \<rparr>,
     queues = [\<lparr> semaphore_handle = 2, vals = [] \<rparr>], workers = [idle_worker] \<rparr>"

theorem receive_task_completes_witness:
  "\<exists>h1 w1 w2 h3 w3. let s = \<lparr> interests_queue = 0, socket_inner = wk_socket idle_worker \<rparr> in
    ExecutorHandler_run_round sim_kernel fun_lite_map (awaiting (Recv_task_poll sim_kernel (arriving False))) task_handler
      (recv_world (s, [0, 0])) = Returns (Some (Val h1, w1)) \<and> tasks h1 7 = Some (s, [0, 0]) \<and>
    socket_worker_round sim_kernel (arriving True) idle_worker w1 = Returns (Val idle_worker, w2) \<and>
    fst (Recv_task_poll sim_kernel (arriving True) (make_waker 7) (s, [0, 0]) w2) = Val (Ready (Inr 2), (s, [9, 9])) \<and>
    ExecutorHandler_run_round sim_kernel fun_lite_map (awaiting (Recv_task_poll sim_kernel (arriving True))) h1 w2 = Returns (Some (Val h3, w3)) \<and>
    tasks h3 = Map.empty"
proof -
  let ?s = "\<lparr> interests_queue = 0, socket_inner = wk_socket idle_worker \<rparr>"
  have soc: "SOCKET_SERVICES (recv_world (?s, [0, 0])) = Some \<lparr> memory_handle = 2, inner = 1 \<rparr>" by (simp add: recv_world_def)
  have codes: "ds_try_law (codes (arriving True :: (sim_kernel_state, unit, u16 \<times> u8 list \<times> u32) net_env))"
    by (simp add: arriving_def demo_env_def sim_ctru_laws)
  have q: "one_task_queued sim_kernel task_handler (?s, [0, 0]) (recv_world (?s, [0, 0]))"
    by (simp add: one_task_queued_def task_handler_def recv_world_def one_permit_def sim_kernel_def)
  have wf: "handler_wf fun_lite_map task_handler" "task_counter task_handler \<noteq> u32_MAX"
    by (simp_all add: handler_wf_def fun_lite_map_def task_handler_def)
  have idle: "interests_idle sim_kernel task_handler ?s (recv_world (?s, [0, 0]))"
    by (simp add: interests_idle_def task_handler_def recv_world_def one_permit_def sim_kernel_def)
  have wk: "wk_queue idle_worker = interests_queue ?s" "wk_socket idle_worker = socket_inner ?s" "read_interests idle_worker = []"
    "write_interests idle_worker = []" by (simp_all add: idle_worker_def)
  have ready: "readable (arriving True) (socket_inner ?s)" by (simp add: idle_worker_def arriving_readable)
  let ?h = "task_handler :: (u32 \<rightharpoonup> async_socket \<times> u8 list) executor_handler"
  let ?E = "arriving :: bool \<Rightarrow> (sim_kernel_state, unit, u16 \<times> u8 list \<times> u32) net_env"
  have get: "lm_get fun_lite_map m = m" for m :: "u32 \<rightharpoonup> async_socket \<times> u8 list" by (simp add: fun_lite_map_def)
  have recv: "fst (SocketService_recvfrom (ses (?E False)) (codes (?E False)) (libc (?E False)) (sock2 (?E False)) h fd [0, 0] k) =
      Val (Inl (Libc (libc (?E False) ''EAGAIN'')), [0, 0])"
    "fst (SocketService_recvfrom (ses (?E True)) (codes (?E True)) (libc (?E True)) (sock2 (?E True)) h fd [0, 0] k) =
      Val (Inr ((0, [], 0), 2), [9, 9])" for h fd k by (simp_all add: arriving_recvfrom)
  from receive_task_completes [OF sim_exec_laws sim_kernel_laws(2) codes fun_lite_map_laws arriving_silent arriving_silent soc q wf idle wk recv(1) ready recv(2)]
  obtain h1 w1 w2 h3 w3 where r: "ExecutorHandler_run_round sim_kernel fun_lite_map (awaiting (Recv_task_poll sim_kernel (?E False))) task_handler
      (recv_world (?s, [0, 0])) = Returns (Some (Val h1, w1))" "tasks h1 = (tasks ?h)(task_counter ?h \<mapsto> (?s, [0, 0]))"
    "socket_worker_round sim_kernel (?E True) idle_worker w1 = Returns (Val idle_worker, w2)"
    "\<forall>cx k. fst (Recv_task_poll sim_kernel (?E True) cx (?s, [0, 0]) (w2\<lparr>kern := k\<rparr>)) = Val (Ready (Inr 2), (?s, [9, 9]))"
    "ExecutorHandler_run_round sim_kernel fun_lite_map (awaiting (Recv_task_poll sim_kernel (?E True))) h1 w2 = Returns (Some (Val h3, w3))"
    "tasks h3 = tasks ?h" unfolding get by blast
  from r(4) have "fst (Recv_task_poll sim_kernel (?E True) (make_waker 7) (?s, [0, 0]) (w2\<lparr>kern := kern w2\<rparr>)) = Val (Ready (Inr 2), (?s, [9, 9]))"
    by blast
  with r show ?thesis unfolding Let_def
    by (intro exI [of _ h1] exI [of _ w1] exI [of _ w2] exI [of _ h3] exI [of _ w3]) (simp add: task_handler_def)
qed

section \<open>A blocking spawn, from the caller to the executor and back\<close>

lemma spawn_and_block_queues:
  fixes w :: "('g, 'k, 't, 'e) join_world"
  assumes "release_law K" "task_parked K h w" "0 < sem_max K (kern w) (task_semaphore h)"
  obtains w1 where "spawn_and_block_start K Lt g w = (Val (length (cells w), length (signals w)), w1)"
    "one_task_queued K h (Wrapped g (length (cells w)) (Some (length (signals w)))) w1"
    "cells w1 = cells w @ [\<lparr>jstate = Unawaited, poisoned = False\<rparr>]" "signals w1 = signals w @ [WaitSignal_new Lt]"
  using assms release_lawD [OF assms(1), of "task_semaphore h" "kern w"]
  by (auto simp: task_parked_def one_task_queued_def spawn_and_block_start_def Let_def io_bind_run task_queue_add_def SyncQueue_add_def
      push_back_def release_one_def)

text \<open>The caller is asleep as long as its signal is fresh, and gets the value from a completed join.\<close>

lemma finish_blocks:
  "light_event_law Lt \<Longrightarrow> signals w ! s = WaitSignal_new Lt \<Longrightarrow> spawn_and_block_finish Lt (a, s) w = Blocks"
  by (simp add: spawn_and_block_finish_def WaitSignal_new_blocks)

lemma finish_returns:
  assumes "light_event_law Lt" "signals w ! s = WaitSignal_signal Lt sg" "jstate (cells w ! a) = JoinReady v" "\<not> poisoned (cells w ! a)"
  shows "\<exists>w'. spawn_and_block_finish Lt (a, s) w = Returns (Val v, w')"
proof -
  obtain e where "WaitSignal_wait Lt (WaitSignal_signal Lt sg) = Some e" using WaitSignal_signal_wait [OF assms(1)] by blast
  then show ?thesis using assms(2-4) by (simp add: spawn_and_block_finish_def Let_def)
qed


text \<open>A future that is pending once and then yields 42, woken by another thread in between.\<close>

definition idle_join :: "(nat, sim_kernel_state, nat, bool) join_world" where
  "idle_join = \<lparr> kern = one_permit\<lparr>sk_count := (\<lambda>_. 0)\<rparr>, TASK_QUEUE = Some \<lparr>semaphore_handle = 0, vals = []\<rparr>,
     WAKE_QUEUE = Some \<lparr>semaphore_handle = 1, vals = []\<rparr>, EXECUTOR_PORT = None, REACTOR_PORT = None, cells = [], signals = [] \<rparr>"

definition second_time :: "nat \<Rightarrow> waker \<Rightarrow> (nat, sim_kernel_state, nat, bool, nat poll \<times> nat) jio" where
  "second_time g cx = ret (if g = 0 then (Pending, 1) else (Ready 42, g))"


section \<open>Properties\<close>


lemma demo_quiet:
  "quiet_session K \<lparr> ipc_request = (\<lambda>_ _ k. (Inr x, k)) \<rparr>" "quiet_session K (ses demo_env)"
  "quiet_timers K still_timers open_port yes_session"
  by (simp_all add: quiet_session_def quiet_def quiet_timers_def keeps_permits_refl demo_env_def demo_net_def
      still_timers_def open_port_def yes_session_def)


text \<open>C5: The executor of this process never sleeps on pending work. It is set up by \<^verbatim>\<open>Executor::new\<close> and runs any number of
  rounds of its loop, over tasks that keep to the contract and in between anything other threads produce.
  If its next round would block, no new task and no wake is queued.\<close>

theorem executor_blocks_only_when_idle:
  assumes "exec_laws (bk B)" "cooperative (bk B) (\<lambda>cx fut. pf fut cx)"
    and "TASK_QUEUE w0 = None" "WAKE_QUEUE w0 = None" "IPCServer_new B (kern w0) = (Inr sp, k)"
    and "fst (fst (svcCreateSemaphore (bk B) 0 255 k)) = 0"
      "fst (fst (svcCreateSemaphore (bk B) 0 255 (snd (svcCreateSemaphore (bk B) 0 255 k)))) = 0"
    and "Executor_new L B w0 = (Val ex, w1)"
    and "(exec_life (bk B) L pf)\<^sup>*\<^sup>* (Executor_run ex, w1) (h, w)"
    and "ExecutorHandler_run_round (bk B) L pf h w = Blocks"
  shows "queued_tasks w = [] \<and> queued_wakes w = []"
proof -
  have "life_start (bk B) (Executor_run ex, w1)" using assms(3-8) by (rule Executor_new_starts)
  then have "reachable (life_start (bk B)) (exec_life (bk B) L pf) (h, w)"
    using assms(9) by (blast intro: reachable_run reach_start)
  with assms(1,2) show ?thesis using assms(10) by (rule life_blocked)
qed

theorem executor_blocks_only_when_idle_witness:
  "\<exists>ex w1 h w. Executor_new fun_lite_map demo_boot off_world = (Val ex, w1) \<and>
    (exec_life sim_kernel fun_lite_map (\<lambda>f cx. ret (Pending, f)))\<^sup>*\<^sup>* (Executor_run ex, w1) (h, w) \<and> tasks h 0 = Some () \<and>
    queued_tasks w = [] \<and> queued_wakes w = []"
proof -
  let ?K = "sim_kernel" and ?L = "fun_lite_map :: (u32 \<rightharpoonup> unit, u32, unit) lite_map"
  let ?pf = "\<lambda>(f :: unit) (cx :: waker). ret (Pending, f)"
  define k2 where "k2 = \<lparr> sk_next = 2, sk_count = (\<lambda>_. 0)(0 := 0, 1 := 0), sk_max = (\<lambda>_. 0)(0 := 255, 1 := 255) \<rparr>"
  let ?ex = "\<lparr> ex_tasks = Map.empty, ex_task_semaphore = 0, ex_wake_semaphore = 1 \<rparr>"
  define w1 where "w1 = off_world\<lparr>EXECUTOR_PORT := Some 8, TASK_QUEUE := Some \<lparr>semaphore_handle = 0, vals = []\<rparr>,
      WAKE_QUEUE := Some \<lparr>semaphore_handle = 1, vals = []\<rparr>, kern := k2\<rparr>"
  define w2 where "w2 = w1\<lparr>TASK_QUEUE := Some \<lparr>semaphore_handle = 0, vals = [()]\<rparr>, kern := k2\<lparr>sk_count := (sk_count k2)(0 := 1)\<rparr>\<rparr>"
  define w3 where "w3 = w1\<lparr>kern := sk_take 0 (kern w2)\<rparr>"
  let ?h = "(Executor_run ?ex)\<lparr>task_counter := 1, tasks := [0 \<mapsto> ()]\<rparr>"
  have new: "Executor_new ?L demo_boot off_world = (Val ?ex, w1)"
    by (simp add: Executor_new_def io_bind_run on_kern_def queue_get_or_init_def SyncQueue_new_def Let_def demo_boot_def off_world_def
        sim_kernel_def sk_boot_def fun_lite_map_def w1_def k2_def)
  have "task_queue_add ?K () w1 = (Val (), w2)"
    by (simp add: task_queue_add_def SyncQueue_add_def push_back_def release_one_def sim_kernel_def w1_def w2_def k2_def)
  then have 1: "exec_life ?K ?L ?pf (Executor_run ?ex, w1) (Executor_run ?ex, w2)" by (intro between adds_task)
  have "ExecutorHandler_run_round ?K ?L ?pf (Executor_run ?ex) w2 = Returns (Some (Val ?h, w3))"
    by (simp add: ExecutorHandler_run_round_def sim_kernel_def Let_def Executor_run_def drain_tasks.simps task_queue_remove_def
        SyncQueue_remove_def spawn_run fun_lite_map_def w1_def w2_def w3_def k2_def)
  then have 2: "exec_life ?K ?L ?pf (Executor_run ?ex, w2) (?h, w3)" by (rule exec_life.round)
  have run: "(exec_life ?K ?L ?pf)\<^sup>*\<^sup>* (Executor_run ?ex, w1) (?h, w3)" using 1 2 by (meson r_into_rtranclp rtranclp_trans)
  have B: "bk demo_boot = ?K" "IPCServer_new demo_boot (kern off_world) = (Inr (7, 8), sk_boot)"
    by (simp_all add: demo_boot_def off_world_def)
  have "queued_tasks w3 = [] \<and> queued_wakes w3 = []"
  proof (rule executor_blocks_only_when_idle [OF _ _ _ _ B(2) _ _ new, unfolded B(1), OF sim_exec_laws _ _ _ _ _ run])
    show "ExecutorHandler_run_round ?K ?L ?pf ?h w3 = Blocks"
      by (simp add: ExecutorHandler_run_round_def sim_kernel_def Executor_run_def w1_def w2_def w3_def k2_def sk_take_def)
  qed (simp_all add: cooperative_def behaves_pure off_world_def sim_kernel_def sk_boot_def)
  with new run show ?thesis by (intro exI [of _ ?ex] exI [of _ w1] exI [of _ ?h] exI [of _ w3]) (simp add: fun_lite_map_def)
qed

end
