(* ===== verification/Spec2Isabelle.thy ===== *)
theory Spec2Isabelle
  imports Ctru_Thread Ds_Mutex Notification Pool_Workers Fs_Cells Tasks
begin

text \<open>
  \<^bold>\<open>bunnyds: an asynchronous runtime for the Nintendo 3DS\<close>

  \<^bold>\<open>The program.\<close> An executor thread polls tasks (\<^verbatim>\<open>src/executor.rs\<close>). Everything else hands it work through two
  queues with a kernel semaphore each (\<^verbatim>\<open>SyncQueue\<close> of \<^verbatim>\<open>src/ctru_utils.rs\<close>): new tasks, and the tokens of tasks to poll again. The
  latter come from the reactor thread, for timers (\<^verbatim>\<open>src/reactor.rs\<close>); from the workers of the file pool
  (\<^verbatim>\<open>src/fs/async_pool.rs\<close>), which make the blocking calls of \<^verbatim>\<open>src/fs/sync_impl.rs\<close>; from one worker per
  asynchronous socket (\<^verbatim>\<open>src/net.rs\<close>), which polls the socket with the calls of \<^verbatim>\<open>src/net_sync/mod.rs\<close>; from threads of
  \<^verbatim>\<open>spawn_blocking\<close> (\<^verbatim>\<open>src/ctru_thread.rs\<close>); and from the channels and the mutex of \<^verbatim>\<open>src/sync.rs\<close>. \<^verbatim>\<open>src/lib.rs\<close> starts it all.

  \<^bold>\<open>How code becomes definitions.\<close> A function that can panic or change state is a function from the state to an outcome
  and a new state (\<open>('w, 'a) io\<close> in \<open>Bunny_Prelude\<close>). Outcomes are values or panics, each \<^verbatim>\<open>unwrap\<close>, \<^verbatim>\<open>todo!()\<close>, failed
  assertion or overflow a panic of its own; \<^verbatim>\<open>Result\<close> is a sum, \<^verbatim>\<open>?\<close> is \<^const>\<open>try_bind\<close>, and a call that blocks has the value
  \<^const>\<open>Blocks\<close> or \<^const>\<open>None\<close>. Integers are words of their width, with the overflow checks of the debug profile. The statics are
  fields of a record that the components extend: \<^typ>\<open>('f, 'k) runtime\<close>, then \<open>join_world\<close>, \<open>fs_world\<close>, \<open>net_world\<close>, \<open>async_net_world\<close>
  and \<open>boot_world\<close>. Values behind an \<^verbatim>\<open>Arc\<close> or a raw pointer live in stores in these records and are referred to by
  position or address. Definitions are named after the functions, \<^verbatim>\<open>Type::method\<close> as \<open>Type_method\<close>.

  Code outside the repository is an argument: records of functions for the kernel, libctru, \<^verbatim>\<open>ds_ipc\<close>, \<^verbatim>\<open>libc\<close>, \<^verbatim>\<open>socket2\<close>, \<^verbatim>\<open>litemap\<close> and
  \<^verbatim>\<open>smallvec\<close>, and how a user's future is polled. What a property needs of them is a named predicate
  (\<open>release_law\<close>, \<open>lite_map_laws\<close>, \<open>answers\<close>, ...) beside the record, with an instance that satisfies it.

  \<^bold>\<open>Theories.\<close>
  \<^item> \<open>Bunny_Prelude\<close>: words, panics, the monad, reachability, the locale \<open>inductive_invariant\<close> of invariants of a step system, and the
    locale \<open>step_refinement\<close>, by which the code of a loop is shown to be a run of such a system.
  \<^item> \<open>Err\<close>: \<^verbatim>\<open>src/err.rs\<close>; \<^verbatim>\<open>net_try\<close> on every 32-bit code. \<open>Externals\<close>: the arguments.
  \<^item> \<open>Sync_Queue\<close>: \<^verbatim>\<open>src/ctru_utils.rs\<close>. The locale \<open>bag_queue\<close> states what a consumer may rely on, which is no order.
  \<^item> \<open>Executor\<close>: the scheduler of \<^verbatim>\<open>src/executor.rs\<close>. Tokens of live tasks are distinct, a wake updates one entry of the task
    table, the loop of wakes ends when tasks can pay for what they wake, and against any threads that add to the
    queues the executor sleeps only when both are empty. A task that always wakes itself starves the others. The loop itself, in
    whole rounds, is a run of the step system as long as the tasks are \<^const>\<open>cooperative\<close>: polling them takes no permit.
    The locale \<open>cooperative_future\<close> lifts this from a future to the task that awaits it.
  \<^item> \<open>Join_Handle\<close>: \<^verbatim>\<open>JoinHandle\<close>, \<^verbatim>\<open>spawn\<close>, \<^verbatim>\<open>spawn_and_block\<close>. A handle yields its value once, a blocking spawn returns the value of its
    future, and the completion of a task wakes nobody.
  \<^item> \<open>Oneshot\<close>, \<open>Ds_Lock\<close>, \<open>Ds_Mutex\<close>, \<open>Notification\<close>: \<^verbatim>\<open>src/sync.rs\<close>. The channel delivers in every interleaving, with one step per access to shared
    memory, and these steps are equivalent to the operations of the code; a notification reaches a waiter that had stored its token, and no other. The lock admits one holder as long as attempts do not overlap, its word counts the waiters, and it hands over in order;
    it can lose a wake-up, and overlapping attempts can both succeed. \<open>Ds_Mutex\<close> adds the data behind the lock: updates through guards take effect one after the other.
  \<^item> \<open>Ctru_Thread\<close>: \<^verbatim>\<open>src/ctru_thread.rs\<close> and \<^verbatim>\<open>spawn_blocking\<close>. Joining returns the outcome of the closure; the task gets it.
  \<^item> \<open>Reactor\<close>: \<^verbatim>\<open>src/reactor.rs\<close>. A signalled handle wakes the tokens registered for it; a sleep arms one timer.
  \<^item> \<open>Ipc_Call\<close>: calls over a session; the locale \<open>ipc_op\<close> gives the contract of a call once, \<open>posix_op\<close> in \<open>Net_Ipc\<close> extends it.
  \<^item> \<open>Fs_Types\<close>, \<open>Fs_Ipc\<close>: \<^verbatim>\<open>src/fs/types.rs\<close>, \<^verbatim>\<open>src/fs/sync_impl.rs\<close>. Serialised paths are injective; the calls meet their contract.
  \<^item> \<open>Fs_Pool\<close>, \<open>Pool_Workers\<close>: \<^verbatim>\<open>src/fs/async_pool.rs\<close>. A future queues one operation and ends with what the worker's call returned; the
    locale \<open>pool_future\<close> states this once for reads, writes and flushes. With up to 255 queued operations none is left
    behind, in the step system and in the code of the workers, which refines it.
  \<^item> \<open>Fs_Cells\<close>: the two atomics that a worker of the pool and a future share. Their accesses, one step each, are shown to be those of
    \<^verbatim>\<open>resolve\<close> and \<^verbatim>\<open>poll\<close>, and in every interleaving the future ends with the worker's result and never sees half of it.
  \<^item> \<open>Net_Addr\<close>, \<open>Net_Ipc\<close>, \<open>Net_Tcp\<close>: \<^verbatim>\<open>src/net_sync/mod.rs\<close>. Addresses survive a round trip, the calls meet their contract, a failed connect
    closes its descriptor.
  \<^item> \<open>Net_Async\<close>: \<^verbatim>\<open>src/net.rs\<close>. A worker wakes exactly the interests that a poll answers and loses none, step by step and in whole rounds
    of its code; a pending receive is woken when data comes, a connected socket is served or closed.
  \<^item> \<open>Runtime\<close>: \<^verbatim>\<open>src/lib.rs\<close>, \<^verbatim>\<open>src/fs/mod.rs\<close> and start-up. What is set when \<^verbatim>\<open>run\<close> returns, and that it runs once.
  \<^item> \<open>Tasks\<close>: the parts together. The futures of the crate are cooperative, so the executor that \<^verbatim>\<open>Executor::new\<close> sets up blocks only when
    nothing is queued; and a task that reads a file, receives from a socket or sleeps is followed from the task queue through the
    worker or the reactor to its end, with no round blocking on the way. The caller of a blocking spawn is released with the value
    once the executor has polled its task to the end.

  \<^bold>\<open>Loops.\<close> No definition uses fuel. The two inner loops of the executor are partial functions with \<^const>\<open>None\<close> for a run
  without end, and both ending and not ending are proved of them. Loops that wait for ever by design (executor,
  workers, \<^verbatim>\<open>lock_sync\<close>) are one definition per round, and a step relation where rounds of several threads interleave.
  The bound 255 in \<open>Pool_Workers\<close> is the maximum the code gives to its semaphores.

  \<^bold>\<open>Concurrency.\<close> Step relations interleave the threads. A step of \<open>Oneshot\<close>, \<open>Notification\<close> or \<open>Fs_Cells\<close> is one access to memory under sequential
  consistency. In the systems around queues a step is a critical section of the queue's lock or a system call, and
  a step of the rest of the process is any change that takes no permit and removes nothing from the queue. The refinements run the same
  systems by whole calls of the code. A service that changes its answers, like a socket to which data comes, is a different argument
  before and after the change. Weaker memory
  orders are not modelled, nor is the scheduler of the kernel.

  \<^bold>\<open>Not modelled.\<close> \<^verbatim>\<open>src/arm_intrinsics.rs\<close> is inline assembly that \<^verbatim>\<open>src/lib.rs\<close> has commented out, and \<^verbatim>\<open>src/net_sync/err.rs\<close> is
  empty. The loop of an IPC server, the encoding of messages and what dropping a session does are code of \<^verbatim>\<open>ds_ipc\<close>. Getters, \<^verbatim>\<open>Default\<close> implementations and constructors of
  futures that only wrap their arguments have no definition of their own. Logging and \<^verbatim>\<open>Debug\<close>
  implementations have no effect on the rest. The threads that \<^verbatim>\<open>run\<close> starts are recorded and do not run while it does.
\<close>

end
